theory Spec2Isabelle
  imports Complex_Main
begin

section \<open>Numbers and strings of the source language\<close>

text \<open>
  The Python sources compute progress percentages with \<^verbatim>\<open>/\<close> (true division) on
  integers and floats. The embedding uses exact rationals for these values; every
  concrete value evaluated below (halves, quarters, integers) is exactly representable
  in binary floating point, so the idealisation does not change it.
\<close>

text \<open>Python's built-in \<^verbatim>\<open>round(x)\<close> with one argument: to the nearest integer, ties to even.\<close>

definition py_round :: "rat \<Rightarrow> int" where
  "py_round q =
     (let f = \<lfloor>q\<rfloor>; r = q - of_int f
      in if r < 1 / 2 then f
         else if 1 / 2 < r then f + 1
         else if even f then f else f + 1)"

text \<open>Decimal rendering of integers, as \<^verbatim>\<open>str(n)\<close> and f-string interpolation produce it.\<close>

fun str_nat :: "nat \<Rightarrow> string" where
  "str_nat n =
     (if n < 10 then [char_of (48 + n)]
      else str_nat (n div 10) @ [char_of (48 + n mod 10)])"

declare str_nat.simps [simp del]

definition str_int :: "int \<Rightarrow> string" where
  "str_int i = (if i < 0 then CHR ''-'' # str_nat (nat (- i)) else str_nat (nat i))"

section \<open>The render progress tracker (video/progress\_tracker.py)\<close>

text \<open>
  One entry of \<^verbatim>\<open>progress_data\<close>. The wall-clock fields \<^verbatim>\<open>started_at\<close>,
  \<^verbatim>\<open>updated_at\<close> and \<^verbatim>\<open>completed_at\<close> hold readings of \<^verbatim>\<open>time.time()\<close> and are
  left out; \<^verbatim>\<open>video_path\<close> is absent until \<^verbatim>\<open>complete_job\<close> stores it.
\<close>

record scene_description =
  sd_scene_id :: string
  sd_description :: string
  sd_style :: string
  sd_timestamp :: int

record job =
  job_id :: string
  video_title :: string
  total_scenes :: int
  processed_scenes :: int
  current_stage :: string
  stage_name :: string
  stage_progress :: rat
  overall_progress :: rat
  status :: string
  error :: "string option"
  scene_descriptions :: "scene_description list"
  video_path :: "string option"

text \<open>
  The tracker object: the in-memory dictionary and the progress files written by
  \<^verbatim>\<open>_save_progress\<close> (one per job id; a failed write is only logged by the source and
  is not modelled).
\<close>

record tracker =
  progress_data :: "string \<rightharpoonup> job"
  disk :: "string \<rightharpoonup> job"

definition new_tracker :: tracker where
  "new_tracker = \<lparr>progress_data = Map.empty, disk = Map.empty\<rparr>"

definition save_progress :: "tracker \<Rightarrow> string \<Rightarrow> tracker" where
  "save_progress t jid =
     (case progress_data t jid of
        None \<Rightarrow> t
      | Some j \<Rightarrow> t\<lparr>disk := (disk t)(jid \<mapsto> j)\<rparr>)"

definition initial_job :: "string \<Rightarrow> int \<Rightarrow> string \<Rightarrow> job" where
  "initial_job jid n_scenes title =
     \<lparr>job_id = jid, video_title = title, total_scenes = n_scenes,
      processed_scenes = 0, current_stage = ''initializing'',
      stage_name = ''initializing'', stage_progress = 0,
      overall_progress = 0, status = ''running'', error = None,
      scene_descriptions = [], video_path = None\<rparr>"

definition create_job :: "tracker \<Rightarrow> string \<Rightarrow> int \<Rightarrow> string \<Rightarrow> tracker" where
  "create_job t jid n_scenes title =
     save_progress (t\<lparr>progress_data := (progress_data t)(jid \<mapsto> initial_job jid n_scenes title)\<rparr>) jid"

text \<open>
  Every mutator starts with \<^verbatim>\<open>if job_id not in self.progress_data: return\<close>, mutates the
  entry and ends with \<^verbatim>\<open>self._save_progress(job_id)\<close>.
\<close>

definition mutate_job :: "tracker \<Rightarrow> string \<Rightarrow> (job \<Rightarrow> job) \<Rightarrow> tracker" where
  "mutate_job t jid f =
     (case progress_data t jid of
        None \<Rightarrow> t
      | Some j \<Rightarrow> save_progress (t\<lparr>progress_data := (progress_data t)(jid \<mapsto> f j)\<rparr>) jid)"

definition set_total_scenes :: "tracker \<Rightarrow> string \<Rightarrow> int \<Rightarrow> tracker" where
  "set_total_scenes t jid n_scenes = mutate_job t jid (\<lambda>j. j\<lparr>total_scenes := n_scenes\<rparr>)"

definition stage_weights :: "(string \<times> rat) list" where
  "stage_weights =
     [(''initializing'', 0), (''download'', 5), (''lyrics'', 10),
      (''scene_planning'', 15), (''scene_generation'', 20), (''video_creation'', 50)]"

definition update_stage_job :: "string \<Rightarrow> string \<Rightarrow> job \<Rightarrow> job" where
  "update_stage_job name description j =
     (let j1 = j\<lparr>stage_name := name, current_stage := description, stage_progress := 0\<rparr>
      in case map_of stage_weights name of
           Some w \<Rightarrow> j1\<lparr>overall_progress := w\<rparr>
         | None \<Rightarrow> j1)"

definition update_stage :: "tracker \<Rightarrow> string \<Rightarrow> string \<Rightarrow> string \<Rightarrow> tracker" where
  "update_stage t jid name description = mutate_job t jid (update_stage_job name description)"

text \<open>
  \<^verbatim>\<open>update_job\<close> runs \<^verbatim>\<open>current_data.update(job_data)\<close>. The orchestrator passes a
  complete job dictionary, so every field is overwritten by the one passed in.
\<close>

definition update_job :: "tracker \<Rightarrow> string \<Rightarrow> job \<Rightarrow> tracker" where
  "update_job t jid job_data = mutate_job t jid (\<lambda>_. job_data)"

definition get_job :: "tracker \<Rightarrow> string \<Rightarrow> tracker \<times> job option" where
  "get_job t jid =
     (case progress_data t jid of
        Some j \<Rightarrow> (t, Some j)
      | None \<Rightarrow>
          (case disk t jid of
             Some j \<Rightarrow> (t\<lparr>progress_data := (progress_data t)(jid \<mapsto> j)\<rparr>, Some j)
           | None \<Rightarrow> (t, None)))"

definition update_scene_progress_job :: "int \<Rightarrow> job \<Rightarrow> job" where
  "update_scene_progress_job scene_index j =
     (let j1 = j\<lparr>processed_scenes := processed_scenes j + 1,
                current_stage := ''Processing scene '' @ str_int (scene_index + 1) @ ''/''
                                   @ str_int (total_scenes j),
                stage_progress := of_int (scene_index + 1) / of_int (max 1 (total_scenes j)) * 100\<rparr>
      in if stage_name j1 = ''scene_generation''
         then j1\<lparr>overall_progress := min 100 (20 + (50 - 20) * stage_progress j1 / 100)\<rparr>
         else if stage_name j1 = ''video_creation''
         then j1\<lparr>overall_progress := min 100 (50 + (75 - 50) * stage_progress j1 / 100)\<rparr>
         else j1)"

definition update_scene_progress :: "tracker \<Rightarrow> string \<Rightarrow> int \<Rightarrow> string \<Rightarrow> tracker" where
  "update_scene_progress t jid scene_index scene_id =
     mutate_job t jid (update_scene_progress_job scene_index)"

definition update_transition_progress_job :: "int \<Rightarrow> int \<Rightarrow> job \<Rightarrow> job" where
  "update_transition_progress_job transition_index total_transitions j =
     (let j1 = j\<lparr>current_stage := ''Adding transitions '' @ str_int (transition_index + 1) @ ''/''
                                   @ str_int total_transitions,
                stage_progress :=
                  of_int (transition_index + 1) / of_int (max 1 total_transitions) * 100\<rparr>
      in j1\<lparr>overall_progress := min 100 (75 + (90 - 75) * stage_progress j1 / 100)\<rparr>)"

definition update_transition_progress :: "tracker \<Rightarrow> string \<Rightarrow> int \<Rightarrow> int \<Rightarrow> tracker" where
  "update_transition_progress t jid transition_index total_transitions =
     mutate_job t jid (update_transition_progress_job transition_index total_transitions)"

definition update_audio_progress_job :: "rat \<Rightarrow> job \<Rightarrow> job" where
  "update_audio_progress_job progress_percent j =
     j\<lparr>current_stage := ''Adding audio'',
       stage_progress := progress_percent,
       overall_progress := min 100 (90 + (100 - 90) * progress_percent / 100)\<rparr>"

definition update_audio_progress :: "tracker \<Rightarrow> string \<Rightarrow> rat \<Rightarrow> tracker" where
  "update_audio_progress t jid progress_percent =
     mutate_job t jid (update_audio_progress_job progress_percent)"

definition complete_job_job :: "string \<Rightarrow> job \<Rightarrow> job" where
  "complete_job_job path j =
     j\<lparr>current_stage := ''Completed'', stage_progress := 100, overall_progress := 100,
       status := ''completed'', video_path := Some path\<rparr>"

definition complete_job :: "tracker \<Rightarrow> string \<Rightarrow> string \<Rightarrow> tracker" where
  "complete_job t jid path = mutate_job t jid (complete_job_job path)"

definition fail_job_job :: "string \<Rightarrow> job \<Rightarrow> job" where
  "fail_job_job error_message j = j\<lparr>status := ''failed'', error := Some error_message\<rparr>"

definition fail_job :: "tracker \<Rightarrow> string \<Rightarrow> string \<Rightarrow> tracker" where
  "fail_job t jid error_message = mutate_job t jid (fail_job_job error_message)"

text \<open>\<^verbatim>\<open>get_progress\<close> returns a copy of the entry, loading the progress file when the
  job is not in memory.\<close>

definition get_progress :: "tracker \<Rightarrow> string \<Rightarrow> job option" where
  "get_progress t jid = snd (get_job t jid)"

section \<open>Scene count derivation (generation/video\_generator.py, lines 181--206)\<close>

text \<open>
  The \<^verbatim>\<open>duration\<close> entry of the download metadata: absent, present but not of the
  form \<^verbatim>\<open>minutes:seconds\<close> with two integers (the parse raises and the source falls back),
  or parsed.
\<close>

datatype duration_field = NoDuration | BadDuration | Duration int int

definition determine_scene_count :: "int option \<Rightarrow> duration_field \<Rightarrow> string list \<Rightarrow> int" where
  "determine_scene_count scene_count duration lyrics_lines =
     (case scene_count of
        Some n \<Rightarrow> n
      | None \<Rightarrow>
          (let sc1 = (case duration of
                        Duration minutes seconds \<Rightarrow>
                          Some (max 4 (min 12 (py_round (of_int (minutes * 60 + seconds) / 20))))
                      | _ \<Rightarrow> None);
               sc2 = (case sc1 of
                        Some n \<Rightarrow> Some n
                      | None \<Rightarrow>
                          if lyrics_lines \<noteq> []
                          then Some (max 4 (min 12 (py_round (of_nat (length lyrics_lines) / 6))))
                          else None)
           in case sc2 of Some n \<Rightarrow> n | None \<Rightarrow> 5))"

section \<open>The pipeline orchestrator (generation/video\_generator.py)\<close>

text \<open>
  The worker \<^verbatim>\<open>_generate_from_url_worker\<close> drives external collaborators (audio
  download, lyric extraction, the render backend, the encoder). Their outcomes are the
  fields of an environment; the worker is a function from the environment to the
  sequence of calls it makes on the progress tracker.
\<close>

record metadata =
  md_duration :: duration_field
  md_title :: "string option"

record scene_result =
  sr_scene_id :: string
  sr_description :: string
  sr_style :: string
  sr_success :: bool
  sr_image_path :: "string option"
  sr_error :: "string option"

record processed_scene =
  ps_id :: string
  ps_image_path :: string
  ps_duration :: rat
  ps_motion_type :: string
  ps_zoom_factor :: rat
  ps_pan_x :: rat
  ps_pan_y :: rat

text \<open>
  \<^item> \<open>env_download\<close>: the triple \<^verbatim>\<open>(file_path, error, metadata)\<close> of \<^verbatim>\<open>download_from_url\<close>;
  \<^item> \<open>env_lyrics_lines\<close>: the stripped non-empty lines of the cleaned lyrics;
  \<^item> \<open>env_generate_scene\<close>: \<^verbatim>\<open>FastRenderer.generate_scene\<close> for the i-th scene, which
    returns \<^verbatim>\<open>(None, error)\<close> (\<open>Inl\<close>) or \<^verbatim>\<open>(image_path, None)\<close> (\<open>Inr\<close>);
  \<^item> \<open>env_path_exists\<close>: \<^verbatim>\<open>os.path.exists\<close>; \<open>env_hash\<close>: the built-in \<^verbatim>\<open>hash\<close> on strings;
  \<^item> \<open>env_create_scene_video\<close>: \<^verbatim>\<open>VideoProcessor.create_scene_video\<close> for the i-th
    processed scene, \<^verbatim>\<open>(None, error)\<close> (\<open>Inl\<close>) or \<^verbatim>\<open>(scene_video_path, None)\<close> (\<open>Inr\<close>);
  \<^item> \<open>env_combine\<close>, \<open>env_add_audio\<close>: the \<^verbatim>\<open>(success, error)\<close> pairs of
    \<^verbatim>\<open>combine_videos_with_transitions\<close> and \<^verbatim>\<open>add_audio\<close>;
  \<^item> \<open>env_output_path\<close>: the output file name built from the title and the clock.
\<close>

record environment =
  env_download :: "string option \<times> string option \<times> metadata"
  env_lyrics_lines :: "string list"
  env_generate_scene :: "nat \<Rightarrow> scene_description \<Rightarrow> string + string"
  env_path_exists :: "string \<Rightarrow> bool"
  env_hash :: "string \<Rightarrow> int"
  env_create_scene_video :: "nat \<Rightarrow> processed_scene \<Rightarrow> string + string"
  env_combine :: "string list \<Rightarrow> bool \<times> string option"
  env_add_audio :: "bool \<times> string option"
  env_output_path :: string

datatype tracker_op =
    CreateJob int string
  | SetTotalScenes int
  | UpdateStage string string
  | SetSceneDescriptions "scene_description list"
  | UpdateSceneProgress int string
  | UpdateTransitionProgress int int
  | UpdateAudioProgress rat
  | CompleteJob string
  | FailJob string

text \<open>
  \<open>SetSceneDescriptions\<close> stands for lines 251--254: \<^verbatim>\<open>get_job\<close> hands out the stored
  dictionary itself, the worker stores the scene descriptions in it and passes it to
  \<^verbatim>\<open>update_job\<close>.
\<close>

definition apply_op :: "string \<Rightarrow> tracker_op \<Rightarrow> tracker \<Rightarrow> tracker" where
  "apply_op jid op t =
     (case op of
        CreateJob n title \<Rightarrow> create_job t jid n title
      | SetTotalScenes n \<Rightarrow> set_total_scenes t jid n
      | UpdateStage name description \<Rightarrow> update_stage t jid name description
      | SetSceneDescriptions ds \<Rightarrow>
          (case get_job t jid of
             (t1, Some job_data) \<Rightarrow> update_job t1 jid (job_data\<lparr>scene_descriptions := ds\<rparr>)
           | (t1, None) \<Rightarrow> t1)
      | UpdateSceneProgress i sid \<Rightarrow> update_scene_progress t jid i sid
      | UpdateTransitionProgress i n \<Rightarrow> update_transition_progress t jid i n
      | UpdateAudioProgress p \<Rightarrow> update_audio_progress t jid p
      | CompleteJob path \<Rightarrow> complete_job t jid path
      | FailJob msg \<Rightarrow> fail_job t jid msg)"

text \<open>The tracker states after each call, in order.\<close>

fun run_ops :: "string \<Rightarrow> tracker \<Rightarrow> tracker_op list \<Rightarrow> tracker list" where
  "run_ops jid t [] = []"
| "run_ops jid t (op # ops) = apply_op jid op t # run_ops jid (apply_op jid op t) ops"

text \<open>Truth value of an optional string in a condition (\<^verbatim>\<open>if error:\<close>).\<close>

definition truthy :: "string option \<Rightarrow> bool" where
  "truthy x = (case x of None \<Rightarrow> False | Some s \<Rightarrow> s \<noteq> [])"

definition str_opt :: "string option \<Rightarrow> string" where
  "str_opt x = (case x of None \<Rightarrow> ''None'' | Some s \<Rightarrow> s)"

text \<open>Slicing \<^verbatim>\<open>xs[:n]\<close>: a negative \<open>n\<close> counts from the end.\<close>

definition py_take :: "int \<Rightarrow> 'a list \<Rightarrow> 'a list" where
  "py_take n xs = (if n < 0 then take (nat (int (length xs) + n)) xs else take (nat n) xs)"

text \<open>\<^verbatim>\<open>[xs[i:i + k] for i in range(0, len(xs), k)]\<close> for a step \<open>k \<ge> 1\<close>.\<close>

function chunks :: "nat \<Rightarrow> 'a list \<Rightarrow> 'a list list" where
  "chunks k xs = (if k = 0 \<or> xs = [] then [] else take k xs # chunks k (drop k xs))"
  by pat_completeness auto
termination
  by (relation "measure (\<lambda>(k, xs). length xs)") auto

declare chunks.simps [simp del]

fun join_with :: "string \<Rightarrow> string list \<Rightarrow> string" where
  "join_with sep [] = []"
| "join_with sep [x] = x"
| "join_with sep (x # y # ys) = x @ sep @ join_with sep (y # ys)"

text \<open>Exceptions raised by the modelled code, each with the text of \<^verbatim>\<open>str(e)\<close>.\<close>

datatype py_exception =
    ZeroDivisionError string
  | KeyError string
  | IndexError string
  | ValueError string
  | AttributeError string

definition str_exception :: "py_exception \<Rightarrow> string" where
  "str_exception e =
     (case e of
        ZeroDivisionError msg \<Rightarrow> msg
      | KeyError msg \<Rightarrow> msg
      | IndexError msg \<Rightarrow> msg
      | ValueError msg \<Rightarrow> msg
      | AttributeError msg \<Rightarrow> msg)"

text \<open>Step 3 (lines 214--248): the scene descriptions. Line 218 divides by the scene count.\<close>

definition lyric_scene :: "string \<Rightarrow> bool \<Rightarrow> nat \<times> string \<Rightarrow> scene_description" where
  "lyric_scene style has_duration ic =
     \<lparr>sd_scene_id = str_int (int (fst ic) + 1), sd_description = snd ic, sd_style = style,
      sd_timestamp = int (fst ic) * (if has_duration then 30 else 20)\<rparr>"

definition generic_scene :: "string \<Rightarrow> nat \<Rightarrow> scene_description" where
  "generic_scene style i =
     \<lparr>sd_scene_id = str_int (int i + 1),
      sd_description = ''Music video scene '' @ str_int (int i + 1) @ '' in '' @ style @ '' style'',
      sd_style = style, sd_timestamp = int i * 20\<rparr>"

definition plan_scene_descriptions ::
  "string list \<Rightarrow> int \<Rightarrow> string \<Rightarrow> bool \<Rightarrow> py_exception + scene_description list" where
  "plan_scene_descriptions lyrics_lines scene_count style has_duration =
     (if lyrics_lines \<noteq> [] \<and> scene_count = 0
      then Inl (ZeroDivisionError ''integer division or modulo by zero'')
      else
        (let from_lyrics =
               (if lyrics_lines \<noteq> []
                then (let chunk_size = max 1 (int (length lyrics_lines) div scene_count);
                          lyrics_chunks = py_take scene_count
                            (map (join_with '' '') (chunks (nat chunk_size) lyrics_lines))
                      in map (lyric_scene style has_duration) (enumerate 0 lyrics_chunks))
                else [])
         in Inr (from_lyrics
                 @ map (generic_scene style) [length from_lyrics ..< nat scene_count])))"

text \<open>
  \<^verbatim>\<open>FastRenderer.batch_generate_scenes\<close> (comfyui/fast\_renderer.py): one result per
  scene, failures recorded and not raised; the closing log line divides by the number of
  scenes.
\<close>

definition scene_result_of :: "scene_description \<Rightarrow> string + string \<Rightarrow> scene_result" where
  "scene_result_of scene outcome =
     (case outcome of
        Inl err \<Rightarrow>
          \<lparr>sr_scene_id = sd_scene_id scene, sr_description = sd_description scene,
           sr_style = sd_style scene, sr_success = False, sr_image_path = None,
           sr_error = Some err\<rparr>
      | Inr image_path \<Rightarrow>
          \<lparr>sr_scene_id = sd_scene_id scene, sr_description = sd_description scene,
           sr_style = sd_style scene, sr_success = True, sr_image_path = Some image_path,
           sr_error = None\<rparr>)"

definition batch_generate_scenes ::
  "(nat \<Rightarrow> scene_description \<Rightarrow> string + string) \<Rightarrow> scene_description list
     \<Rightarrow> py_exception + scene_result list" where
  "batch_generate_scenes gen scene_descs =
     (if scene_descs = [] then Inl (ZeroDivisionError ''float division by zero'')
      else Inr (map (\<lambda>(i, scene). scene_result_of scene (gen i scene)) (enumerate 0 scene_descs)))"

text \<open>Lines 288--308: the successful scenes whose image file exists, prepared for the encoder.\<close>

definition prepare_scene :: "environment \<Rightarrow> scene_result \<Rightarrow> processed_scene option" where
  "prepare_scene env scene =
     (case sr_image_path scene of
        None \<Rightarrow> None
      | Some image_path \<Rightarrow>
          if image_path = [] \<or> \<not> env_path_exists env image_path then None
          else Some \<lparr>ps_id = sr_scene_id scene, ps_image_path = image_path, ps_duration = 5,
                     ps_motion_type = ''ken_burns'', ps_zoom_factor = 6 / 5,
                     ps_pan_x = of_int (env_hash env (sr_scene_id scene) mod 20 - 10) / 10,
                     ps_pan_y = of_int (env_hash env (sr_scene_id scene @ ''y'') mod 20 - 10) / 10\<rparr>)"

text \<open>Lines 311--330: scene durations from the audio length, between 3 and 10 seconds.\<close>

definition adjust_durations :: "duration_field \<Rightarrow> processed_scene list \<Rightarrow> processed_scene list" where
  "adjust_durations duration scenes =
     (case duration of
        Duration minutes seconds \<Rightarrow>
          if scenes \<noteq> []
          then map (\<lambda>scene. scene\<lparr>ps_duration :=
                      max 3 (min 10 (of_int (minutes * 60 + seconds) / of_nat (length scenes)))\<rparr>)
                 scenes
          else scenes
      | _ \<Rightarrow> scenes)"

text \<open>
  Lines 347--369: one clip per processed scene; a scene whose clip fails is skipped, a
  scene whose clip is made reports progress with its index in \<^verbatim>\<open>processed_scenes\<close>.
\<close>

fun create_scene_videos ::
  "environment \<Rightarrow> (nat \<times> processed_scene) list \<Rightarrow> string list \<times> tracker_op list" where
  "create_scene_videos env [] = ([], [])"
| "create_scene_videos env ((i, scene) # rest) =
     (case env_create_scene_video env i scene of
        Inl err \<Rightarrow> create_scene_videos env rest
      | Inr scene_output \<Rightarrow>
          (scene_output # fst (create_scene_videos env rest),
           UpdateSceneProgress (int i) (ps_id scene) # snd (create_scene_videos env rest)))"

text \<open>Lines 343--421: clips, transitions, audio, completion.\<close>

definition render_video :: "environment \<Rightarrow> processed_scene list \<Rightarrow> tracker_op list" where
  "render_video env processed =
     (let made = create_scene_videos env (enumerate 0 processed);
          scene_videos = fst made
      in snd made @
         (if scene_videos = [] then [FailJob ''Failed to create any scene videos'']
          else
            (let num_transitions = int (length scene_videos) - 1
             in case env_combine env scene_videos of
                  (False, err) \<Rightarrow> [FailJob (''Error combining scenes: '' @ str_opt err)]
                | (True, err) \<Rightarrow>
                    UpdateTransitionProgress num_transitions num_transitions #
                    (case env_add_audio env of
                       (False, err) \<Rightarrow> [FailJob (''Error adding audio: '' @ str_opt err)]
                     | (True, err) \<Rightarrow>
                         [UpdateAudioProgress 100, CompleteJob (env_output_path env)]))))"

text \<open>Lines 272--341: the minimum of two successful scenes, then stage \<^verbatim>\<open>video_creation\<close>.\<close>

definition after_scene_generation ::
  "environment \<Rightarrow> metadata \<Rightarrow> scene_result list \<Rightarrow> tracker_op list" where
  "after_scene_generation env md scene_results =
     (let successful_scenes = filter sr_success scene_results
      in if length successful_scenes < 2
         then [FailJob (''Not enough scenes were successfully generated (only ''
                          @ str_int (int (length successful_scenes)) @ '')'')]
         else UpdateStage ''video_creation'' ''Creating video from scenes and audio'' #
              render_video env
                (adjust_durations (md_duration md)
                   (List.map_filter (prepare_scene env) successful_scenes)))"

text \<open>
  \<^verbatim>\<open>_generate_from_url_worker\<close>. An exception escaping a step reaches the outer handler,
  which fails the job. The model type, aspect ratio and transition settings are only
  handed on to the collaborators.
\<close>

definition worker :: "environment \<Rightarrow> int option \<Rightarrow> string \<Rightarrow> tracker_op list" where
  "worker env scene_count style =
     UpdateStage ''download'' ''Downloading audio from URL'' #
     (case env_download env of
        (file_path, err, md) \<Rightarrow>
          if truthy err then [FailJob (''Download failed: '' @ str_opt err)]
          else
            UpdateStage ''lyrics'' ''Extracting lyrics from audio'' #
            (let lyrics_lines = env_lyrics_lines env;
                 scene_count = determine_scene_count scene_count (md_duration md) lyrics_lines
             in SetTotalScenes scene_count #
                UpdateStage ''scene_planning'' ''Creating scene descriptions from lyrics'' #
                (case plan_scene_descriptions lyrics_lines scene_count style
                        (md_duration md \<noteq> NoDuration) of
                   Inl e \<Rightarrow>
                     [FailJob (''Error in video generation process: '' @ str_exception e)]
                 | Inr scene_descs \<Rightarrow>
                     SetSceneDescriptions scene_descs #
                     UpdateStage ''scene_generation'' ''Generating scene images'' #
                     (case batch_generate_scenes (env_generate_scene env) scene_descs of
                        Inl e \<Rightarrow>
                          [FailJob (''Error in video generation process: '' @ str_exception e)]
                      | Inr scene_results \<Rightarrow> after_scene_generation env md scene_results))))"

text \<open>
  \<^verbatim>\<open>generate_from_url\<close>: the job is created with zero scenes and put into stage
  \<^verbatim>\<open>download\<close>, then the worker runs.
\<close>

definition generate_from_url :: "environment \<Rightarrow> string \<Rightarrow> int option \<Rightarrow> string \<Rightarrow> tracker_op list" where
  "generate_from_url env url scene_count style =
     CreateJob 0 (''Music Video: '' @ url) #
     UpdateStage ''download'' ''Downloading audio from URL'' #
     worker env scene_count style"

text \<open>The snapshots of a job that a status query can observe, one after each tracker call.\<close>

definition snapshots :: "string \<Rightarrow> tracker \<Rightarrow> tracker_op list \<Rightarrow> job option list" where
  "snapshots jid t ops = map (\<lambda>t'. get_progress t' jid) (run_ops jid t ops)"

section \<open>The transition compositor (video/processor.py)\<close>

text \<open>
  The compositor copies, creates and removes files. It is modelled on a POSIX file tree,
  with the library calls it makes (\<^verbatim>\<open>os.path\<close>, \<^verbatim>\<open>os.makedirs\<close>, \<^verbatim>\<open>shutil.copy\<close> and
  \<^verbatim>\<open>shutil.rmtree\<close> of CPython 3.11) written out on that tree. Path strings are strings
  of characters with codes below 256.
\<close>

subsection \<open>Path names (posixpath)\<close>

definition all_slashes :: "string \<Rightarrow> bool" where
  "all_slashes s = list_all (\<lambda>c. c = CHR ''/'') s"

definition trailing_slash :: "string \<Rightarrow> bool" where
  "trailing_slash p = (p \<noteq> [] \<and> last p = CHR ''/'')"

text \<open>\<^verbatim>\<open>os.path.split\<close>: the head is everything up to the last slash, without its trailing
  slashes unless it consists of slashes only; the tail is everything after the last slash.\<close>

definition dirname :: "string \<Rightarrow> string" where
  "dirname p =
     (let head = rev (dropWhile (\<lambda>c. c \<noteq> CHR ''/'') (rev p))
      in if head \<noteq> [] \<and> \<not> all_slashes head
         then rev (dropWhile (\<lambda>c. c = CHR ''/'') (rev head))
         else head)"

definition basename :: "string \<Rightarrow> string" where
  "basename path = rev (takeWhile (\<lambda>c. c \<noteq> CHR ''/'') (rev path))"

text \<open>\<^verbatim>\<open>os.path.join\<close> of two components.\<close>

definition path_join :: "string \<Rightarrow> string \<Rightarrow> string" where
  "path_join a b =
     (if b \<noteq> [] \<and> hd b = CHR ''/'' then b
      else if a = [] \<or> last a = CHR ''/'' then a @ b
      else a @ ''/'' @ b)"

text \<open>\<^verbatim>\<open>repr\<close> of a string, as the messages of \<^verbatim>\<open>OSError\<close> show a file name.\<close>

definition hex_digit :: "nat \<Rightarrow> char" where
  "hex_digit n = (if n < 10 then char_of (48 + n) else char_of (87 + n))"

definition repr_char :: "char \<Rightarrow> char \<Rightarrow> string" where
  "repr_char quote c =
     (let n = (of_char c :: nat)
      in if c = quote \<or> c = CHR 0x5C then [CHR 0x5C, c]
         else if c = CHR 0x09 then [CHR 0x5C, CHR ''t'']
         else if c = CHR 0x0A then [CHR 0x5C, CHR ''n'']
         else if c = CHR 0x0D then [CHR 0x5C, CHR ''r'']
         else if n < 32 \<or> n = 127 \<or> (128 \<le> n \<and> n \<le> 160) \<or> n = 173
         then [CHR 0x5C, CHR ''x'', hex_digit (n div 16), hex_digit (n mod 16)]
         else [c])"

definition py_repr :: "string \<Rightarrow> string" where
  "py_repr s =
     (let quote = (if CHR 0x27 \<in> set s \<and> CHR 0x22 \<notin> set s then CHR 0x22 else CHR 0x27)
      in quote # concat (map (repr_char quote) s) @ [quote])"

subsection \<open>The file tree\<close>

text \<open>
  \<^item> \<open>fs_resolve\<close>: the canonical absolute name that a path string stands for (the
    current directory prefixed, empty and \<^verbatim>\<open>.\<close> components dropped, \<^verbatim>\<open>..\<close> and symbolic
    links to directories followed);
  \<^item> \<open>fs_entries\<close>: what the canonical names hold, a directory or a regular file with
    the number of its inode; the first entry of a name counts, and two names with one
    inode are two links to one file (hard links, or a symbolic link to a file and its
    target); the root directory always exists;
  \<^item> \<open>fs_contents\<close>: the contents of the file of each inode;
  \<^item> \<open>fs_fault\<close>: the error (number and text) that the operating system raises for a
    call on a path for a reason outside the tree (permissions, quotas, devices); such a
    call has no effect.

  Only directories and regular files occur.
\<close>

datatype fs_entry = Directory | RegularFile nat

datatype os_call = OpenRead | OpenWrite | Chmod | Mkdir

type_synonym os_error = "int \<times> string"

record file_system =
  fs_resolve :: "string \<Rightarrow> string"
  fs_entries :: "(string \<times> fs_entry) list"
  fs_contents :: "nat \<Rightarrow> string"
  fs_fault :: "os_call \<Rightarrow> string \<Rightarrow> os_error option"

text \<open>The errors that the tree itself gives rise to, and \<^verbatim>\<open>str(e)\<close> of an \<^verbatim>\<open>OSError\<close> with
  a file name.\<close>

definition ENOENT :: os_error where "ENOENT = (2, ''No such file or directory'')"
definition EEXIST :: os_error where "EEXIST = (17, ''File exists'')"
definition ENOTDIR :: os_error where "ENOTDIR = (20, ''Not a directory'')"
definition EISDIR :: os_error where "EISDIR = (21, ''Is a directory'')"

definition str_os_error :: "os_error \<Rightarrow> string \<Rightarrow> string" where
  "str_os_error e filename =
     ''[Errno '' @ str_int (fst e) @ ''] '' @ snd e @ '': '' @ py_repr filename"

text \<open>What a canonical name holds, and the directories on the way to it, nearest first.\<close>

definition entry_at :: "file_system \<Rightarrow> string \<Rightarrow> fs_entry option" where
  "entry_at fs q = (if q \<noteq> [] \<and> all_slashes q then Some Directory else map_of (fs_entries fs) q)"

function ancestors :: "string \<Rightarrow> string list" where
  "ancestors q = (if dirname q = [] \<or> all_slashes (dirname q) then []
                  else dirname q # ancestors (dirname q))"
  by pat_completeness auto

termination ancestors
proof (relation "measure length")
  show "wf (measure length)" by simp
next
  fix q :: string
  assume "\<not> (dirname q = [] \<or> all_slashes (dirname q))"
  then have ne: "dirname q \<noteq> []" and ns: "\<not> all_slashes (dirname q)" by simp_all
  define head where "head = rev (dropWhile (\<lambda>c. c \<noteq> CHR ''/'') (rev q))"
  have le: "length head \<le> length q"
    by (simp add: head_def length_dropWhile_le [of _ "rev q", simplified])
  have dn: "dirname q = (if head \<noteq> [] \<and> \<not> all_slashes head
                          then rev (dropWhile (\<lambda>c. c = CHR ''/'') (rev head)) else head)"
    unfolding dirname_def head_def Let_def ..
  have "length (dirname q) < length q"
  proof (cases "head \<noteq> [] \<and> \<not> all_slashes head")
    case True
    then have d: "dirname q = rev (dropWhile (\<lambda>c. c = CHR ''/'') (rev head))"
      using dn by simp
    have "rev head = dropWhile (\<lambda>c. c \<noteq> CHR ''/'') (rev q)" by (simp add: head_def)
    moreover have "rev head \<noteq> []" using True by simp
    ultimately have "hd (rev head) = CHR ''/''"
      using hd_dropWhile [of "\<lambda>c. c \<noteq> CHR ''/''" "rev q"] by simp
    then have "length (dropWhile (\<lambda>c. c = CHR ''/'') (rev head)) < length (rev head)"
      using \<open>rev head \<noteq> []\<close> by (cases "rev head") (simp_all add: le_imp_less_Suc length_dropWhile_le)
    then show ?thesis using d le by simp
  next
    case False
    then have "dirname q = head" using dn by auto
    then show ?thesis using ne ns False by simp
  qed
  then show "(dirname q, q) \<in> measure length" by simp
qed

declare ancestors.simps [simp del]

text \<open>
  The first directory on the way to \<open>q\<close>, from the root, that is missing (\<^verbatim>\<open>ENOENT\<close>) or
  is a regular file (\<^verbatim>\<open>ENOTDIR\<close>).
\<close>

definition missing_ancestor :: "file_system \<Rightarrow> string \<Rightarrow> os_error option" where
  "missing_ancestor fs q =
     (case filter (\<lambda>a. entry_at fs a \<noteq> Some Directory) (rev (ancestors q)) of
        [] \<Rightarrow> None
      | a # _ \<Rightarrow> (case entry_at fs a of None \<Rightarrow> Some ENOENT | Some _ \<Rightarrow> Some ENOTDIR))"

text \<open>\<^verbatim>\<open>os.stat\<close>: what a path names.\<close>

definition os_stat :: "file_system \<Rightarrow> string \<Rightarrow> os_error + fs_entry" where
  "os_stat fs p =
     (if p = [] then Inl ENOENT
      else case missing_ancestor fs (fs_resolve fs p) of
             Some e \<Rightarrow> Inl e
           | None \<Rightarrow>
               (case entry_at fs (fs_resolve fs p) of
                  None \<Rightarrow> Inl ENOENT
                | Some Directory \<Rightarrow> Inr Directory
                | Some (RegularFile i) \<Rightarrow>
                    if trailing_slash p then Inl ENOTDIR else Inr (RegularFile i)))"

text \<open>\<^verbatim>\<open>os.path.exists\<close>, \<^verbatim>\<open>os.path.isdir\<close> and \<^verbatim>\<open>os.path.isfile\<close>.\<close>

definition path_exists :: "file_system \<Rightarrow> string \<Rightarrow> bool" where
  "path_exists fs p = (\<not> isl (os_stat fs p))"

definition isdir :: "file_system \<Rightarrow> string \<Rightarrow> bool" where
  "isdir fs p = (os_stat fs p = Inr Directory)"

definition isfile :: "file_system \<Rightarrow> string \<Rightarrow> bool" where
  "isfile fs p = (case os_stat fs p of Inr (RegularFile i) \<Rightarrow> True | _ \<Rightarrow> False)"

text \<open>\<^verbatim>\<open>os.path.samefile\<close>, with \<^verbatim>\<open>False\<close> when one of the two cannot be examined.\<close>

definition samefile :: "file_system \<Rightarrow> string \<Rightarrow> string \<Rightarrow> bool" where
  "samefile fs a b =
     (case (os_stat fs a, os_stat fs b) of
        (Inr (RegularFile i), Inr (RegularFile j)) \<Rightarrow> i = j
      | (Inr Directory, Inr Directory) \<Rightarrow> fs_resolve fs a = fs_resolve fs b
      | _ \<Rightarrow> False)"

text \<open>The contents of the regular file that a path names.\<close>

definition read_file :: "file_system \<Rightarrow> string \<Rightarrow> string option" where
  "read_file fs p =
     (case os_stat fs p of Inr (RegularFile i) \<Rightarrow> Some (fs_contents fs i) | _ \<Rightarrow> None)"

text \<open>\<^verbatim>\<open>open(p, 'rb').read()\<close>.\<close>

definition open_read :: "file_system \<Rightarrow> string \<Rightarrow> os_error + string" where
  "open_read fs p =
     (case fs_fault fs OpenRead p of
        Some e \<Rightarrow> Inl e
      | None \<Rightarrow>
          (case os_stat fs p of
             Inl e \<Rightarrow> Inl e
           | Inr Directory \<Rightarrow> Inl EISDIR
           | Inr (RegularFile i) \<Rightarrow> Inr (fs_contents fs i)))"

text \<open>An inode number that no entry uses.\<close>

definition fresh_inode :: "file_system \<Rightarrow> nat" where
  "fresh_inode fs =
     Suc (fold max (map (\<lambda>(q, e). case e of Directory \<Rightarrow> 0 | RegularFile i \<Rightarrow> i) (fs_entries fs)) 0)"

text \<open>
  \<^verbatim>\<open>open(p, 'wb')\<close> followed by writing the whole contents: an existing regular file is
  overwritten in place, a missing one is created in its directory.
\<close>

definition open_write :: "file_system \<Rightarrow> string \<Rightarrow> string \<Rightarrow> os_error + file_system" where
  "open_write fs p content =
     (case fs_fault fs OpenWrite p of
        Some e \<Rightarrow> Inl e
      | None \<Rightarrow>
          if p = [] then Inl ENOENT
          else case missing_ancestor fs (fs_resolve fs p) of
                 Some e \<Rightarrow> Inl e
               | None \<Rightarrow>
                   if trailing_slash p then Inl EISDIR
                   else case entry_at fs (fs_resolve fs p) of
                          Some Directory \<Rightarrow> Inl EISDIR
                        | Some (RegularFile i) \<Rightarrow>
                            Inr (fs\<lparr>fs_contents := (fs_contents fs)(i := content)\<rparr>)
                        | None \<Rightarrow>
                            Inr (fs\<lparr>fs_entries :=
                                      (fs_resolve fs p, RegularFile (fresh_inode fs)) # fs_entries fs,
                                    fs_contents := (fs_contents fs)(fresh_inode fs := content)\<rparr>))"

text \<open>\<^verbatim>\<open>os.mkdir\<close>.\<close>

definition mkdir :: "file_system \<Rightarrow> string \<Rightarrow> os_error + file_system" where
  "mkdir fs p =
     (case fs_fault fs Mkdir p of
        Some e \<Rightarrow> Inl e
      | None \<Rightarrow>
          if p = [] then Inl ENOENT
          else case missing_ancestor fs (fs_resolve fs p) of
                 Some e \<Rightarrow> Inl e
               | None \<Rightarrow>
                   (case entry_at fs (fs_resolve fs p) of
                      Some e \<Rightarrow> Inl EEXIST
                    | None \<Rightarrow>
                        Inr (fs\<lparr>fs_entries := (fs_resolve fs p, Directory) # fs_entries fs\<rparr>)))"

text \<open>
  \<^verbatim>\<open>os.makedirs(name, exist_ok=True)\<close>. An exception is the error together with the file
  name it reports.
\<close>

definition mkdir_exist_ok ::
  "file_system \<Rightarrow> string \<Rightarrow> file_system \<times> (os_error \<times> string) option" where
  "mkdir_exist_ok fs name =
     (case mkdir fs name of
        Inr fs1 \<Rightarrow> (fs1, None)
      | Inl e \<Rightarrow> if isdir fs name then (fs, None) else (fs, Some (e, name)))"

function makedirs :: "file_system \<Rightarrow> string \<Rightarrow> file_system \<times> (os_error \<times> string) option" where
  "makedirs fs name =
     (let head = (if basename name = [] then dirname (dirname name) else dirname name);
          tail = (if basename name = [] then basename (dirname name) else basename name)
      in if head \<noteq> [] \<and> tail \<noteq> [] \<and> \<not> path_exists fs head
         then (case makedirs fs head of
                 (fs1, Some (e, filename)) \<Rightarrow>
                   if fst e = 17
                   then (if tail = ''.'' then (fs1, None) else mkdir_exist_ok fs1 name)
                   else (fs1, Some (e, filename))
               | (fs1, None) \<Rightarrow>
                   if tail = ''.'' then (fs1, None) else mkdir_exist_ok fs1 name)
         else mkdir_exist_ok fs name)"
  by pat_completeness auto
termination
proof (relation "measure (\<lambda>(fs, name). length name)")
  show "wf (measure (\<lambda>(fs, name). length name))" by simp
next
  fix fs :: file_system and name head tail :: string
  assume h: "head = (if basename name = [] then dirname (dirname name) else dirname name)"
    and t: "tail = (if basename name = [] then basename (dirname name) else basename name)"
    and c: "head \<noteq> [] \<and> tail \<noteq> [] \<and> \<not> path_exists fs head"
  have dn: "length (dirname p) \<le> length (rev (dropWhile (\<lambda>c. c \<noteq> CHR ''/'') (rev p)))" for p
  proof -
    define hd_part where "hd_part = rev (dropWhile (\<lambda>c. c \<noteq> CHR ''/'') (rev p))"
    have "dirname p = (if hd_part \<noteq> [] \<and> \<not> all_slashes hd_part
                       then rev (dropWhile (\<lambda>c. c = CHR ''/'') (rev hd_part)) else hd_part)"
      unfolding dirname_def hd_part_def Let_def ..
    moreover have "length (rev (dropWhile (\<lambda>c. c = CHR ''/'') (rev hd_part))) \<le> length hd_part"
      using length_dropWhile_le [of "\<lambda>c. c = CHR ''/''" "rev hd_part"] by simp
    ultimately show ?thesis unfolding hd_part_def [symmetric] by simp
  qed
  have le: "length (dirname p) \<le> length p" for p
    using dn [of p] length_dropWhile_le [of "\<lambda>c. c \<noteq> CHR ''/''" "rev p"] by simp
  have lt: "length (dirname p) < length p" if "basename p \<noteq> []" for p
  proof -
    have "length (takeWhile (\<lambda>c. c \<noteq> CHR ''/'') (rev p)) + length (dropWhile (\<lambda>c. c \<noteq> CHR ''/'') (rev p))
            = length p"
      using takeWhile_dropWhile_id [of "\<lambda>c. c \<noteq> CHR ''/''" "rev p"]
      by (metis length_append length_rev)
    moreover have "takeWhile (\<lambda>c. c \<noteq> CHR ''/'') (rev p) \<noteq> []"
      using that by (simp add: basename_def)
    ultimately have "length (rev (dropWhile (\<lambda>c. c \<noteq> CHR ''/'') (rev p))) < length p"
      by (cases "takeWhile (\<lambda>c. c \<noteq> CHR ''/'') (rev p)") auto
    then show ?thesis using dn [of p] by simp
  qed
  have "length head < length name"
  proof (cases "basename name = []")
    case True
    then have "head = dirname (dirname name)" and "basename (dirname name) \<noteq> []"
      using h t c by simp_all
    then show ?thesis using lt [of "dirname name"] le [of name] by simp
  next
    case False
    then show ?thesis using h lt [of name] by simp
  qed
  then show "((fs, head), (fs, name)) \<in> measure (\<lambda>(fs, name). length name)" by simp
qed

declare makedirs.simps [simp del]

text \<open>
  \<^verbatim>\<open>shutil.rmtree(path, ignore_errors=True)\<close>: a directory goes with everything below it;
  anything else is an error, which is ignored.
\<close>

definition rmtree :: "file_system \<Rightarrow> string \<Rightarrow> file_system" where
  "rmtree fs path =
     (if isdir fs path
      then fs\<lparr>fs_entries :=
                filter (\<lambda>(q, e). q \<noteq> fs_resolve fs path \<and> fs_resolve fs path \<notin> set (ancestors q))
                  (fs_entries fs)\<rparr>
      else fs)"

text \<open>
  \<^verbatim>\<open>shutil.copy(src, dst)\<close>: the file system it leaves and the text of the exception it
  raises, if any. A destination that is a directory stands for the file of the source's
  name in it.
\<close>

definition copy_target :: "file_system \<Rightarrow> string \<Rightarrow> string \<Rightarrow> string" where
  "copy_target fs src dst = (if isdir fs dst then path_join dst (basename src) else dst)"

definition shutil_copy :: "file_system \<Rightarrow> string \<Rightarrow> string \<Rightarrow> file_system \<times> string option" where
  "shutil_copy fs src dst0 =
     (let dst = copy_target fs src dst0
      in if samefile fs src dst
         then (fs, Some (py_repr src @ '' and '' @ py_repr dst @ '' are the same file''))
         else case open_read fs src of
                Inl e \<Rightarrow> (fs, Some (str_os_error e src))
              | Inr content \<Rightarrow>
                  (case open_write fs dst content of
                     Inl e \<Rightarrow>
                       (fs, Some (if fst e = 21 \<and> \<not> path_exists fs dst
                                  then ''Directory does not exist: '' @ dst
                                  else str_os_error e dst))
                   | Inr fs1 \<Rightarrow>
                       (case fs_fault fs Chmod dst of
                          Some e \<Rightarrow> (fs1, Some (str_os_error e dst))
                        | None \<Rightarrow> (fs1, None))))"

subsection \<open>The encoder and the compositor\<close>

text \<open>
  The filter graph handed to the encoder: a cross-blend (xfade transition name,
  transition start, duration of the first clip, transition duration) or a plain
  concatenation.
\<close>

datatype filter_graph = CrossBlend string rat rat rat | HardCut

datatype probe_result = ProbeFailed string | ProbeRaised string | ProbeDuration rat

text \<open>
  The encoder process. \<open>enc_probe\<close> is the duration probe of the first clip: a non-zero
  exit with its stderr, an exception (the process cannot be started, the output does not
  parse) with its text, or the duration. \<open>enc_run\<close> is \<^verbatim>\<open>_run_ffmpeg_command\<close> on the
  filter graph, the two inputs and the output path: the file system the process leaves
  and the error message (\<^verbatim>\<open>None\<close> for success). \<open>enc_temp_dir\<close> is \<^verbatim>\<open>self.temp_dir\<close>.
\<close>

record encoder =
  enc_probe :: "file_system \<Rightarrow> string \<Rightarrow> probe_result"
  enc_run :: "file_system \<Rightarrow> filter_graph \<Rightarrow> string \<Rightarrow> string \<Rightarrow> string
                \<Rightarrow> file_system \<times> string option"
  enc_temp_dir :: string

definition add_transition ::
  "encoder \<Rightarrow> file_system \<Rightarrow> string \<Rightarrow> string \<Rightarrow> string \<Rightarrow> string \<Rightarrow> rat
     \<Rightarrow> file_system \<times> bool \<times> string option" where
  "add_transition enc fs video1_path video2_path output_path transition_type transition_duration =
     (case makedirs fs (dirname output_path) of
        (fs1, Some (e, filename)) \<Rightarrow>
          (fs1, False, Some (''Failed to add transition: '' @ str_os_error e filename))
      | (fs1, None) \<Rightarrow>
          (case enc_probe enc fs1 video1_path of
             ProbeFailed stderr1 \<Rightarrow>
               (fs1, False, Some (''FFmpeg error getting video1 duration: '' @ stderr1))
           | ProbeRaised msg \<Rightarrow> (fs1, False, Some (''Failed to add transition: '' @ msg))
           | ProbeDuration video1_duration \<Rightarrow>
               (let transition_start = max 0 (video1_duration - transition_duration);
                    filter_complex =
                      (if transition_type = ''fade''
                       then CrossBlend ''fade'' transition_start video1_duration transition_duration
                       else if transition_type = ''wipe''
                       then CrossBlend ''wiperight'' transition_start video1_duration
                              transition_duration
                       else if transition_type = ''dissolve''
                       then CrossBlend ''dissolve'' transition_start video1_duration
                              transition_duration
                       else HardCut)
                in case enc_run enc fs1 filter_complex video1_path video2_path output_path of
                     (fs2, Some err) \<Rightarrow> (fs2, False, Some err)
                   | (fs2, None) \<Rightarrow> (fs2, True, None))))"

text \<open>
  The loop \<^verbatim>\<open>for i in range(1, len(video_paths))\<close>: the running result and the next
  clip are joined into \<^verbatim>\<open>temp_transition_i.mp4\<close>; the first failure removes the
  temporary directory and returns the error.
\<close>

fun combine_loop ::
  "encoder \<Rightarrow> file_system \<Rightarrow> string \<Rightarrow> string \<Rightarrow> int \<Rightarrow> string list \<Rightarrow> string \<Rightarrow> rat
     \<Rightarrow> file_system \<times> (string option + string)" where
  "combine_loop enc fs temp_dir result_path i [] transition_type transition_duration =
     (fs, Inr result_path)"
| "combine_loop enc fs temp_dir result_path i (video # rest) transition_type transition_duration =
     (let temp_output = path_join temp_dir (''temp_transition_'' @ str_int i @ ''.mp4'')
      in case add_transition enc fs result_path video temp_output transition_type
                transition_duration of
           (fs1, False, err) \<Rightarrow> (rmtree fs1 temp_dir, Inl err)
         | (fs1, True, err) \<Rightarrow>
             combine_loop enc fs1 temp_dir temp_output (i + 1) rest transition_type
               transition_duration)"

text \<open>
  \<^verbatim>\<open>combine_videos_with_transitions\<close>: the file system it leaves and the pair
  \<^verbatim>\<open>(success, error)\<close> it returns. Every exception is caught at the end of the function.
\<close>

definition combine_videos_with_transitions ::
  "encoder \<Rightarrow> file_system \<Rightarrow> string list \<Rightarrow> string \<Rightarrow> string \<Rightarrow> rat
     \<Rightarrow> file_system \<times> bool \<times> string option" where
  "combine_videos_with_transitions enc fs video_paths output_path transition_type
       transition_duration =
     (case video_paths of
        [] \<Rightarrow> (fs, False, Some ''No videos provided'')
      | [video] \<Rightarrow>
          (case shutil_copy fs video output_path of
             (fs1, Some msg) \<Rightarrow>
               (fs1, False, Some (''Failed to combine videos with transitions: '' @ msg))
           | (fs1, None) \<Rightarrow> (fs1, True, None))
      | first # rest \<Rightarrow>
          (let temp_dir = path_join (enc_temp_dir enc) (''transition_temp_'' @ basename output_path)
           in case makedirs fs temp_dir of
                (fs0, Some (e, filename)) \<Rightarrow>
                  (fs0, False,
                   Some (''Failed to combine videos with transitions: '' @ str_os_error e filename))
              | (fs0, None) \<Rightarrow>
                  (case combine_loop enc fs0 temp_dir first 1 rest transition_type
                          transition_duration of
                     (fs1, Inl err) \<Rightarrow> (fs1, False, err)
                   | (fs1, Inr result_path) \<Rightarrow>
                       (case shutil_copy fs1 result_path output_path of
                          (fs2, Some msg) \<Rightarrow>
                            (fs2, False,
                             Some (''Failed to combine videos with transitions: '' @ msg))
                        | (fs2, None) \<Rightarrow> (rmtree fs2 temp_dir, True, None)))))"

text \<open>
  The conditions C4 is stated with: the place of a path exists when every directory on
  the way to it does and the path is the name of a file, not of a directory; the
  operating system raises no fault for a copy from \<open>src\<close> to \<open>dst\<close>.
\<close>

definition place_exists :: "file_system \<Rightarrow> string \<Rightarrow> bool" where
  "place_exists fs p =
     (p \<noteq> [] \<and> \<not> trailing_slash p \<and> missing_ancestor fs (fs_resolve fs p) = None)"

definition no_fault :: "file_system \<Rightarrow> string \<Rightarrow> string \<Rightarrow> bool" where
  "no_fault fs src dst =
     (fs_fault fs OpenRead src = None \<and> fs_fault fs OpenWrite dst = None
      \<and> fs_fault fs Chmod dst = None)"

section \<open>Workflow templates (comfyui/fix\_workflow.py)\<close>

text \<open>JSON values as \<^verbatim>\<open>json.load\<close> produces them; dictionaries keep their key order.\<close>

datatype json =
    JNull
  | JBool bool
  | JInt int
  | JReal rat
  | JStr string
  | JList "json list"
  | JDict "(string \<times> json) list"

text \<open>
  A node of a workflow: the keys the modelled functions read or write (\<^verbatim>\<open>id\<close>, an
  integer, \<^verbatim>\<open>type\<close>, \<^verbatim>\<open>order\<close>, \<^verbatim>\<open>inputs\<close>, \<^verbatim>\<open>widgets_values\<close>), each absent or present, and
  the remaining keys. \<^verbatim>\<open>inputs\<close> is a dictionary from parameter names to values (API
  format) or a list of slot dictionaries with a \<^verbatim>\<open>name\<close> entry (editor format).
\<close>

datatype node_inputs =
    InputsDict "(string \<times> json) list"
  | InputsList "(string \<times> json) list list"

record node =
  node_id :: "int option"
  node_type :: "string option"
  node_order :: "int option"
  node_inputs :: "node_inputs option"
  node_widgets :: "json list option"
  node_rest :: "(string \<times> json) list"

text \<open>
  A link is a list \<^verbatim>\<open>[link_id, origin_node_id, origin_slot, target_node_id, target_slot,
  type]\<close> of integers, strings and nulls.
\<close>

datatype link_entry = LNull | LInt int | LStr string

record workflow =
  wf_nodes :: "node list option"
  wf_links :: "link_entry list list option"
  wf_rest :: "(string \<times> json) list"

definition str_entry :: "link_entry \<Rightarrow> string" where
  "str_entry e = (case e of LNull \<Rightarrow> ''None'' | LInt n \<Rightarrow> str_int n | LStr s \<Rightarrow> s)"

text \<open>\<^verbatim>\<open>entry in node_ids\<close>, where a node without \<^verbatim>\<open>id\<close> contributes \<^verbatim>\<open>None\<close>.\<close>

definition entry_in_ids :: "link_entry \<Rightarrow> int option list \<Rightarrow> bool" where
  "entry_in_ids e node_ids =
     (case e of
        LNull \<Rightarrow> None \<in> set node_ids
      | LInt n \<Rightarrow> Some n \<in> set node_ids
      | LStr s \<Rightarrow> False)"

definition preview_node :: node where
  "preview_node =
     \<lparr>node_id = Some 25, node_type = Some ''PreviewImage'', node_order = Some 9,
      node_inputs = Some (InputsList
        [[(''name'', JStr ''images''), (''type'', JStr ''IMAGE''), (''link'', JInt 53)]]),
      node_widgets = Some [],
      node_rest =
        [(''pos'', JList [JInt 1450, JInt (- 150)]), (''size'', JList [JInt 360, JInt 400]),
         (''flags'', JDict []), (''mode'', JInt 0), (''outputs'', JList []),
         (''properties'', JDict
            [(''cnr_id'', JStr ''comfy-core''), (''ver'', JStr ''0.3.33''),
             (''Node name for S&R'', JStr ''PreviewImage''),
             (''widget_ue_connectable'', JDict [])])]\<rparr>"

text \<open>\<^verbatim>\<open>any(link[0] == 53 for link in links)\<close>: indexing an empty link raises.\<close>

fun link_53_exists :: "link_entry list list \<Rightarrow> py_exception + bool" where
  "link_53_exists [] = Inr False"
| "link_53_exists ([] # links) = Inl (IndexError ''list index out of range'')"
| "link_53_exists ((e # es) # links) = (if e = LInt 53 then Inr True else link_53_exists links)"

text \<open>The id of the first \<^verbatim>\<open>VAEDecode\<close> node (\<^verbatim>\<open>None\<close> when there is none or it has no id).\<close>

fun vae_decode_node_id :: "node list \<Rightarrow> int option" where
  "vae_decode_node_id [] = None"
| "vae_decode_node_id (n # ns) =
     (if node_type n = Some ''VAEDecode'' then node_id n else vae_decode_node_id ns)"

text \<open>Lines 27--74: make sure the preview node 25 and its link 53 exist.\<close>

definition ensure_preview :: "workflow \<Rightarrow> py_exception + workflow" where
  "ensure_preview w =
     (let nodes = (case wf_nodes w of None \<Rightarrow> [] | Some ns \<Rightarrow> ns)
      in if list_ex (\<lambda>n. node_id n = Some 25) nodes then Inr w
         else
           (case wf_nodes w of
              None \<Rightarrow> Inl (KeyError [CHR 0x27, CHR ''n'', CHR ''o'', CHR ''d'', CHR ''e'', CHR ''s'', CHR 0x27])
            | Some ns \<Rightarrow>
                (let w1 = w\<lparr>wf_nodes := Some (ns @ [preview_node])\<rparr>
                 in case link_53_exists (case wf_links w1 of None \<Rightarrow> [] | Some ls \<Rightarrow> ls) of
                      Inl e \<Rightarrow> Inl e
                    | Inr True \<Rightarrow> Inr w1
                    | Inr False \<Rightarrow>
                        (case vae_decode_node_id (ns @ [preview_node]) of
                           None \<Rightarrow> Inr w1
                         | Some vae \<Rightarrow>
                             (case wf_links w1 of
                                None \<Rightarrow> Inl (KeyError [CHR 0x27, CHR ''l'', CHR ''i'', CHR ''n'', CHR ''k'', CHR ''s'', CHR 0x27])
                              | Some ls \<Rightarrow>
                                  Inr (w1\<lparr>wf_links := Some (ls @
                                     [[LInt 53, LInt vae, LInt 0, LInt 25, LInt 0,
                                       LStr ''IMAGE'']])\<rparr>))))))"

text \<open>Lines 76--81: nodes without \<^verbatim>\<open>order\<close> are numbered in sequence.\<close>

fun assign_order :: "int \<Rightarrow> node list \<Rightarrow> node list" where
  "assign_order next_order [] = []"
| "assign_order next_order (n # ns) =
     (case node_order n of
        None \<Rightarrow> n\<lparr>node_order := Some next_order\<rparr> # assign_order (next_order + 1) ns
      | Some k \<Rightarrow> n # assign_order next_order ns)"

text \<open>
  Lines 83--96: the links whose endpoints exist, and the warnings printed for the others.
  A link with at least six entries is unpacked into exactly six names, which raises for
  a longer link.
\<close>

fun validate_links ::
  "int option list \<Rightarrow> link_entry list list \<Rightarrow> string list \<times> (py_exception + link_entry list list)" where
  "validate_links node_ids [] = ([], Inr [])"
| "validate_links node_ids (link # links) =
     (if 6 \<le> length link
      then (case link of
              [link_id, origin_node_id, origin_slot, target_node_id, target_slot, link_type] \<Rightarrow>
                if entry_in_ids origin_node_id node_ids \<and> entry_in_ids target_node_id node_ids
                then (case validate_links node_ids links of
                        (warnings, Inl e) \<Rightarrow> (warnings, Inl e)
                      | (warnings, Inr valid_links) \<Rightarrow> (warnings, Inr (link # valid_links)))
                else (case validate_links node_ids links of
                        (warnings, r) \<Rightarrow>
                          ((''Warning: Link '' @ str_entry link_id
                              @ '' references non-existent node(s): ''
                              @ str_entry origin_node_id @ '' -> ''
                              @ str_entry target_node_id) # warnings, r))
            | _ \<Rightarrow> ([], Inl (ValueError ''too many values to unpack (expected 6)'')))
      else validate_links node_ids links)"

text \<open>
  \<^verbatim>\<open>fix_workflow_file\<close> on the loaded workflow: the lines printed and, unless an
  exception was caught (the function then returns \<^verbatim>\<open>False\<close> and writes nothing), the
  workflow written to the output file.
\<close>

definition fix_workflow :: "workflow \<Rightarrow> string \<Rightarrow> string list \<times> workflow option" where
  "fix_workflow w output_file =
     (case ensure_preview w of
        Inl e \<Rightarrow> ([''Error fixing workflow file: '' @ str_exception e], None)
      | Inr w1 \<Rightarrow>
          (let w2 = (case wf_nodes w1 of
                       None \<Rightarrow> w1
                     | Some ns \<Rightarrow> w1\<lparr>wf_nodes := Some (assign_order 0 ns)\<rparr>);
               node_ids = map node_id (case wf_nodes w2 of None \<Rightarrow> [] | Some ns \<Rightarrow> ns)
           in case validate_links node_ids (case wf_links w2 of None \<Rightarrow> [] | Some ls \<Rightarrow> ls) of
                (warnings, Inl e) \<Rightarrow>
                  (warnings @ [''Error fixing workflow file: '' @ str_exception e], None)
              | (warnings, Inr valid_links) \<Rightarrow>
                  (warnings @ [''Successfully fixed workflow file: '' @ output_file],
                   Some (w2\<lparr>wf_links := Some valid_links\<rparr>))))"



section \<open>The render backend client: waiting and fetching (comfyui/interface.py)\<close>

text \<open>
  The backend as the client sees it. Its answers may change with time; the client's clock
  advances by the length of each \<^verbatim>\<open>time.sleep\<close> and by \<open>be_latency\<close> for each request.
  \<^item> \<open>be_status\<close>: the answer to \<^verbatim>\<open>GET /prompt/status\<close>: the request raises, or it returns a
    status code with a body that parses to the fields read by the client or does not
    parse (\<open>None\<close>);
  \<^item> \<open>be_history\<close>: the entry of the prompt in \<^verbatim>\<open>GET /history/{prompt_id}\<close>, \<open>None\<close> when
    the prompt is not in the history (or the request failed: \<^verbatim>\<open>get_history\<close> then
    returns an empty dictionary);
  \<^item> \<open>be_image\<close>: the bytes returned by \<^verbatim>\<open>GET /view\<close>, \<open>None\<close> when the request failed.
\<close>

record status_data =
  sd_error :: "string option"
  sd_executing :: "string option"
  sd_pending :: "string option"

datatype status_response = RequestFailed string | Response int "status_data option"

record output_item =
  oi_type :: "string option"
  oi_filename :: "string option"
  oi_subfolder :: "string option"

text \<open>
  \<^verbatim>\<open>history[prompt_id]\<close>: under \<^verbatim>\<open>outputs\<close> (when present), per node id and output name,
  the output data: a list of items, or \<open>None\<close> for a value that is not a list.
\<close>

record prompt_data =
  pd_outputs :: "(string \<times> (string \<times> output_item list option) list) list option"

record backend =
  be_status :: "rat \<Rightarrow> status_response"
  be_history :: "rat \<Rightarrow> prompt_data option"
  be_image :: "string \<Rightarrow> string \<Rightarrow> string option"
  be_latency :: rat

datatype event =
    GetStatus
  | GetHistory
  | GetImage string string
  | Sleep rat
  | WriteFile string
  | LogWarning string
  | LogError string

datatype prompt_output = ImageOutput string string | OtherOutput string "output_item list"

text \<open>Assignment \<^verbatim>\<open>d[key] = value\<close> on a dictionary that keeps insertion order.\<close>

fun dict_set :: "('k \<times> 'v) list \<Rightarrow> 'k \<Rightarrow> 'v \<Rightarrow> ('k \<times> 'v) list" where
  "dict_set [] k v = [(k, v)]"
| "dict_set ((k', v') # d) k v = (if k' = k then (k, v) # d else (k', v') # dict_set d k v)"

definition get_or :: "'a option \<Rightarrow> 'a \<Rightarrow> 'a" where
  "get_or x d = (case x of None \<Rightarrow> d | Some v \<Rightarrow> v)"

text \<open>\<^verbatim>\<open>get_prompt_outputs\<close>, with the history entry of the prompt already looked up.\<close>

definition output_of :: "output_item \<Rightarrow> output_item list \<Rightarrow> prompt_output" where
  "output_of first output_data =
     (if oi_type first = Some ''image''
      then ImageOutput (get_or (oi_filename first) []) (get_or (oi_subfolder first) [])
      else OtherOutput (get_or (oi_type first) ''unknown'') output_data)"

fun node_outputs_into ::
  "string \<Rightarrow> (string \<times> output_item list option) list \<Rightarrow> (string \<times> prompt_output) list
     \<Rightarrow> (string \<times> prompt_output) list" where
  "node_outputs_into out_node_id [] outputs = outputs"
| "node_outputs_into out_node_id ((output_name, output_data) # rest) outputs =
     (case output_data of
        Some (item # items) \<Rightarrow>
          node_outputs_into out_node_id rest
            (dict_set outputs (out_node_id @ ''_'' @ output_name) (output_of item (item # items)))
      | _ \<Rightarrow> node_outputs_into out_node_id rest outputs)"

fun all_outputs_into ::
  "(string \<times> (string \<times> output_item list option) list) list \<Rightarrow> (string \<times> prompt_output) list
     \<Rightarrow> (string \<times> prompt_output) list" where
  "all_outputs_into [] outputs = outputs"
| "all_outputs_into ((out_node_id, node_outputs) # rest) outputs =
     all_outputs_into rest (node_outputs_into out_node_id node_outputs outputs)"

definition get_prompt_outputs :: "prompt_data option \<Rightarrow> (string \<times> prompt_output) list" where
  "get_prompt_outputs history_entry =
     (case history_entry of
        None \<Rightarrow> []
      | Some prompt \<Rightarrow>
          (case pd_outputs prompt of
             None \<Rightarrow> []
           | Some outs \<Rightarrow> all_outputs_into outs []))"

text \<open>
  What \<^verbatim>\<open>wait_for_prompt\<close> gives back: \<^verbatim>\<open>(True, outputs)\<close>, \<^verbatim>\<open>(False, {"error": message})\<close>,
  or an exception that leaves the function.
\<close>

datatype wait_result =
    Completed "(string \<times> prompt_output) list"
  | Failed string
  | Raised py_exception

text \<open>
  One pass through the body of the \<^verbatim>\<open>while\<close> loop at clock reading \<open>now\<close>: the function
  returns, or the loop goes on at a later clock reading. The events of the pass come
  with it. \<^verbatim>\<open>time.sleep\<close> raises for a negative length; inside the \<^verbatim>\<open>try\<close> block the
  exception is logged and the closing sleep of the pass raises it again.
\<close>

datatype pass = Return wait_result "event list" | Again rat "event list"

definition closing_sleep :: "rat \<Rightarrow> rat \<Rightarrow> event list \<Rightarrow> pass" where
  "closing_sleep check_interval now events =
     (if check_interval < 0
      then Return (Raised (ValueError ''sleep length must be non-negative'')) events
      else Again (now + check_interval) (events @ [Sleep check_interval]))"

text \<open>A sleep inside the \<^verbatim>\<open>try\<close> block followed by \<^verbatim>\<open>continue\<close>.\<close>

definition sleep_and_continue :: "rat \<Rightarrow> rat \<Rightarrow> event list \<Rightarrow> pass" where
  "sleep_and_continue check_interval now events =
     (if check_interval < 0
      then closing_sleep check_interval now
             (events @ [LogError ''Error checking prompt status: sleep length must be non-negative''])
      else Again (now + check_interval) (events @ [Sleep check_interval]))"

definition silent_failure_warning :: "string \<Rightarrow> string" where
  "silent_failure_warning prompt_id =
     ''Prompt '' @ prompt_id @ '' not found in execution or history, it may have failed silently''"

definition poll_pass :: "backend \<Rightarrow> string \<Rightarrow> rat \<Rightarrow> rat \<Rightarrow> pass" where
  "poll_pass be prompt_id check_interval now =
     (let t1 = now + be_latency be
      in case be_status be now of
           RequestFailed msg \<Rightarrow>
             closing_sleep check_interval t1
               [GetStatus, LogError (''Error checking prompt status: '' @ msg)]
         | Response code body \<Rightarrow>
             if code \<noteq> 200
             then sleep_and_continue check_interval t1
                    [GetStatus, LogWarning (''Error getting status: '' @ str_int code @ '', retrying...'')]
             else
               (case body of
                  None \<Rightarrow>
                    closing_sleep check_interval t1
                      [GetStatus, LogError ''Error checking prompt status: invalid JSON'']
                | Some status_json \<Rightarrow>
                    (case sd_error status_json of
                       Some err \<Rightarrow>
                         Return (Failed err)
                           [GetStatus, LogError (''Prompt '' @ prompt_id @ '' failed: '' @ err)]
                     | None \<Rightarrow>
                         if sd_executing status_json = Some prompt_id
                         then sleep_and_continue check_interval t1 [GetStatus]
                         else
                           (let history = be_history be t1;
                                t2 = t1 + be_latency be;
                                outputs = get_prompt_outputs history
                            in if history \<noteq> None \<and> outputs \<noteq> []
                               then Return (Completed outputs) [GetStatus, GetHistory]
                               else if sd_pending status_json = Some prompt_id
                               then sleep_and_continue check_interval t2 [GetStatus, GetHistory]
                               else if history = None
                               then
                                 (if check_interval * 2 < 0
                                  then closing_sleep check_interval t2
                                         [GetStatus, GetHistory,
                                          LogError ''Error checking prompt status: sleep length must be non-negative'']
                                  else
                                    (let t3 = t2 + check_interval * 2;
                                         history2 = be_history be t3;
                                         t4 = t3 + be_latency be;
                                         outputs2 = get_prompt_outputs history2
                                     in if history2 \<noteq> None \<and> outputs2 \<noteq> []
                                        then Return (Completed outputs2)
                                               [GetStatus, GetHistory, Sleep (check_interval * 2), GetHistory]
                                        else closing_sleep check_interval t4
                                               [GetStatus, GetHistory, Sleep (check_interval * 2), GetHistory,
                                                LogWarning (silent_failure_warning prompt_id)]))
                               else closing_sleep check_interval t2 [GetStatus, GetHistory]))))"

text \<open>
  The loop \<^verbatim>\<open>while time.time() - start_time < timeout\<close>. It need not end in the model
  (no sleep and no latency with an unbounded timeout), so the result is optional.
\<close>

partial_function (option) wait_loop ::
  "backend \<Rightarrow> string \<Rightarrow> rat \<Rightarrow> rat \<Rightarrow> rat \<Rightarrow> rat \<Rightarrow> event list
     \<Rightarrow> (wait_result \<times> event list) option" where
  "wait_loop be prompt_id start_time timeout check_interval now events =
     (if now - start_time < timeout
      then (case poll_pass be prompt_id check_interval now of
              Return r evs \<Rightarrow> Some (r, events @ evs)
            | Again later evs \<Rightarrow>
                wait_loop be prompt_id start_time timeout check_interval later (events @ evs))
      else Some (Failed ''Timeout waiting for prompt to complete'',
                 events @ [LogError (''Timeout waiting for prompt '' @ prompt_id)]))"

declare wait_loop.simps [code]

definition wait_for_prompt ::
  "backend \<Rightarrow> string \<Rightarrow> rat \<Rightarrow> rat \<Rightarrow> rat \<Rightarrow> (wait_result \<times> event list) option" where
  "wait_for_prompt be prompt_id timeout check_interval now =
     wait_loop be prompt_id now timeout check_interval now []"

text \<open>
  \<^verbatim>\<open>download_output_images\<close>: one request per image output with a file name; an image
  that arrives (non-empty) is written under the output directory.
\<close>

fun download_output_images ::
  "backend \<Rightarrow> (string \<times> prompt_output) list \<Rightarrow> string
     \<Rightarrow> (string \<times> string) list \<times> event list" where
  "download_output_images be [] output_dir = ([], [])"
| "download_output_images be ((key, output) # rest) output_dir =
     (case output of
        ImageOutput filename subfolder \<Rightarrow>
          if filename = [] then download_output_images be rest output_dir
          else
            (case be_image be filename subfolder of
               Some image_data \<Rightarrow>
                 if image_data = []
                 then (fst (download_output_images be rest output_dir),
                       GetImage filename subfolder
                         # LogWarning (''Failed to download image '' @ filename)
                         # snd (download_output_images be rest output_dir))
                 else ((key, path_join output_dir (key @ ''_'' @ filename))
                         # fst (download_output_images be rest output_dir),
                       GetImage filename subfolder
                         # WriteFile (path_join output_dir (key @ ''_'' @ filename))
                         # snd (download_output_images be rest output_dir))
             | None \<Rightarrow>
                 (fst (download_output_images be rest output_dir),
                  GetImage filename subfolder
                    # LogError (''Failed to get image '' @ filename)
                    # LogWarning (''Failed to download image '' @ filename)
                    # snd (download_output_images be rest output_dir)))
      | OtherOutput ty data \<Rightarrow> download_output_images be rest output_dir)"

text \<open>
  The caller's step after waiting (\<^verbatim>\<open>generate_scene\<close>, lines 529--539): a failed wait
  returns its error, and only a completed wait goes on to download the images.
\<close>

definition fetch_after_wait ::
  "backend \<Rightarrow> wait_result \<Rightarrow> string \<Rightarrow> (string + (string \<times> string) list) \<times> event list" where
  "fetch_after_wait be waited output_dir =
     (case waited of
        Completed outputs \<Rightarrow>
          (Inr (fst (download_output_images be outputs output_dir)),
           snd (download_output_images be outputs output_dir))
      | Failed error_message \<Rightarrow>
          (Inl error_message, [LogError (''Error processing prompt: '' @ error_message)])
      | Raised e \<Rightarrow>
          (Inl (''Failed to generate scene: '' @ str_exception e),
           [LogError (''Failed to generate scene: '' @ str_exception e)]))"

section \<open>The workflow patcher (comfyui/interface.py, \<^verbatim>\<open>update_workflow\<close>)\<close>

text \<open>
  \<^verbatim>\<open>update_workflow\<close> deep-copies the workflow and then mutates node dictionaries of the
  copy in place. Whether the caller's workflow is affected depends on which objects are
  shared, so node dictionaries live in a store: a list of nodes, an address being an
  index into it. Allocation appends. A workflow in the store holds the addresses of its
  nodes; its links and other entries are plain values. An address outside the store
  cannot occur in a workflow built by the program; the functions below pass over it.
\<close>

type_synonym addr = nat

type_synonym store = "node list"

record stored_workflow =
  sw_nodes :: "addr list option"
  sw_links :: "link_entry list list option"
  sw_rest :: "(string \<times> json) list"

text \<open>The workflow as a value: what \<^verbatim>\<open>json.dumps\<close> of it would show.\<close>

definition read_workflow :: "store \<Rightarrow> stored_workflow \<Rightarrow> workflow" where
  "read_workflow h w =
     \<lparr>wf_nodes = map_option (map (\<lambda>a. h ! a)) (sw_nodes w),
      wf_links = sw_links w, wf_rest = sw_rest w\<rparr>"

text \<open>
  \<^verbatim>\<open>copy.deepcopy\<close>: every node is copied to a fresh address; the memo makes a node that
  occurs twice in the list occur twice in the copy as one object.
\<close>

fun deepcopy_nodes ::
  "store \<Rightarrow> (addr \<times> addr) list \<Rightarrow> addr list \<Rightarrow> store \<times> (addr \<times> addr) list \<times> addr list" where
  "deepcopy_nodes h memo [] = (h, memo, [])"
| "deepcopy_nodes h memo (a # as) =
     (case map_of memo a of
        Some a' \<Rightarrow>
          (case deepcopy_nodes h memo as of (h1, memo1, bs) \<Rightarrow> (h1, memo1, a' # bs))
      | None \<Rightarrow>
          if a < length h
          then (case deepcopy_nodes (h @ [h ! a]) ((a, length h) # memo) as of
                  (h1, memo1, bs) \<Rightarrow> (h1, memo1, length h # bs))
          else (case deepcopy_nodes h memo as of (h1, memo1, bs) \<Rightarrow> (h1, memo1, a # bs)))"

definition deepcopy_workflow :: "store \<Rightarrow> stored_workflow \<Rightarrow> store \<times> stored_workflow" where
  "deepcopy_workflow h w =
     (case sw_nodes w of
        None \<Rightarrow> (h, w)
      | Some refs \<Rightarrow>
          (case deepcopy_nodes h [] refs of
             (h1, memo1, refs1) \<Rightarrow> (h1, w\<lparr>sw_nodes := Some refs1\<rparr>)))"

text \<open>\<^verbatim>\<open>key.split('.')\<close>.\<close>

fun split_on :: "char \<Rightarrow> string \<Rightarrow> string list" where
  "split_on c [] = [[]]"
| "split_on c (x # xs) =
     (if x = c then [] # split_on c xs
      else (case split_on c xs of
              p # ps \<Rightarrow> (x # p) # ps
            | [] \<Rightarrow> [[x]]))"

text \<open>\<^verbatim>\<open>str(node.get("id"))\<close>.\<close>

definition str_node_id :: "node \<Rightarrow> string" where
  "str_node_id n = (case node_id n of None \<Rightarrow> ''None'' | Some i \<Rightarrow> str_int i)"

text \<open>\<^verbatim>\<open>"inputs" in node and param in node["inputs"]\<close>: a key of the dictionary; a list of
  slot dictionaries never contains the parameter name itself.\<close>

definition inputs_has_param :: "node \<Rightarrow> string \<Rightarrow> bool" where
  "inputs_has_param n param =
     (case node_inputs n of
        Some (InputsDict d) \<Rightarrow> param \<in> set (map fst d)
      | _ \<Rightarrow> False)"

text \<open>
  The search for the slot named like the parameter (lines 126--131). Iterating a
  non-empty dictionary yields its keys, and \<^verbatim>\<open>.get\<close> on a string raises.
\<close>

fun slot_index :: "string \<Rightarrow> nat \<Rightarrow> (string \<times> json) list list \<Rightarrow> nat option" where
  "slot_index param i [] = None"
| "slot_index param i (slot # slots) =
     (if map_of slot ''name'' = Some (JStr param) then Some i else slot_index param (Suc i) slots)"

definition param_index_of :: "node \<Rightarrow> string \<Rightarrow> py_exception + nat option" where
  "param_index_of n param =
     (case node_inputs n of
        None \<Rightarrow> Inr None
      | Some (InputsDict d) \<Rightarrow>
          if d = [] then Inr None
          else Inl (AttributeError [CHR 0x27, CHR ''s'', CHR ''t'', CHR ''r'', CHR 0x27])
      | Some (InputsList slots) \<Rightarrow> Inr (slot_index param 0 slots))"

text \<open>Lines 137--151: the node types with a known widget layout.\<close>

definition special_widget :: "node \<Rightarrow> json list \<Rightarrow> string \<Rightarrow> json \<Rightarrow> node" where
  "special_widget n widgets param v =
     (if node_type n = Some ''CLIPTextEncode'' \<and> param = ''text'' \<and> 0 < length widgets
      then n\<lparr>node_widgets := Some (widgets[0 := v])\<rparr>
      else if node_type n = Some ''SaveImage''
      then (if param = ''filename_prefix'' \<and> 1 < length widgets
            then n\<lparr>node_widgets := Some (widgets[1 := v])\<rparr>
            else if param = ''output_dir'' \<and> 0 < length widgets
            then n\<lparr>node_widgets := Some (widgets[0 := v])\<rparr>
            else n)
      else n)"

text \<open>
  Lines 118--153 on the node that matched the id. A parameter that is not found and an
  exception on the way leave the node as it is (the source logs them).
\<close>

definition patch_node :: "node \<Rightarrow> string \<Rightarrow> json \<Rightarrow> node" where
  "patch_node n param v =
     (if inputs_has_param n param
      then (case node_inputs n of
              Some (InputsDict d) \<Rightarrow> n\<lparr>node_inputs := Some (InputsDict (dict_set d param v))\<rparr>
            | _ \<Rightarrow> n)
      else
        (case node_widgets n of
           None \<Rightarrow> n
         | Some widgets \<Rightarrow>
             (case param_index_of n param of
                Inl e \<Rightarrow> n
              | Inr None \<Rightarrow> special_widget n widgets param v
              | Inr (Some param_index) \<Rightarrow>
                  if param_index < length widgets
                  then n\<lparr>node_widgets := Some (widgets[param_index := v])\<rparr>
                  else special_widget n widgets param v)))"

text \<open>The first node of the list whose id prints as the key's first part.\<close>

fun find_node :: "store \<Rightarrow> string \<Rightarrow> addr list \<Rightarrow> addr option" where
  "find_node h node_id_str [] = None"
| "find_node h node_id_str (a # as) =
     (if a < length h \<and> str_node_id (h ! a) = node_id_str then Some a
      else find_node h node_id_str as)"

text \<open>One pass of the loop over \<^verbatim>\<open>updates.items()\<close>; a key that does not split into two
  parts raises on unpacking and is skipped.\<close>

definition apply_update :: "addr list \<Rightarrow> string \<times> json \<Rightarrow> store \<Rightarrow> store" where
  "apply_update refs kv h =
     (case split_on CHR ''.'' (fst kv) of
        [node_id_str, param] \<Rightarrow>
          (case find_node h node_id_str refs of
             None \<Rightarrow> h
           | Some a \<Rightarrow> h[a := patch_node (h ! a) param (snd kv)])
      | _ \<Rightarrow> h)"

text \<open>\<^verbatim>\<open>workflow.get("nodes", [])\<close>.\<close>

definition nodes_of :: "stored_workflow \<Rightarrow> addr list" where
  "nodes_of w = (case sw_nodes w of None \<Rightarrow> [] | Some refs \<Rightarrow> refs)"

definition update_workflow ::
  "store \<Rightarrow> stored_workflow \<Rightarrow> (string \<times> json) list \<Rightarrow> store \<times> stored_workflow" where
  "update_workflow h workflow updates =
     (case deepcopy_workflow h workflow of
        (h1, updated_workflow) \<Rightarrow>
          (fold (apply_update (nodes_of updated_workflow)) updates h1, updated_workflow))"

text \<open>
  \<^verbatim>\<open>generate_scene\<close>, lines 510--516: after patching, the first widget of every
  \<^verbatim>\<open>KSampler\<close> node with a non-empty widget list becomes \<^verbatim>\<open>random.randint(0, 9999999999)\<close>.
  \<open>draws i\<close> is the number drawn at the node in position \<open>i\<close> of the list. A node
  without \<^verbatim>\<open>type\<close> raises.
\<close>

definition is_seed_node :: "node \<Rightarrow> bool" where
  "is_seed_node n =
     (node_type n = Some ''KSampler''
      \<and> (case node_widgets n of None \<Rightarrow> False | Some widgets \<Rightarrow> widgets \<noteq> []))"

definition set_seed :: "int \<Rightarrow> node \<Rightarrow> node" where
  "set_seed seed n =
     (if is_seed_node n
      then n\<lparr>node_widgets := map_option (\<lambda>widgets. widgets[0 := JInt seed]) (node_widgets n)\<rparr>
      else n)"

fun randomize_seeds :: "(nat \<Rightarrow> int) \<Rightarrow> nat \<Rightarrow> addr list \<Rightarrow> store \<Rightarrow> py_exception + store" where
  "randomize_seeds draws i [] h = Inr h"
| "randomize_seeds draws i (a # as) h =
     (if a < length h
      then (if node_type (h ! a) = None
            then Inl (KeyError [CHR 0x27, CHR ''t'', CHR ''y'', CHR ''p'', CHR ''e'', CHR 0x27])
            else randomize_seeds draws (Suc i) as (h[a := set_seed (draws i) (h ! a)]))
      else randomize_seeds draws (Suc i) as h)"

text \<open>Lines 506--516: patch, then seed. The result is the workflow that is queued.\<close>

definition patch_and_seed ::
  "store \<Rightarrow> stored_workflow \<Rightarrow> (string \<times> json) list \<Rightarrow> (nat \<Rightarrow> int)
     \<Rightarrow> py_exception + (store \<times> stored_workflow)" where
  "patch_and_seed h workflow updates draws =
     (case update_workflow h workflow updates of
        (h1, updated_workflow) \<Rightarrow>
          (case sw_nodes updated_workflow of
             None \<Rightarrow> Inl (KeyError [CHR 0x27, CHR ''n'', CHR ''o'', CHR ''d'', CHR ''e'', CHR ''s'', CHR 0x27])
           | Some refs \<Rightarrow>
               (case randomize_seeds draws 0 refs h1 of
                  Inl e \<Rightarrow> Inl e
                | Inr h2 \<Rightarrow> Inr (h2, updated_workflow))))"

text \<open>The patched workflow as a value, without and with the seeding step.\<close>

definition updated_template :: "store \<Rightarrow> stored_workflow \<Rightarrow> (string \<times> json) list \<Rightarrow> workflow" where
  "updated_template h workflow updates =
     (case update_workflow h workflow updates of (h1, updated) \<Rightarrow> read_workflow h1 updated)"

definition patched_template ::
  "store \<Rightarrow> stored_workflow \<Rightarrow> (string \<times> json) list \<Rightarrow> (nat \<Rightarrow> int) \<Rightarrow> py_exception + workflow" where
  "patched_template h workflow updates draws =
     (case patch_and_seed h workflow updates draws of
        Inl e \<Rightarrow> Inl e
      | Inr (h2, updated) \<Rightarrow> Inr (read_workflow h2 updated))"

section \<open>The effect of tracker calls on one job entry\<close>

text \<open>
  What a tracker call does to the entry of the job it names, once the entry exists
  (\<open>apply_op_job\<close> below relates it to the tracker-level operations).
\<close>

definition op_job :: "string \<Rightarrow> tracker_op \<Rightarrow> job \<Rightarrow> job" where
  "op_job jid op j =
     (case op of
        CreateJob n title \<Rightarrow> initial_job jid n title
      | SetTotalScenes n \<Rightarrow> j\<lparr>total_scenes := n\<rparr>
      | UpdateStage name description \<Rightarrow> update_stage_job name description j
      | SetSceneDescriptions ds \<Rightarrow> j\<lparr>scene_descriptions := ds\<rparr>
      | UpdateSceneProgress i sid \<Rightarrow> update_scene_progress_job i j
      | UpdateTransitionProgress i n \<Rightarrow> update_transition_progress_job i n j
      | UpdateAudioProgress p \<Rightarrow> update_audio_progress_job p j
      | CompleteJob path \<Rightarrow> complete_job_job path j
      | FailJob msg \<Rightarrow> fail_job_job msg j)"

fun job_trace :: "string \<Rightarrow> job \<Rightarrow> tracker_op list \<Rightarrow> job list" where
  "job_trace jid j [] = []"
| "job_trace jid j (op # ops) = op_job jid op j # job_trace jid (op_job jid op j) ops"

section \<open>Sample environments\<close>

text \<open>
  An environment in which every collaborator succeeds: no lyrics, no duration in the
  metadata, every image and clip is produced. \<open>failing_scenes\<close> lists the indices of the
  scenes for which the render backend fails.
\<close>

definition sample_env :: "nat list \<Rightarrow> environment" where
  "sample_env failing_scenes =
     \<lparr>env_download = (Some ''song.mp3'', None, \<lparr>md_duration = NoDuration, md_title = None\<rparr>),
      env_lyrics_lines = [],
      env_generate_scene =
        (\<lambda>i scene. if i \<in> set failing_scenes then Inl ''No images generated''
                    else Inr (''scene_'' @ sd_scene_id scene @ ''.png'')),
      env_path_exists = (\<lambda>path. True),
      env_hash = (\<lambda>s. 0),
      env_create_scene_video = (\<lambda>i scene. Inr (''scene_'' @ ps_id scene @ ''.mp4'')),
      env_combine = (\<lambda>paths. (True, None)),
      env_add_audio = (True, None),
      env_output_path = ''video.mp4''\<rparr>"

text \<open>
  A process whose current directory is the root of a tree with two clips and the
  directories \<^verbatim>\<open>outputs\<close> and \<^verbatim>\<open>tmp\<close>. Path resolution drops empty and \<^verbatim>\<open>.\<close> components
  and steps back at \<^verbatim>\<open>..\<close>; the operating system raises no fault.
\<close>

definition sample_resolve :: "string \<Rightarrow> string" where
  "sample_resolve p =
     CHR ''/'' # join_with ''/''
       (rev (fold (\<lambda>c stack. if c = [] \<or> c = ''.'' then stack
                              else if c = ''..'' then tl stack
                              else c # stack)
               (split_on CHR ''/'' p) []))"

definition sample_files :: file_system where
  "sample_files =
     \<lparr>fs_resolve = sample_resolve,
      fs_entries = [(''/scene_0.mp4'', RegularFile 1), (''/scene_1.mp4'', RegularFile 2),
                    (''/outputs'', Directory), (''/tmp'', Directory)],
      fs_contents = (\<lambda>i. if i = 1 then ''clip 0'' else if i = 2 then ''clip 1'' else []),
      fs_fault = (\<lambda>call p. None)\<rparr>"

text \<open>An encoder that reports five seconds for every clip and writes the two contents,
  joined, to the output path.\<close>

definition sample_encoder :: encoder where
  "sample_encoder =
     \<lparr>enc_probe = (\<lambda>fs path. ProbeDuration 5),
      enc_run = (\<lambda>fs filter_complex video1 video2 output.
                   case (open_read fs video1, open_read fs video2) of
                     (Inr c1, Inr c2) \<Rightarrow>
                       (case open_write fs output (c1 @ ''+'' @ c2) of
                          Inr fs1 \<Rightarrow> (fs1, None)
                        | Inl e \<Rightarrow> (fs, Some (''FFmpeg error: '' @ output @ '': '' @ snd e)))
                   | _ \<Rightarrow> (fs, Some ''FFmpeg error: No such file or directory'')),
      enc_temp_dir = ''/tmp''\<rparr>"

text \<open>A template with a sampler node 1 and a save node 2, and the given links.\<close>

definition sample_workflow :: "link_entry list list \<Rightarrow> workflow" where
  "sample_workflow links =
     \<lparr>wf_nodes = Some
        [\<lparr>node_id = Some 1, node_type = Some ''KSampler'', node_order = Some 0,
          node_inputs = None, node_widgets = Some [JInt 7, JStr ''fixed'', JInt 20],
          node_rest = []\<rparr>,
         \<lparr>node_id = Some 2, node_type = Some ''SaveImage'', node_order = Some 1,
          node_inputs = None, node_widgets = Some [JStr ''output'', JStr ''image''],
          node_rest = []\<rparr>],
      wf_links = Some links, wf_rest = []\<rparr>"

text \<open>
  A backend on which the prompt is in an ambiguous state for ever: the status answer
  names no executing and no pending prompt and reports no error, and the history never
  contains the prompt. Requests take no time.
\<close>

definition ambiguous_backend :: backend where
  "ambiguous_backend =
     \<lparr>be_status = (\<lambda>t. Response 200 (Some \<lparr>sd_error = None, sd_executing = None, sd_pending = None\<rparr>)),
      be_history = (\<lambda>t. None),
      be_image = (\<lambda>filename subfolder. None),
      be_latency = 0\<rparr>"

text \<open>
  A store with four nodes (a sampler with seed 7, a text encoder in editor format, a
  save node, a latent-size node in API format) and the workflow made of them.
\<close>

definition sample_store :: store where
  "sample_store =
     [\<lparr>node_id = Some 3, node_type = Some ''KSampler'', node_order = Some 0,
       node_inputs = None, node_widgets = Some [JInt 7, JStr ''fixed'', JInt 20],
       node_rest = []\<rparr>,
      \<lparr>node_id = Some 6, node_type = Some ''CLIPTextEncode'', node_order = Some 1,
       node_inputs = Some (InputsList [[(''name'', JStr ''clip''), (''type'', JStr ''CLIP'')]]),
       node_widgets = Some [JStr ''a cat''], node_rest = []\<rparr>,
      \<lparr>node_id = Some 9, node_type = Some ''SaveImage'', node_order = Some 2,
       node_inputs = None, node_widgets = Some [JStr ''output'', JStr ''image''],
       node_rest = []\<rparr>,
      \<lparr>node_id = Some 12, node_type = Some ''EmptyLatentImage'', node_order = Some 3,
       node_inputs = Some (InputsDict [(''width'', JInt 512), (''height'', JInt 512)]),
       node_widgets = None, node_rest = []\<rparr>]"

definition sample_stored_workflow :: stored_workflow where
  "sample_stored_workflow = \<lparr>sw_nodes = Some [0, 1, 2, 3], sw_links = Some [], sw_rest = []\<rparr>"

text \<open>Updates with a matching key for three of the nodes, an unknown node id, an unknown
  parameter and two keys that do not split into two parts.\<close>

definition sample_updates :: "(string \<times> json) list" where
  "sample_updates =
     [(''6.text'', JStr ''a dog''), (''9.filename_prefix'', JStr ''scene_1''),
      (''12.width'', JInt 896), (''99.text'', JStr ''x''), (''6.nope'', JStr ''x''),
      (''malformed'', JStr ''x''), (''a.b.c'', JStr ''x'')]"

text \<open>The four nodes of the sample workflow after the sample updates.\<close>

definition sample_patched_nodes :: "node list" where
  "sample_patched_nodes =
     [\<lparr>node_id = Some 3, node_type = Some ''KSampler'', node_order = Some 0,
       node_inputs = None, node_widgets = Some [JInt 7, JStr ''fixed'', JInt 20],
       node_rest = []\<rparr>,
      \<lparr>node_id = Some 6, node_type = Some ''CLIPTextEncode'', node_order = Some 1,
       node_inputs = Some (InputsList [[(''name'', JStr ''clip''), (''type'', JStr ''CLIP'')]]),
       node_widgets = Some [JStr ''a dog''], node_rest = []\<rparr>,
      \<lparr>node_id = Some 9, node_type = Some ''SaveImage'', node_order = Some 2,
       node_inputs = None, node_widgets = Some [JStr ''output'', JStr ''scene_1''],
       node_rest = []\<rparr>,
      \<lparr>node_id = Some 12, node_type = Some ''EmptyLatentImage'', node_order = Some 3,
       node_inputs = Some (InputsDict [(''width'', JInt 896), (''height'', JInt 512)]),
       node_widgets = None, node_rest = []\<rparr>]"

section \<open>Auxiliary facts\<close>

lemma get_progress_mutate_job:
  "progress_data t jid = Some j \<Longrightarrow> get_progress (mutate_job t jid f) jid = Some (f j)"
  by (simp add: get_progress_def get_job_def mutate_job_def save_progress_def)

lemma get_progress_create_job:
  "get_progress (create_job t jid n_scenes title) jid = Some (initial_job jid n_scenes title)"
  by (simp add: get_progress_def get_job_def create_job_def save_progress_def)

lemma progress_data_mutate_job:
  "progress_data t jid = Some j \<Longrightarrow> progress_data (mutate_job t jid f) jid = Some (f j)"
  by (simp add: mutate_job_def save_progress_def)

lemma progress_data_apply_op:
  "progress_data t jid = Some j \<Longrightarrow> progress_data (apply_op jid op t) jid = Some (op_job jid op j)"
  by (cases op)
     (simp_all add: apply_op_def op_job_def progress_data_mutate_job create_job_def save_progress_def
        set_total_scenes_def update_stage_def get_job_def update_job_def update_scene_progress_def
        update_transition_progress_def update_audio_progress_def complete_job_def fail_job_def)

lemma progress_data_create:
  "progress_data (apply_op jid (CreateJob n title) t) jid = Some (initial_job jid n title)"
  by (simp add: apply_op_def create_job_def save_progress_def)

lemma get_progress_present:
  "progress_data t jid = Some j \<Longrightarrow> get_progress t jid = Some j"
  by (simp add: get_progress_def get_job_def)

lemma snapshots_present:
  "progress_data t jid = Some j \<Longrightarrow> snapshots jid t ops = map Some (job_trace jid j ops)"
proof (induction ops arbitrary: t j)
  case Nil
  then show ?case by (simp add: snapshots_def)
next
  case (Cons op ops)
  have p: "progress_data (apply_op jid op t) jid = Some (op_job jid op j)"
    using Cons.prems by (rule progress_data_apply_op)
  from Cons.IH [OF p] show ?case
    using p by (simp add: snapshots_def get_progress_present)
qed

lemma snapshots_create:
  "snapshots jid t (CreateJob n title # ops)
     = map Some (initial_job jid n title # job_trace jid (initial_job jid n title) ops)"
  using snapshots_present [OF progress_data_create, of jid n title t ops]
  by (simp add: snapshots_def get_progress_present progress_data_create)

lemma job_trace_append:
  "job_trace jid j (xs @ ys) = job_trace jid j xs @ job_trace jid (fold (op_job jid) xs j) ys"
  by (induction xs arbitrary: j) simp_all

lemma op_job_simps:
  "op_job jid (CreateJob n title) j = initial_job jid n title"
  "op_job jid (SetTotalScenes n) j = j\<lparr>total_scenes := n\<rparr>"
  "op_job jid (UpdateStage name description) j = update_stage_job name description j"
  "op_job jid (SetSceneDescriptions ds) j = j\<lparr>scene_descriptions := ds\<rparr>"
  "op_job jid (UpdateSceneProgress i sid) j = update_scene_progress_job i j"
  "op_job jid (UpdateTransitionProgress i n) j = update_transition_progress_job i n j"
  "op_job jid (UpdateAudioProgress p) j = update_audio_progress_job p j"
  "op_job jid (CompleteJob path) j = complete_job_job path j"
  "op_job jid (FailJob msg) j = fail_job_job msg j"
  by (simp_all add: op_job_def)

lemma percent_cancel: "(c::rat) * (x / y * 100) / 100 = c * (x / y)"
  by simp

lemma scene_progress_value:
  assumes "stage_name j = ''video_creation''" "total_scenes j = T" "1 \<le> T"
  shows "overall_progress (update_scene_progress_job (int k) j)
           = min 100 (50 + 25 * (of_nat (Suc k) / of_int T))"
proof -
  have "overall_progress (update_scene_progress_job (int k) j)
          = min 100 (50 + (75 - 50) * (of_int (int k + 1) / of_int (max 1 T) * 100) / 100)"
    using assms(1,2) by (simp add: update_scene_progress_job_def Let_def del: of_int_add of_int_of_nat_eq)
  also have "\<dots> = min 100 (50 + (75 - 50) * (of_int (int k + 1) / of_int (max 1 T)))"
    by (simp only: percent_cancel)
  also have "\<dots> = min 100 (50 + 25 * (of_nat (Suc k) / of_int T))"
    using assms(3) by (simp add: max_def add.commute)
  finally show ?thesis .
qed

lemma scene_progress_frame:
  "stage_name (update_scene_progress_job i j) = stage_name j"
  "total_scenes (update_scene_progress_job i j) = total_scenes j"
  "status (update_scene_progress_job i j) = status j"
  by (simp_all add: update_scene_progress_job_def Let_def)

lemma frac_mono:
  assumes "1 \<le> (T::int)" "int a \<le> int b"
  shows "(50::rat) + 25 * (of_nat a / of_int T) \<le> 50 + 25 * (of_nat b / of_int T)"
proof -
  have "(of_nat a :: rat) \<le> of_nat b" using assms(2) by simp
  moreover have "(0::rat) < of_int T" using assms(1) by simp
  ultimately have "(of_nat a :: rat) / of_int T \<le> of_nat b / of_int T"
    by (simp add: divide_right_mono)
  then show ?thesis by simp
qed

lemma frac_le_75:
  assumes "1 \<le> (T::int)" "int a \<le> T"
  shows "(50::rat) + 25 * (of_nat a / of_int T) \<le> 75"
proof -
  have "(of_nat a :: rat) \<le> of_int T" using assms(2)
    by (metis of_int_le_iff of_int_of_nat_eq)
  moreover have "(0::rat) < of_int T" using assms(1) by simp
  ultimately have "(of_nat a :: rat) / of_int T \<le> 1"
    by (simp add: divide_le_eq_1_pos)
  then show ?thesis by simp
qed

lemma scene_loop:
  assumes "stage_name j = ''video_creation''" "total_scenes j = T" "1 \<le> T"
    and "status j = ''running''"
    and "overall_progress j \<le> 50 + 25 * (of_nat k / of_int T)"
    and "int k + int (length ps) \<le> T"
  shows "stage_name (fold (op_job jid) (snd (create_scene_videos env (enumerate k ps))) j) = ''video_creation''
    \<and> total_scenes (fold (op_job jid) (snd (create_scene_videos env (enumerate k ps))) j) = T
    \<and> status (fold (op_job jid) (snd (create_scene_videos env (enumerate k ps))) j) = ''running''
    \<and> overall_progress (fold (op_job jid) (snd (create_scene_videos env (enumerate k ps))) j) \<le> 75
    \<and> sorted (map overall_progress (j # job_trace jid j (snd (create_scene_videos env (enumerate k ps)))))
    \<and> list_all (\<lambda>s. status s = ''running'') (job_trace jid j (snd (create_scene_videos env (enumerate k ps))))"
  using assms
proof (induction ps arbitrary: k j)
  case Nil
  have "overall_progress j \<le> 75"
    using Nil.prems frac_le_75 [of T k] by simp
  then show ?case using Nil.prems by simp
next
  case (Cons p ps)
  have step: "(50::rat) + 25 * (of_nat k / of_int T) \<le> 50 + 25 * (of_nat (Suc k) / of_int T)"
    using Cons.prems(3) by (intro frac_mono) simp_all
  show ?case
  proof (cases "env_create_scene_video env k p")
    case (Inl err)
    have b: "overall_progress j \<le> 50 + 25 * (of_nat (Suc k) / of_int T)"
      using Cons.prems(5) step by linarith
    have l: "int (Suc k) + int (length ps) \<le> T" using Cons.prems(6) by simp
    from Cons.IH [OF Cons.prems(1,2,3,4) b l] show ?thesis using Inl by simp
  next
    case (Inr out)
    let ?j1 = "update_scene_progress_job (int k) j"
    have le75: "(50::rat) + 25 * (of_nat (Suc k) / of_int T) \<le> 75"
      using Cons.prems(3,6) by (intro frac_le_75) simp_all
    have v: "overall_progress ?j1 = 50 + 25 * (of_nat (Suc k) / of_int T)"
      using scene_progress_value [OF Cons.prems(1,2,3), of k] le75 by simp
    have a1: "stage_name ?j1 = ''video_creation''" "total_scenes ?j1 = T" "status ?j1 = ''running''"
      using Cons.prems(1,2,4) by (simp_all add: scene_progress_frame)
    have b: "overall_progress ?j1 \<le> 50 + 25 * (of_nat (Suc k) / of_int T)" using v by simp
    have l: "int (Suc k) + int (length ps) \<le> T" using Cons.prems(6) by simp
    have up: "overall_progress j \<le> overall_progress ?j1"
      using Cons.prems(5) step v by linarith
    from Cons.IH [OF a1(1) a1(2) Cons.prems(3) a1(3) b l] up a1(3)
    show ?thesis using Inr by (fastforce simp add: op_job_simps)
  qed
qed

lemma sorted_trace_append:
  assumes "sorted (map overall_progress (j # job_trace jid j xs))"
    and "sorted (map overall_progress
           (fold (op_job jid) xs j # job_trace jid (fold (op_job jid) xs j) ys))"
  shows "sorted (map overall_progress (j # job_trace jid j (xs @ ys)))"
  using assms
proof (induction xs arbitrary: j)
  case Nil
  then show ?case by simp
next
  case (Cons x xs)
  from Cons.prems(1) have a: "overall_progress j \<le> overall_progress (op_job jid x j)"
    and b: "sorted (map overall_progress (op_job jid x j # job_trace jid (op_job jid x j) xs))"
    by simp_all
  from Cons.prems(2) have c: "sorted (map overall_progress
           (fold (op_job jid) xs (op_job jid x j)
              # job_trace jid (fold (op_job jid) xs (op_job jid x j)) ys))"
    by simp
  from Cons.IH [OF b c] a show ?case
    by fastforce
qed

lemma transition_value_bounds:
  assumes "0 \<le> n + 1"
  shows "75 \<le> overall_progress (update_transition_progress_job n n j)"
    and "overall_progress (update_transition_progress_job n n j) \<le> 100"
proof -
  have e: "overall_progress (update_transition_progress_job n n j)
          = min 100 (75 + (90 - 75) * (of_int (n + 1) / of_int (max 1 n) * 100) / 100)"
    by (simp add: update_transition_progress_job_def Let_def del: of_int_add)
  have "(0::rat) \<le> of_int (n + 1) / of_int (max 1 n)"
    using assms by (intro divide_nonneg_pos) simp_all
  then have "(0::rat) \<le> (90 - 75) * (of_int (n + 1) / of_int (max 1 n))"
    by (intro mult_nonneg_nonneg) simp_all
  then show "75 \<le> overall_progress (update_transition_progress_job n n j)"
    unfolding e percent_cancel by simp
  show "overall_progress (update_transition_progress_job n n j) \<le> 100"
    unfolding e by simp
qed

lemma transition_frame:
  "status (update_transition_progress_job i n j) = status j"
  by (simp add: update_transition_progress_job_def Let_def)

lemma render_video_ok:
  assumes "stage_name j = ''video_creation''" "total_scenes j = T" "1 \<le> T"
    and "status j = ''running''"
    and "overall_progress j \<le> 50"
    and "int (length ps) \<le> T"
  shows "sorted (map overall_progress (j # job_trace jid j (render_video env ps)))
    \<and> list_all (\<lambda>s. status s = ''completed'' \<longrightarrow> overall_progress s = 100)
         (job_trace jid j (render_video env ps))"
proof -
  let ?made = "create_scene_videos env (enumerate 0 ps)"
  let ?j' = "fold (op_job jid) (snd ?made) j"
  have b: "overall_progress j \<le> 50 + 25 * (of_nat 0 / of_int T)" using assms(5) by simp
  have l: "int 0 + int (length ps) \<le> T" using assms(6) by simp
  note loop = scene_loop [OF assms(1,2,3,4) b l, of jid env]
  have run1: "list_all (\<lambda>s. status s = ''completed'' \<longrightarrow> overall_progress s = 100)
                (job_trace jid j (snd ?made))"
    using loop by (simp add: list_all_iff)
  obtain rest where rest: "render_video env ps = snd ?made @ rest"
    and tail: "sorted (map overall_progress (?j' # job_trace jid ?j' rest))
       \<and> list_all (\<lambda>s. status s = ''completed'' \<longrightarrow> overall_progress s = 100)
            (job_trace jid ?j' rest)"
  proof (cases "fst ?made = []")
    case True
    show ?thesis
      by (rule that [of "[FailJob ''Failed to create any scene videos'']"])
         (use True in \<open>simp_all add: render_video_def Let_def op_job_simps fail_job_job_def\<close>)
  next
    case False
    let ?n = "int (length (fst ?made)) - 1"
    let ?j2 = "update_transition_progress_job ?n ?n ?j'"
    have n0: "0 \<le> ?n + 1" by simp
    note tv = transition_value_bounds [OF n0, of ?j']
    have up: "overall_progress ?j' \<le> overall_progress ?j2" using loop tv(1) by linarith
    have st2: "status ?j2 = ''running''" using loop by (simp add: transition_frame)
    obtain ok1 e1 where c: "env_combine env (fst ?made) = (ok1, e1)" by (cases "env_combine env (fst ?made)")
    obtain ok2 e2 where a: "env_add_audio env = (ok2, e2)" by (cases "env_add_audio env")
    show ?thesis
    proof (cases ok1)
      case False
      show ?thesis
        by (rule that [of "[FailJob (''Error combining scenes: '' @ str_opt e1)]"])
           (use \<open>fst ?made \<noteq> []\<close> False c in
             \<open>simp_all add: render_video_def Let_def op_job_simps fail_job_job_def\<close>)
    next
      case True
      note ok1 = True
      show ?thesis
      proof (cases ok2)
        case False
        show ?thesis
          by (rule that [of "[UpdateTransitionProgress ?n ?n,
                               FailJob (''Error adding audio: '' @ str_opt e2)]"])
             (use \<open>fst ?made \<noteq> []\<close> ok1 False c a up st2 in
               \<open>simp_all add: render_video_def Let_def op_job_simps fail_job_job_def\<close>)
      next
        case True
        show ?thesis
          by (rule that [of "[UpdateTransitionProgress ?n ?n, UpdateAudioProgress 100,
                               CompleteJob (env_output_path env)]"])
             (use \<open>fst ?made \<noteq> []\<close> ok1 True c a up st2 tv(2) in
               \<open>simp_all add: render_video_def Let_def op_job_simps
                   update_audio_progress_job_def complete_job_job_def\<close>)
      qed
    qed
  qed
  have s1: "sorted (map overall_progress (j # job_trace jid j (snd ?made)))" using loop by simp
  have "sorted (map overall_progress (j # job_trace jid j (snd ?made @ rest)))"
    using sorted_trace_append [OF s1] tail by blast
  moreover have "list_all (\<lambda>s. status s = ''completed'' \<longrightarrow> overall_progress s = 100)
         (job_trace jid j (snd ?made @ rest))"
    using run1 tail by (simp add: job_trace_append)
  ultimately show ?thesis by (simp only: rest)
qed

lemma determine_scene_count_pos:
  assumes "\<forall>n. scene_count = Some n \<longrightarrow> 1 \<le> n"
  shows "1 \<le> determine_scene_count scene_count d ls"
proof (cases scene_count)
  case None
  then show ?thesis
    by (cases d; cases ls) (simp_all add: determine_scene_count_def)
next
  case (Some n)
  then show ?thesis using assms by (simp add: determine_scene_count_def)
qed

lemma length_py_take: "0 \<le> n \<Longrightarrow> length (py_take n xs) \<le> nat n"
  by (simp add: py_take_def)

lemma plan_length:
  assumes "plan_scene_descriptions ls T style has_d = Inr descs" "0 \<le> T"
  shows "length descs = nat T"
proof -
  have "length (py_take T (map (join_with '' '') (chunks (nat (max 1 (int (length ls) div T))) ls))) \<le> nat T"
    using assms(2) by (rule length_py_take)
  then show ?thesis
    using assms(1)
    by (auto simp add: plan_scene_descriptions_def Let_def split: if_splits)
qed

lemma batch_length:
  "batch_generate_scenes gen descs = Inr rs \<Longrightarrow> length rs = length descs"
  by (auto simp add: batch_generate_scenes_def split: if_splits)

lemma length_adjust_durations: "length (adjust_durations d ps) = length ps"
  by (cases d) (simp_all add: adjust_durations_def)

lemma length_map_filter_le: "length (List.map_filter f xs) \<le> length xs"
  by (induction xs) (simp_all split: option.splits)

lemma processed_length:
  "length (adjust_durations d (List.map_filter f (filter P rs))) \<le> length rs"
proof -
  have "length (List.map_filter f (filter P rs)) \<le> length (filter P rs)"
    by (rule length_map_filter_le)
  also have "\<dots> \<le> length rs" by simp
  finally show ?thesis by (simp add: length_adjust_durations)
qed

lemma worker_trace_ok:
  assumes "\<forall>n. scene_count = Some n \<longrightarrow> 1 \<le> n"
  shows "sorted (map overall_progress
           (initial_job jid 0 title
              # job_trace jid (initial_job jid 0 title)
                  (UpdateStage ''download'' ''Downloading audio from URL'' # worker env scene_count style)))
    \<and> list_all (\<lambda>s. status s = ''completed'' \<longrightarrow> overall_progress s = 100)
         (initial_job jid 0 title
              # job_trace jid (initial_job jid 0 title)
                  (UpdateStage ''download'' ''Downloading audio from URL'' # worker env scene_count style))"
proof -
  obtain fp err md where d: "env_download env = (fp, err, md)"
    by (cases "env_download env")
  define T where "T = determine_scene_count scene_count (md_duration md) (env_lyrics_lines env)"
  have T1: "1 \<le> T" unfolding T_def using assms by (rule determine_scene_count_pos)
  note ev = op_job_simps update_stage_job_def stage_weights_def fail_job_job_def initial_job_def
  show ?thesis
  proof (cases "truthy err")
    case True
    then show ?thesis by (simp add: worker_def d ev)
  next
    case False
    note dl = False
    show ?thesis
    proof (cases "plan_scene_descriptions (env_lyrics_lines env) T style (md_duration md \<noteq> NoDuration)")
      case (Inl e)
      then show ?thesis using dl by (simp add: worker_def d ev T_def [symmetric] Let_def)
    next
      case (Inr descs)
      note plan = Inr
      have ld: "length descs = nat T" using plan_length [OF plan] T1 by simp
      show ?thesis
      proof (cases "batch_generate_scenes (env_generate_scene env) descs")
        case (Inl e)
        then show ?thesis using dl plan by (simp add: worker_def d ev T_def [symmetric] Let_def)
      next
        case (Inr rs)
        note batch = Inr
        have lr: "length rs = nat T" using batch_length [OF batch] ld by simp
        show ?thesis
        proof (cases "length (filter sr_success rs) < 2")
          case True
          then show ?thesis using dl plan batch
            by (simp add: worker_def d ev T_def [symmetric] Let_def after_scene_generation_def)
        next
          case False
          let ?ps = "adjust_durations (md_duration md)
                       (List.map_filter (prepare_scene env) (filter sr_success rs))"
          let ?prefix = "[UpdateStage ''download'' ''Downloading audio from URL'',
                          UpdateStage ''lyrics'' ''Extracting lyrics from audio'',
                          SetTotalScenes T,
                          UpdateStage ''scene_planning'' ''Creating scene descriptions from lyrics'',
                          SetSceneDescriptions descs,
                          UpdateStage ''scene_generation'' ''Generating scene images'',
                          UpdateStage ''video_creation'' ''Creating video from scenes and audio'']"
          let ?j0 = "initial_job jid 0 title"
          let ?j8 = "fold (op_job jid) (UpdateStage ''download'' ''Downloading audio from URL'' # ?prefix) ?j0"
          have w: "UpdateStage ''download'' ''Downloading audio from URL'' # worker env scene_count style
                     = (UpdateStage ''download'' ''Downloading audio from URL'' # ?prefix) @ render_video env ?ps"
            using dl plan batch False
            by (simp add: worker_def d T_def [symmetric] Let_def after_scene_generation_def)
          have lp: "int (length ?ps) \<le> T"
            using processed_length [of "md_duration md" "prepare_scene env" sr_success rs] lr T1 by linarith
          have f: "stage_name ?j8 = ''video_creation''" "total_scenes ?j8 = T"
            "status ?j8 = ''running''" "overall_progress ?j8 \<le> 50"
            by (simp_all add: ev)
          note rv = render_video_ok [OF f(1) f(2) T1 f(3) f(4) lp, of jid env]
          have pre: "sorted (map overall_progress (?j0 # job_trace jid ?j0
                       (UpdateStage ''download'' ''Downloading audio from URL'' # ?prefix)))"
            by (simp add: ev)
          have pre2: "list_all (\<lambda>s. status s = ''completed'' \<longrightarrow> overall_progress s = 100)
                       (?j0 # job_trace jid ?j0
                          (UpdateStage ''download'' ''Downloading audio from URL'' # ?prefix))"
            by (simp add: ev)
          have "sorted (map overall_progress (?j0 # job_trace jid ?j0
                  ((UpdateStage ''download'' ''Downloading audio from URL'' # ?prefix) @ render_video env ?ps)))"
            using sorted_trace_append [OF pre] rv by blast
          moreover have "list_all (\<lambda>s. status s = ''completed'' \<longrightarrow> overall_progress s = 100)
                  (?j0 # job_trace jid ?j0
                  ((UpdateStage ''download'' ''Downloading audio from URL'' # ?prefix) @ render_video env ?ps))"
            using pre2 rv unfolding job_trace_append by simp
          ultimately show ?thesis unfolding w by blast
        qed
      qed
    qed
  qed
qed

lemma scene_fraction_bounds:
  assumes "0 \<le> i + 1" "i + 1 \<le> n"
  shows "(0::rat) \<le> of_int (i + 1) / of_int (max 1 n)" "(of_int (i + 1) :: rat) / of_int (max 1 n) \<le> 1"
proof -
  have p: "(0::rat) < of_int (max 1 n)" by simp
  have "(0::rat) \<le> of_int (i + 1)" using assms(1) by simp
  then show "(0::rat) \<le> of_int (i + 1) / of_int (max 1 n)"
    using p by (intro divide_nonneg_pos)
  have "i + 1 \<le> max 1 n" using assms(2) by simp
  then have "(of_int (i + 1) :: rat) \<le> of_int (max 1 n)" by (simp only: of_int_le_iff)
  then show "(of_int (i + 1) :: rat) / of_int (max 1 n) \<le> 1"
    using p by (simp only: divide_le_eq_1_pos)
qed

lemma plan_total:
  assumes "1 \<le> n"
  shows "\<exists>descs. plan_scene_descriptions ls n style has_d = Inr descs"
  using assms by (simp add: plan_scene_descriptions_def Let_def)

lemma batch_total:
  assumes "descs \<noteq> []"
  shows "batch_generate_scenes gen descs
           = Inr (map (\<lambda>(i, scene). scene_result_of scene (gen i scene)) (enumerate 0 descs))"
  using assms by (simp add: batch_generate_scenes_def)

lemma sr_success_scene_result_of: "sr_success (scene_result_of scene outcome) = (\<not> isl outcome)"
  by (cases outcome) (simp_all add: scene_result_of_def)

lemma map_ps_id_adjust_durations: "map ps_id (adjust_durations d ps) = map ps_id ps"
  by (cases d) (simp_all add: adjust_durations_def comp_def)

lemma prepare_all_present:
  assumes "list_all (\<lambda>r. case sr_image_path r of None \<Rightarrow> False
                          | Some p \<Rightarrow> p \<noteq> [] \<and> env_path_exists env p) rs"
  shows "map ps_id (List.map_filter (prepare_scene env) rs) = map sr_scene_id rs"
  using assms
  by (induction rs) (auto simp add: prepare_scene_def split: option.splits)







text \<open>A link with seven entries passes the length guard and then fails to unpack: the
  whole fix fails and nothing is written.\<close>

lemma long_link_is_fatal:
  "fix_workflow
     (sample_workflow [[LInt 1, LInt 1, LInt 0, LInt 2, LInt 0, LStr ''IMAGE'', LNull]])
     ''fixed.json''
   = ([''Error fixing workflow file: too many values to unpack (expected 6)''], None)"
  by code_simp

text \<open>An empty link in a template without node 25 fails the search for link 53: the
  whole fix fails and nothing is written.\<close>

lemma empty_link_is_fatal:
  "fix_workflow (sample_workflow [[]]) ''fixed.json''
   = ([''Error fixing workflow file: list index out of range''], None)"
  by code_simp

lemma ambiguous_pass:
  assumes "\<forall>t. \<exists>st. be_status be t = Response 200 (Some st) \<and> sd_error st = None
             \<and> sd_executing st \<noteq> Some prompt_id \<and> sd_pending st \<noteq> Some prompt_id"
    and "\<forall>t. be_history be t = None"
    and "0 < check_interval"
  shows "poll_pass be prompt_id check_interval now
           = Again (now + 3 * (be_latency be + check_interval))
               [GetStatus, GetHistory, Sleep (check_interval * 2), GetHistory,
                LogWarning (silent_failure_warning prompt_id), Sleep check_interval]"
proof -
  obtain st where st: "be_status be now = Response 200 (Some st)" "sd_error st = None"
    "sd_executing st \<noteq> Some prompt_id" "sd_pending st \<noteq> Some prompt_id"
    using assms(1) by blast
  have h: "\<And>t. be_history be t = None" using assms(2) by simp
  have n: "\<not> check_interval < 0" "\<not> check_interval * 2 < 0" using assms(3) by simp_all
  show ?thesis
    using st n
    by (simp add: poll_pass_def Let_def h get_prompt_outputs_def closing_sleep_def algebra_simps)
qed

lemma ambiguous_loop:
  assumes "\<forall>t. \<exists>st. be_status be t = Response 200 (Some st) \<and> sd_error st = None
             \<and> sd_executing st \<noteq> Some prompt_id \<and> sd_pending st \<noteq> Some prompt_id"
    and "\<forall>t. be_history be t = None"
    and "0 \<le> be_latency be" and "0 < check_interval"
    and "m \<le> nat \<lceil>timeout / (3 * (be_latency be + check_interval))\<rceil>"
  shows "wait_loop be prompt_id start timeout check_interval
           (start + of_nat m * (3 * (be_latency be + check_interval))) events
         = Some (Failed ''Timeout waiting for prompt to complete'',
                 events
                 @ concat (replicate (nat \<lceil>timeout / (3 * (be_latency be + check_interval))\<rceil> - m)
                     [GetStatus, GetHistory, Sleep (check_interval * 2), GetHistory,
                      LogWarning (silent_failure_warning prompt_id), Sleep check_interval])
                 @ [LogError (''Timeout waiting for prompt '' @ prompt_id)])"
  using assms(5)
proof (induction "nat \<lceil>timeout / (3 * (be_latency be + check_interval))\<rceil> - m" arbitrary: m events)
  case 0
  define step where "step = 3 * (be_latency be + check_interval)"
  have sp: "0 < step" using assms(3,4) by (simp add: step_def)
  from 0 have "nat \<lceil>timeout / step\<rceil> \<le> m" by (simp add: step_def)
  then have "\<lceil>timeout / step\<rceil> \<le> int m" by simp
  then have "timeout / step \<le> of_int (int m)" by (simp only: ceiling_le_iff)
  then have "timeout \<le> of_nat m * step" using sp by (simp add: pos_divide_le_eq)
  then have exit: "\<not> (start + of_nat m * step) - start < timeout" by simp
  have z: "nat \<lceil>timeout / step\<rceil> - m = 0" using 0 by (simp add: step_def)
  show ?case
    unfolding step_def [symmetric] z
    by (subst wait_loop.simps) (use exit in simp)
next
  case (Suc k)
  define step where "step = 3 * (be_latency be + check_interval)"
  have sp: "0 < step" using assms(3,4) by (simp add: step_def)
  from Suc(2) have lt: "m < nat \<lceil>timeout / step\<rceil>" by (simp add: step_def)
  then have "int m < \<lceil>timeout / step\<rceil>" by simp
  then have "of_int (int m) < timeout / step" by (simp only: less_ceiling_iff)
  then have "of_nat m * step < timeout" using sp by (simp add: pos_less_divide_eq)
  then have enter: "(start + of_nat m * step) - start < timeout" by simp
  have k: "k = nat \<lceil>timeout / step\<rceil> - Suc m" using Suc(2) by (simp add: step_def)
  have le: "Suc m \<le> nat \<lceil>timeout / step\<rceil>" using lt by simp
  have next_time: "start + of_nat m * step + step = start + of_nat (Suc m) * step"
    by (simp add: algebra_simps)
  have rep: "nat \<lceil>timeout / step\<rceil> - m = Suc (nat \<lceil>timeout / step\<rceil> - Suc m)"
    using lt by simp
  note IH = Suc(1) [OF k [unfolded step_def] le [unfolded step_def], folded step_def]
  show ?case
    unfolding step_def [symmetric]
    apply (subst wait_loop.simps)
    apply (simp only: enter if_True ambiguous_pass [OF assms(1,2,4), folded step_def] pass.case next_time IH rep)
    apply simp
    done
qed

lemma deepcopy_nodes_extends:
  assumes "deepcopy_nodes h memo refs = (h1, memo1, refs1)"
  shows "\<exists>cs. h1 = h @ cs"
  using assms
proof (induction refs arbitrary: h memo h1 memo1 refs1)
  case Nil
  then show ?case by simp
next
  case (Cons a as)
  show ?case
  proof (cases "map_of memo a")
    case (Some a')
    obtain h2 memo2 bs where r: "deepcopy_nodes h memo as = (h2, memo2, bs)"
      by (cases "deepcopy_nodes h memo as")
    with Cons.prems Some have "h1 = h2" by simp
    with Cons.IH [OF r] show ?thesis by simp
  next
    case None
    show ?thesis
    proof (cases "a < length h")
      case True
      obtain h2 memo2 bs where r: "deepcopy_nodes (h @ [h ! a]) ((a, length h) # memo) as = (h2, memo2, bs)"
        by (cases "deepcopy_nodes (h @ [h ! a]) ((a, length h) # memo) as")
      with Cons.prems None True have "h1 = h2" by simp
      with Cons.IH [OF r] show ?thesis by auto
    next
      case False
      obtain h2 memo2 bs where r: "deepcopy_nodes h memo as = (h2, memo2, bs)"
        by (cases "deepcopy_nodes h memo as")
      with Cons.prems None False have "h1 = h2" by simp
      with Cons.IH [OF r] show ?thesis by simp
    qed
  qed
qed

lemma deepcopy_nodes_fresh:
  assumes "deepcopy_nodes h memo refs = (h1, memo1, refs1)"
    and "list_all (\<lambda>p. n \<le> snd p) memo" and "n \<le> length h"
  shows "list_all (\<lambda>a. n \<le> a) refs1"
  using assms
proof (induction refs arbitrary: h memo h1 memo1 refs1)
  case Nil
  then show ?case by simp
next
  case (Cons a as)
  show ?case
  proof (cases "map_of memo a")
    case (Some a')
    obtain h2 memo2 bs where r: "deepcopy_nodes h memo as = (h2, memo2, bs)"
      by (cases "deepcopy_nodes h memo as")
    with Cons.prems Some have e: "refs1 = a' # bs" by simp
    have "(a, a') \<in> set memo" using Some by (rule map_of_SomeD)
    then have "n \<le> a'" using Cons.prems(2) by (auto simp add: list_all_iff)
    with Cons.IH [OF r Cons.prems(2,3)] e show ?thesis by simp
  next
    case None
    show ?thesis
    proof (cases "a < length h")
      case True
      obtain h2 memo2 bs where r: "deepcopy_nodes (h @ [h ! a]) ((a, length h) # memo) as = (h2, memo2, bs)"
        by (cases "deepcopy_nodes (h @ [h ! a]) ((a, length h) # memo) as")
      with Cons.prems None True have e: "refs1 = length h # bs" by simp
      have m: "list_all (\<lambda>p. n \<le> snd p) ((a, length h) # memo)"
        using Cons.prems(2,3) by simp
      have l: "n \<le> length (h @ [h ! a])" using Cons.prems(3) by simp
      from Cons.IH [OF r m l] e Cons.prems(3) show ?thesis by simp
    next
      case False
      obtain h2 memo2 bs where r: "deepcopy_nodes h memo as = (h2, memo2, bs)"
        by (cases "deepcopy_nodes h memo as")
      with Cons.prems None False have e: "refs1 = a # bs" by simp
      from Cons.IH [OF r Cons.prems(2,3)] e False Cons.prems(3) show ?thesis by simp
    qed
  qed
qed

lemma deepcopy_nodes_copies:
  assumes "deepcopy_nodes h memo refs = (h1, memo1, refs1)"
    and "list_all (\<lambda>a. a < length h) refs"
    and "list_all (\<lambda>p. fst p < length h \<and> snd p < length h \<and> h ! snd p = h ! fst p) memo"
  shows "list_all (\<lambda>a. a < length h1) refs1 \<and> map (\<lambda>a. h1 ! a) refs1 = map (\<lambda>a. h ! a) refs"
  using assms
proof (induction refs arbitrary: h memo h1 memo1 refs1)
  case Nil
  then show ?case by simp
next
  case (Cons a as)
  from Cons.prems(2) have va: "a < length h" and vas: "list_all (\<lambda>a. a < length h) as" by simp_all
  show ?case
  proof (cases "map_of memo a")
    case (Some a')
    obtain h2 memo2 bs where r: "deepcopy_nodes h memo as = (h2, memo2, bs)"
      by (cases "deepcopy_nodes h memo as")
    with Cons.prems Some have e: "refs1 = a' # bs" "h1 = h2" by simp_all
    have "(a, a') \<in> set memo" using Some by (rule map_of_SomeD)
    then have m: "a' < length h" "h ! a' = h ! a" using Cons.prems(3) by (auto simp add: list_all_iff)
    obtain cs where cs: "h2 = h @ cs" using deepcopy_nodes_extends [OF r] by blast
    have "a' < length h2" "h2 ! a' = h ! a" using m cs by (simp_all add: nth_append)
    with Cons.IH [OF r vas Cons.prems(3)] e show ?thesis by simp
  next
    case None
    let ?h = "h @ [h ! a]"
    obtain h2 memo2 bs where r: "deepcopy_nodes ?h ((a, length h) # memo) as = (h2, memo2, bs)"
      by (cases "deepcopy_nodes ?h ((a, length h) # memo) as")
    with Cons.prems None va have e: "refs1 = length h # bs" "h1 = h2" by simp_all
    have vas': "list_all (\<lambda>a. a < length ?h) as" using vas by (auto simp add: list_all_iff)
    have m': "list_all (\<lambda>p. fst p < length ?h \<and> snd p < length ?h \<and> ?h ! snd p = ?h ! fst p)
                ((a, length h) # memo)"
      using Cons.prems(3) va by (auto simp add: list_all_iff nth_append)
    obtain cs where cs: "h2 = ?h @ cs" using deepcopy_nodes_extends [OF r] by blast
    have new: "length h < length h2" "h2 ! length h = h ! a" using cs by (simp_all add: nth_append)
    have same: "map (\<lambda>a. ?h ! a) as = map (\<lambda>a. h ! a) as"
      using vas by (auto simp add: list_all_iff nth_append)
    from Cons.IH [OF r vas' m'] e new same show ?thesis by simp
  qed
qed

lemma take_list_update_beyond: "n \<le> a \<Longrightarrow> take n (h[a := x]) = take n h"
  by (simp add: take_update_cancel)

lemma find_node_in_refs: "find_node h s refs = Some a \<Longrightarrow> a \<in> set refs"
  by (induction refs) (auto split: if_splits)

lemma apply_update_frame:
  assumes "list_all (\<lambda>a. n \<le> a) refs"
  shows "take n (apply_update refs kv h) = take n h \<and> length (apply_update refs kv h) = length h"
proof -
  have "take n (h[a := x]) = take n h" if "find_node h s refs = Some a" for s a x
  proof -
    have "a \<in> set refs" using that by (rule find_node_in_refs)
    then have "n \<le> a" using assms by (simp add: list_all_iff)
    then show ?thesis by (rule take_list_update_beyond)
  qed
  then show ?thesis
    by (simp add: apply_update_def split: list.splits option.splits)
qed

lemma fold_apply_update_frame:
  assumes "list_all (\<lambda>a. n \<le> a) refs"
  shows "take n (fold (apply_update refs) updates h) = take n h
       \<and> length (fold (apply_update refs) updates h) = length h"
proof (induction updates arbitrary: h)
  case Nil
  show ?case by simp
next
  case (Cons kv updates)
  from Cons [of "apply_update refs kv h"] apply_update_frame [OF assms, of kv h]
  show ?case by simp
qed

lemma update_workflow_shape:
  "\<exists>h1 refs1.
      deepcopy_workflow h w = (h1, w\<lparr>sw_nodes := map_option (\<lambda>_. refs1) (sw_nodes w)\<rparr>)
    \<and> (\<exists>cs. h1 = h @ cs)
    \<and> list_all (\<lambda>a. length h \<le> a) (nodes_of (w\<lparr>sw_nodes := map_option (\<lambda>_. refs1) (sw_nodes w)\<rparr>))
    \<and> (list_all (\<lambda>a. a < length h) (nodes_of w) \<longrightarrow>
           list_all (\<lambda>a. a < length h1) (nodes_of (w\<lparr>sw_nodes := map_option (\<lambda>_. refs1) (sw_nodes w)\<rparr>))
           \<and> map (\<lambda>a. h1 ! a) (nodes_of (w\<lparr>sw_nodes := map_option (\<lambda>_. refs1) (sw_nodes w)\<rparr>))
               = map (\<lambda>a. h ! a) (nodes_of w))"
proof (cases "sw_nodes w")
  case None
  show ?thesis
    by (rule exI [of _ h], rule exI [of _ "[]"])
       (simp add: deepcopy_workflow_def None nodes_of_def)
next
  case (Some refs)
  obtain h1 memo1 refs1 where d: "deepcopy_nodes h [] refs = (h1, memo1, refs1)"
    by (cases "deepcopy_nodes h [] refs")
  have a: "\<exists>cs. h1 = h @ cs" using d by (rule deepcopy_nodes_extends)
  have b: "list_all (\<lambda>a. length h \<le> a) refs1"
    using deepcopy_nodes_fresh [OF d, of "length h"] by simp
  have c: "list_all (\<lambda>a. a < length h1) refs1 \<and> map (\<lambda>a. h1 ! a) refs1 = map (\<lambda>a. h ! a) refs"
    if "list_all (\<lambda>a. a < length h) refs"
    using deepcopy_nodes_copies [OF d that] by simp
  show ?thesis
    by (rule exI [of _ h1], rule exI [of _ refs1])
       (use a b c d in \<open>simp add: deepcopy_workflow_def Some nodes_of_def\<close>)
qed

lemma deepcopy_nodes_distinct:
  assumes "distinct refs" and "list_all (\<lambda>a. a < length h) refs"
    and "set refs \<inter> fst ` set memo = {}"
  shows "\<exists>memo1. deepcopy_nodes h memo refs
           = (h @ map (\<lambda>a. h ! a) refs, memo1, [length h ..< length h + length refs])"
  using assms
proof (induction refs arbitrary: h memo)
  case Nil
  then show ?case by simp
next
  case (Cons a as)
  from Cons.prems have va: "a < length h" and vas: "list_all (\<lambda>a. a < length h) as"
    and na: "a \<notin> set as" and das: "distinct as" by simp_all
  have "a \<notin> fst ` set memo" using Cons.prems(3) by auto
  then have none: "map_of memo a = None" by (simp add: map_of_eq_None_iff)
  let ?h = "h @ [h ! a]"
  have vas': "list_all (\<lambda>a. a < length ?h) as" using vas by (auto simp add: list_all_iff)
  have dis': "set as \<inter> fst ` set ((a, length h) # memo) = {}"
    using Cons.prems(3) na by auto
  obtain memo1 where r: "deepcopy_nodes ?h ((a, length h) # memo) as
           = (?h @ map (\<lambda>a. ?h ! a) as, memo1, [length ?h ..< length ?h + length as])"
    using Cons.IH [OF das vas' dis'] by blast
  have same: "map (\<lambda>a. ?h ! a) as = map (\<lambda>a. h ! a) as"
    using vas by (auto simp add: list_all_iff nth_append)
  have upt: "[length h ..< Suc (length h + length as)]
               = length h # [Suc (length h) ..< Suc (length h + length as)]"
    by (rule upt_conv_Cons) simp
  show ?case
    using r none va same upt by (intro exI [of _ memo1]) (simp del: upt_Suc)
qed

lemma node_type_patch_node: "node_type (patch_node n param v) = node_type n"
  by (simp add: patch_node_def special_widget_def
        split: option.splits node_inputs.splits sum.splits)

lemma apply_update_types:
  "map node_type (apply_update refs kv h) = map node_type h"
proof -
  have "map node_type (h[a := patch_node (h ! a) p v]) = map node_type h" for a p v
  proof (rule nth_equalityI)
    show "length (map node_type (h[a := patch_node (h ! a) p v])) = length (map node_type h)"
      by simp
  next
    fix i
    assume "i < length (map node_type (h[a := patch_node (h ! a) p v]))"
    then have i: "i < length h" by simp
    show "map node_type (h[a := patch_node (h ! a) p v]) ! i = map node_type h ! i"
      using i by (cases "i = a") (simp_all add: node_type_patch_node)
  qed
  then show ?thesis
    by (simp add: apply_update_def split: list.splits option.splits)
qed

lemma fold_apply_update_types:
  "map node_type (fold (apply_update refs) updates h) = map node_type h"
  by (induction updates arbitrary: h) (simp_all add: apply_update_types)

lemma node_type_set_seed: "node_type (set_seed s n) = node_type n"
  by (simp add: set_seed_def)

lemma randomize_seeds_distinct:
  assumes "distinct refs" and "list_all (\<lambda>a. a < length h \<and> node_type (h ! a) \<noteq> None) refs"
  shows "\<exists>h2. randomize_seeds draws k refs h = Inr h2 \<and> length h2 = length h
     \<and> map (\<lambda>a. h2 ! a) refs = map (\<lambda>(i, a). set_seed (draws i) (h ! a)) (enumerate k refs)
     \<and> (\<forall>b. b \<notin> set refs \<longrightarrow> h2 ! b = h ! b)"
  using assms
proof (induction refs arbitrary: h k)
  case Nil
  then show ?case by simp
next
  case (Cons a as)
  from Cons.prems have va: "a < length h" and ta: "node_type (h ! a) \<noteq> None"
    and na: "a \<notin> set as" and das: "distinct as"
    and vas: "list_all (\<lambda>a. a < length h \<and> node_type (h ! a) \<noteq> None) as" by simp_all
  let ?h = "h[a := set_seed (draws k) (h ! a)]"
  have neq: "?h ! b = h ! b" if "b \<in> set as" for b
    using that na by (intro nth_list_update_neq) auto
  have vas': "list_all (\<lambda>b. b < length ?h \<and> node_type (?h ! b) \<noteq> None) as"
    using vas neq by (simp add: list_all_iff)
  obtain h2 where r: "randomize_seeds draws (Suc k) as ?h = Inr h2" and l: "length h2 = length ?h"
    and m: "map (\<lambda>a. h2 ! a) as = map (\<lambda>(i, a). set_seed (draws i) (?h ! a)) (enumerate (Suc k) as)"
    and o: "\<forall>b. b \<notin> set as \<longrightarrow> h2 ! b = ?h ! b"
    using Cons.IH [OF das vas', of "Suc k"] by blast
  have ha: "h2 ! a = set_seed (draws k) (h ! a)" using o na va by simp
  have m': "map (\<lambda>(i, a). set_seed (draws i) (?h ! a)) (enumerate (Suc k) as)
              = map (\<lambda>(i, a). set_seed (draws i) (h ! a)) (enumerate (Suc k) as)"
    using neq by (auto simp add: in_set_enumerate_eq)
  have o': "\<forall>b. b \<notin> set (a # as) \<longrightarrow> h2 ! b = h ! b" using o by simp
  show ?case
    using r l m m' ha o' va ta by (intro exI [of _ h2]) simp
qed

lemma set_seed_eq_iff: "(set_seed s n = set_seed s' n) = (is_seed_node n \<longrightarrow> s = s')"
proof (cases "is_seed_node n")
  case False
  then show ?thesis by (simp add: set_seed_def)
next
  case True
  then obtain x xs where w: "node_widgets n = Some (x # xs)"
    by (cases "node_widgets n"; cases "the (node_widgets n)") (auto simp add: is_seed_node_def)
  have "(n\<lparr>node_widgets := Some (JInt s # xs)\<rparr> = n\<lparr>node_widgets := Some (JInt s' # xs)\<rparr>) = (s = s')"
    by (metis json.inject(2) list.inject node.select_convs(5) node.surjective node.update_convs(5) option.inject)
  then show ?thesis using True w by (simp add: set_seed_def)
qed

lemma fold_apply_update_length:
  "length (fold (apply_update refs) updates h) = length h"
  using fold_apply_update_frame [of 0 refs updates h] by (simp add: list_all_iff)

lemma seeded_nodes_eq_iff:
  "(map (\<lambda>(i, n). set_seed (d i) n) (enumerate 0 ns) = map (\<lambda>(i, n). set_seed (d' i) n) (enumerate 0 ns))
     = (\<forall>i<length ns. is_seed_node (ns ! i) \<longrightarrow> d i = d' i)"
proof -
  have "(map (\<lambda>(i, n). set_seed (d i) n) (enumerate 0 ns) = map (\<lambda>(i, n). set_seed (d' i) n) (enumerate 0 ns))
      = (\<forall>i<length ns. set_seed (d i) (ns ! i) = set_seed (d' i) (ns ! i))"
    by (simp add: list_eq_iff_nth_eq nth_enumerate_eq)
  then show ?thesis by (simp add: set_seed_eq_iff)
qed

lemma workflow_nodes_update_eq:
  "((w :: workflow)\<lparr>wf_nodes := a\<rparr> = w\<lparr>wf_nodes := b\<rparr>) = (a = b)"
proof
  assume "w\<lparr>wf_nodes := a\<rparr> = w\<lparr>wf_nodes := b\<rparr>"
  then have "wf_nodes (w\<lparr>wf_nodes := a\<rparr>) = wf_nodes (w\<lparr>wf_nodes := b\<rparr>)" by simp
  then show "a = b" by simp
next
  assume "a = b"
  then show "w\<lparr>wf_nodes := a\<rparr> = w\<lparr>wf_nodes := b\<rparr>" by simp
qed

lemma patched_template_shape:
  assumes "sw_nodes w = Some refs" and "distinct refs"
    and "list_all (\<lambda>a. a < length h \<and> node_type (h ! a) \<noteq> None) refs"
  shows "\<exists>ns. wf_nodes (updated_template h w updates) = Some ns \<and> length ns = length refs
      \<and> (\<forall>draws. patched_template h w updates draws
            = Inr ((updated_template h w updates)
                     \<lparr>wf_nodes := Some (map (\<lambda>(i, n). set_seed (draws i) n) (enumerate 0 ns))\<rparr>))"
proof -
  let ?n = "length h" and ?k = "length refs"
  let ?h1 = "h @ map (\<lambda>a. h ! a) refs"
  let ?refs1 = "[?n ..< ?n + ?k]"
  let ?w1 = "w\<lparr>sw_nodes := Some ?refs1\<rparr>"
  let ?h2 = "fold (apply_update ?refs1) updates ?h1"
  let ?ns = "map (\<lambda>a. ?h2 ! a) ?refs1"
  have valid: "list_all (\<lambda>a. a < length h) refs" using assms(3) by (simp add: list_all_iff)
  obtain memo1 where dn: "deepcopy_nodes h [] refs = (?h1, memo1, ?refs1)"
    using deepcopy_nodes_distinct [OF assms(2) valid, of "[]"] by auto
  have dw: "deepcopy_workflow h w = (?h1, ?w1)"
    by (simp add: deepcopy_workflow_def assms(1) dn)
  have uw: "update_workflow h w updates = (?h2, ?w1)"
    by (simp add: update_workflow_def dw nodes_of_def)
  have ut: "updated_template h w updates = read_workflow ?h2 ?w1"
    by (simp add: updated_template_def uw)
  have len2: "length ?h2 = ?n + ?k" by (simp add: fold_apply_update_length)
  have ty2: "map node_type ?h2 = map node_type ?h1" by (rule fold_apply_update_types)
  have typed: "list_all (\<lambda>a. a < length ?h2 \<and> node_type (?h2 ! a) \<noteq> None) ?refs1"
  proof -
    have "node_type (?h2 ! a) \<noteq> None" if a: "?n \<le> a" "a < ?n + ?k" for a
    proof -
      have l1: "a < length ?h1" using a by simp
      have "node_type (?h2 ! a) = map node_type ?h2 ! a" using a len2 by simp
      also have "\<dots> = map node_type ?h1 ! a" by (simp only: ty2)
      also have "\<dots> = node_type (?h1 ! a)" using l1 by (rule nth_map)
      also have "\<dots> = node_type (h ! (refs ! (a - ?n)))" using a by (simp add: nth_append)
      finally show ?thesis using assms(3) a by (simp add: list_all_length)
    qed
    then show ?thesis using len2 by (simp add: list_all_iff)
  qed
  have seeded: "patched_template h w updates draws
            = Inr ((read_workflow ?h2 ?w1)
                     \<lparr>wf_nodes := Some (map (\<lambda>(i, n). set_seed (draws i) n) (enumerate 0 ?ns))\<rparr>)"
    for draws
  proof -
    obtain h3 where r: "randomize_seeds draws 0 ?refs1 ?h2 = Inr h3"
      and m: "map (\<lambda>a. h3 ! a) ?refs1
                = map (\<lambda>(i, a). set_seed (draws i) (?h2 ! a)) (enumerate 0 ?refs1)"
      using randomize_seeds_distinct [OF distinct_upt typed, of draws 0] by blast
    have e: "map (\<lambda>(i, a). set_seed (draws i) (?h2 ! a)) (enumerate 0 ?refs1)
               = map (\<lambda>(i, n). set_seed (draws i) n) (enumerate 0 ?ns)"
      by (simp add: enumerate_eq_zip zip_map2 split_def comp_def)
    show ?thesis
      using r m e by (simp add: patched_template_def patch_and_seed_def uw read_workflow_def)
  qed
  show ?thesis
    by (rule exI [of _ ?ns]) (simp add: ut seeded read_workflow_def)
qed

lemma sample_update_result:
  "update_workflow sample_store sample_stored_workflow sample_updates
   = (sample_store @ sample_patched_nodes,
      \<lparr>sw_nodes = Some [4, 5, 6, 7], sw_links = Some [], sw_rest = []\<rparr>)"
  by code_simp

lemma sample_update_again:
  "update_workflow (sample_store @ sample_patched_nodes) sample_stored_workflow sample_updates
   = ((sample_store @ sample_patched_nodes) @ sample_patched_nodes,
      \<lparr>sw_nodes = Some [8, 9, 10, 11], sw_links = Some [], sw_rest = []\<rparr>)"
  by code_simp

text \<open>Facts about the file tree.\<close>

lemma dirname_shorter:
  assumes "dirname q \<noteq> []" and "\<not> all_slashes (dirname q)"
  shows "length (dirname q) < length q"
proof -
  define head where "head = rev (dropWhile (\<lambda>c. c \<noteq> CHR ''/'') (rev q))"
  have le: "length head \<le> length q"
    using length_dropWhile_le [of "\<lambda>c. c \<noteq> CHR ''/''" "rev q"] by (simp add: head_def)
  have dn: "dirname q = (if head \<noteq> [] \<and> \<not> all_slashes head
                          then rev (dropWhile (\<lambda>c. c = CHR ''/'') (rev head)) else head)"
    unfolding dirname_def head_def Let_def ..
  show ?thesis
  proof (cases "head \<noteq> [] \<and> \<not> all_slashes head")
    case True
    then have d: "dirname q = rev (dropWhile (\<lambda>c. c = CHR ''/'') (rev head))"
      using dn by simp
    have "rev head = dropWhile (\<lambda>c. c \<noteq> CHR ''/'') (rev q)" by (simp add: head_def)
    moreover have "rev head \<noteq> []" using True by simp
    ultimately have "hd (rev head) = CHR ''/''"
      using hd_dropWhile [of "\<lambda>c. c \<noteq> CHR ''/''" "rev q"] by simp
    then have "length (dropWhile (\<lambda>c. c = CHR ''/'') (rev head)) < length (rev head)"
      using \<open>rev head \<noteq> []\<close> by (cases "rev head") (simp_all add: le_imp_less_Suc length_dropWhile_le)
    then show ?thesis using d le by simp
  next
    case False
    then have "dirname q = head" using dn by auto
    then show ?thesis using assms False by simp
  qed
qed

lemma ancestors_shorter: "a \<in> set (ancestors q) \<Longrightarrow> length a < length q"
proof (induction q rule: ancestors.induct)
  case (1 q)
  show ?case
  proof (cases "dirname q = [] \<or> all_slashes (dirname q)")
    case True
    then show ?thesis using "1.prems" by (simp add: ancestors.simps [of q])
  next
    case False
    then have sh: "length (dirname q) < length q" using dirname_shorter by simp
    from False "1.prems" have "a = dirname q \<or> a \<in> set (ancestors (dirname q))"
      by (subst (asm) ancestors.simps) (simp split: if_splits)
    then show ?thesis using sh "1.IH" [OF False] by auto
  qed
qed

lemma fold_max_mono: "m \<le> fold max ys (m::nat)"
proof (induction ys arbitrary: m)
  case Nil
  then show ?case by simp
next
  case (Cons y ys)
  have "m \<le> max y m" by simp
  also have "max y m \<le> fold max ys (max y m)" by (rule Cons.IH)
  finally show ?case by simp
qed

lemma fold_max_ge: "x \<in> set xs \<Longrightarrow> x \<le> fold max xs (m::nat)"
proof (induction xs arbitrary: m)
  case Nil
  then show ?case by simp
next
  case (Cons y ys)
  show ?case
  proof (cases "x = y")
    case True
    have "y \<le> max y m" by simp
    also have "max y m \<le> fold max ys (max y m)" by (rule fold_max_mono)
    finally show ?thesis using True by simp
  next
    case False
    then have "x \<in> set ys" using Cons.prems by simp
    then show ?thesis using Cons.IH by simp
  qed
qed

lemma fresh_inode_fresh:
  assumes "map_of (fs_entries fs) q = Some (RegularFile i)"
  shows "i < fresh_inode fs"
proof -
  have "(q, RegularFile i) \<in> set (fs_entries fs)" using assms by (rule map_of_SomeD)
  then have "i \<in> set (map (\<lambda>(q, e). case e of Directory \<Rightarrow> 0 | RegularFile i \<Rightarrow> i) (fs_entries fs))"
    by force
  then show ?thesis unfolding fresh_inode_def by (simp add: fold_max_ge less_Suc_eq_le)
qed

lemma entry_at_file:
  assumes "entry_at fs q = Some (RegularFile i)"
  shows "map_of (fs_entries fs) q = Some (RegularFile i)"
  using assms by (simp add: entry_at_def split: if_splits)

text \<open>Adding an entry at a place that is empty changes nothing for a path whose
  directories all exist and that is another place.\<close>

lemma first_bad_None:
  assumes "m = (case bad of [] \<Rightarrow> None
                | a # _ \<Rightarrow> (case entry_at fs a of None \<Rightarrow> Some ENOENT | Some _ \<Rightarrow> Some ENOTDIR))"
  shows "m = None \<longleftrightarrow> bad = []"
proof (cases bad)
  case Nil
  then show ?thesis using assms by simp
next
  case (Cons a as)
  then show ?thesis using assms by (cases "entry_at fs a") simp_all
qed

lemma missing_ancestor_None:
  "missing_ancestor fs q = None \<longleftrightarrow> (\<forall>a \<in> set (ancestors q). entry_at fs a = Some Directory)"
proof -
  have "missing_ancestor fs q = None
          \<longleftrightarrow> filter (\<lambda>a. entry_at fs a \<noteq> Some Directory) (rev (ancestors q)) = []"
    by (rule first_bad_None) (simp only: missing_ancestor_def)
  also have "\<dots> \<longleftrightarrow> (\<forall>a \<in> set (ancestors q). entry_at fs a = Some Directory)"
    by (simp add: filter_empty_conv)
  finally show ?thesis .
qed

lemma entry_at_cons:
  "entry_at (fs\<lparr>fs_entries := (q, e) # fs_entries fs, fs_contents := c\<rparr>) a
     = (if a \<noteq> [] \<and> all_slashes a then Some Directory
        else if a = q then Some e else entry_at fs a)"
  by (simp add: entry_at_def)

lemma entry_at_contents:
  "entry_at (fs\<lparr>fs_contents := c\<rparr>) a = entry_at fs a"
  by (simp add: entry_at_def)

lemma missing_ancestor_contents:
  "missing_ancestor (fs\<lparr>fs_contents := c\<rparr>) q = missing_ancestor fs q"
  by (simp add: missing_ancestor_def entry_at_contents cong: list.case_cong)

lemma os_stat_contents:
  "os_stat (fs\<lparr>fs_contents := c\<rparr>) p = os_stat fs p"
  by (simp add: os_stat_def entry_at_contents missing_ancestor_contents cong: option.case_cong)

lemma os_stat_Inr:
  "os_stat fs p = Inr e \<longleftrightarrow>
     p \<noteq> [] \<and> missing_ancestor fs (fs_resolve fs p) = None
     \<and> (case e of Directory \<Rightarrow> entry_at fs (fs_resolve fs p) = Some Directory
         | RegularFile i \<Rightarrow> entry_at fs (fs_resolve fs p) = Some (RegularFile i) \<and> \<not> trailing_slash p)"
proof (cases "p = []")
  case True
  then show ?thesis by (simp add: os_stat_def split: fs_entry.splits)
next
  case False
  show ?thesis
  proof (cases "missing_ancestor fs (fs_resolve fs p)")
    case (Some err)
    then show ?thesis using False by (simp add: os_stat_def split: fs_entry.splits)
  next
    case None
    show ?thesis
    proof (cases "entry_at fs (fs_resolve fs p)")
      case N: None
      then show ?thesis using False None by (simp add: os_stat_def split: fs_entry.splits)
    next
      case (Some en)
      then show ?thesis using False None
        by (cases en; cases e) (auto simp add: os_stat_def)
    qed
  qed
qed

lemma os_stat_new_entry:
  assumes "entry_at fs q = None"
    and "os_stat fs p = Inr e'"
  shows "os_stat (fs\<lparr>fs_entries := (q, e) # fs_entries fs, fs_contents := c\<rparr>) p = Inr e'"
proof -
  define fs' where "fs' = fs\<lparr>fs_entries := (q, e) # fs_entries fs, fs_contents := c\<rparr>"
  have r: "fs_resolve fs' = fs_resolve fs" by (simp add: fs'_def)
  from assms(2) have p: "p \<noteq> []" and m: "missing_ancestor fs (fs_resolve fs p) = None"
    and en: "entry_at fs (fs_resolve fs p) \<noteq> None"
    by (auto simp add: os_stat_Inr split: fs_entry.splits)
  have same: "entry_at fs' a = entry_at fs a" if "entry_at fs a \<noteq> None" for a
  proof -
    have "a \<noteq> q" using that assms(1) by auto
    then show ?thesis by (auto simp add: fs'_def entry_at_def)
  qed
  have "\<forall>a \<in> set (ancestors (fs_resolve fs p)). entry_at fs' a = Some Directory"
  proof
    fix a assume "a \<in> set (ancestors (fs_resolve fs p))"
    then have "entry_at fs a = Some Directory" using m by (simp add: missing_ancestor_None)
    then show "entry_at fs' a = Some Directory" using same [of a] by simp
  qed
  then have m': "missing_ancestor fs' (fs_resolve fs' p) = None"
    unfolding r by (simp add: missing_ancestor_None)
  have e': "entry_at fs' (fs_resolve fs' p) = entry_at fs (fs_resolve fs p)"
    unfolding r using same en by simp
  show ?thesis
    using assms(2) p m' e' unfolding fs'_def [symmetric] os_stat_Inr
    by (simp split: fs_entry.splits)
qed

lemma os_stat_created:
  assumes "entry_at fs (fs_resolve fs p) = None" and "p \<noteq> []" and "\<not> trailing_slash p"
    and "missing_ancestor fs (fs_resolve fs p) = None"
  shows "os_stat (fs\<lparr>fs_entries := (fs_resolve fs p, RegularFile n) # fs_entries fs,
                     fs_contents := c\<rparr>) p = Inr (RegularFile n)"
proof -
  define q where "q = fs_resolve fs p"
  define fs' where "fs' = fs\<lparr>fs_entries := (q, RegularFile n) # fs_entries fs, fs_contents := c\<rparr>"
  have r: "fs_resolve fs' = fs_resolve fs" by (simp add: fs'_def)
  have nr: "\<not> (q \<noteq> [] \<and> all_slashes q)"
    using assms(1) by (auto simp add: entry_at_def q_def)
  have "\<forall>a \<in> set (ancestors q). entry_at fs' a = Some Directory"
  proof
    fix a assume a: "a \<in> set (ancestors q)"
    then have d: "entry_at fs a = Some Directory"
      using assms(4) by (simp add: missing_ancestor_None q_def)
    have "a \<noteq> q" using ancestors_shorter [OF a] by auto
    then show "entry_at fs' a = Some Directory" using d by (auto simp add: fs'_def entry_at_def)
  qed
  then have m': "missing_ancestor fs' (fs_resolve fs' p) = None"
    unfolding r by (simp add: missing_ancestor_None q_def)
  have e': "entry_at fs' (fs_resolve fs' p) = Some (RegularFile n)"
    unfolding r using nr by (auto simp add: fs'_def entry_at_def q_def)
  show ?thesis
    using assms(2,3) m' e' unfolding fs'_def [symmetric] q_def [symmetric] os_stat_Inr
    by simp
qed

lemma place_isdir:
  assumes "place_exists fs p"
  shows "isdir fs p \<longleftrightarrow> entry_at fs (fs_resolve fs p) = Some Directory"
  using assms by (simp add: isdir_def os_stat_Inr place_exists_def)

lemma place_stat_file:
  assumes "place_exists fs p"
  shows "os_stat fs p = Inr (RegularFile j) \<longleftrightarrow> entry_at fs (fs_resolve fs p) = Some (RegularFile j)"
  using assms by (simp add: os_stat_Inr place_exists_def)

lemma isfile_stat: "isfile fs p \<longleftrightarrow> (\<exists>i. os_stat fs p = Inr (RegularFile i))"
  by (cases "os_stat fs p") (auto simp add: isfile_def split: fs_entry.splits)

text \<open>The copy of a regular file to a place that exists, is not a directory and is
  not the file itself.\<close>

lemma shutil_copy_succeeds:
  assumes st: "os_stat fs src = Inr (RegularFile i)"
    and pl: "place_exists fs (copy_target fs src dst)"
    and nf: "no_fault fs src (copy_target fs src dst)"
    and ns: "\<not> samefile fs src (copy_target fs src dst)"
    and nd: "\<not> isdir fs (copy_target fs src dst)"
  shows "\<exists>fs1. shutil_copy fs src dst = (fs1, None)
           \<and> read_file fs1 (copy_target fs src dst) = Some (fs_contents fs i)
           \<and> read_file fs1 src = Some (fs_contents fs i)"
proof -
  define target where "target = copy_target fs src dst"
  define q where "q = fs_resolve fs target"
  define content where "content = fs_contents fs i"
  have rd: "open_read fs src = Inr content"
    using st nf by (simp add: open_read_def no_fault_def content_def)
  have p: "target \<noteq> []" and ts: "\<not> trailing_slash target" and ma: "missing_ancestor fs q = None"
    using pl by (simp_all add: place_exists_def target_def q_def)
  have fw: "fs_fault fs OpenWrite target = None" and fc: "fs_fault fs Chmod target = None"
    using nf by (simp_all add: no_fault_def target_def)
  have ed: "entry_at fs q \<noteq> Some Directory"
    using nd place_isdir [OF pl] by (simp add: target_def q_def)
  show ?thesis
  proof (cases "entry_at fs q")
    case None
    define fs1 where "fs1 = fs\<lparr>fs_entries := (q, RegularFile (fresh_inode fs)) # fs_entries fs,
                                 fs_contents := (fs_contents fs)(fresh_inode fs := content)\<rparr>"
    have ow: "open_write fs target content = Inr fs1"
      using None p ts ma fw by (simp add: open_write_def q_def [symmetric] fs1_def)
    have sc: "shutil_copy fs src dst = (fs1, None)"
      using ns rd ow fc
      by (simp add: shutil_copy_def Let_def target_def [symmetric])
    have "os_stat fs1 target = Inr (RegularFile (fresh_inode fs))"
      unfolding fs1_def q_def
      by (rule os_stat_created) (use None p ts ma in \<open>simp_all add: q_def\<close>)
    then have t: "read_file fs1 target = Some content"
      by (simp add: read_file_def fs1_def)
    have "os_stat fs1 src = Inr (RegularFile i)"
      unfolding fs1_def by (rule os_stat_new_entry [OF None st])
    moreover have "i \<noteq> fresh_inode fs"
    proof -
      have "entry_at fs (fs_resolve fs src) = Some (RegularFile i)"
        using st by (simp add: os_stat_Inr)
      then show ?thesis using fresh_inode_fresh [OF entry_at_file] by blast
    qed
    ultimately have s: "read_file fs1 src = Some content"
      by (simp add: read_file_def fs1_def content_def)
    show ?thesis using sc t s by (simp add: target_def content_def)
  next
    case (Some en)
    then obtain j where j: "entry_at fs q = Some (RegularFile j)"
      using ed by (cases en) simp_all
    define fs1 where "fs1 = fs\<lparr>fs_contents := (fs_contents fs)(j := content)\<rparr>"
    have ow: "open_write fs target content = Inr fs1"
      using j p ts ma fw by (simp add: open_write_def q_def [symmetric] fs1_def)
    have sc: "shutil_copy fs src dst = (fs1, None)"
      using ns rd ow fc
      by (simp add: shutil_copy_def Let_def target_def [symmetric])
    have tj: "os_stat fs target = Inr (RegularFile j)"
      using j place_stat_file [OF pl] by (simp add: target_def q_def)
    have ij: "i \<noteq> j"
      using ns st tj by (simp add: samefile_def target_def [symmetric])
    have t: "read_file fs1 target = Some content"
      using tj by (simp add: read_file_def fs1_def os_stat_contents)
    have s: "read_file fs1 src = Some content"
      using st ij by (simp add: read_file_def fs1_def os_stat_contents content_def)
    show ?thesis using sc t s by (simp add: target_def content_def)
  qed
qed

lemma shutil_copy_fails:
  assumes pl: "place_exists fs (copy_target fs src dst)"
    and nf: "no_fault fs src (copy_target fs src dst)"
    and c: "\<not> (isfile fs src \<and> \<not> samefile fs src (copy_target fs src dst)
               \<and> \<not> isdir fs (copy_target fs src dst))"
  shows "\<exists>msg. shutil_copy fs src dst = (fs, Some msg)"
proof -
  define target where "target = copy_target fs src dst"
  show ?thesis
  proof (cases "samefile fs src target")
    case True
    then show ?thesis by (simp add: shutil_copy_def Let_def target_def [symmetric])
  next
    case ns: False
    show ?thesis
    proof (cases "open_read fs src")
      case (Inl e)
      then show ?thesis using ns by (simp add: shutil_copy_def Let_def target_def [symmetric])
    next
      case (Inr content)
      then have "isfile fs src"
        by (auto simp add: open_read_def isfile_stat split: option.splits sum.splits fs_entry.splits)
      then have d: "isdir fs target" using c ns by (simp add: target_def)
      then have "entry_at fs (fs_resolve fs target) = Some Directory"
        using place_isdir [OF pl] by (simp add: target_def)
      moreover have "target \<noteq> []" "\<not> trailing_slash target"
        "missing_ancestor fs (fs_resolve fs target) = None"
        using pl by (simp_all add: place_exists_def target_def)
      moreover have "fs_fault fs OpenWrite target = None"
        using nf by (simp add: no_fault_def target_def)
      ultimately have "open_write fs target content = Inl EISDIR"
        by (simp add: open_write_def)
      then show ?thesis using ns Inr
        by (simp add: shutil_copy_def Let_def target_def [symmetric])
    qed
  qed
qed

text \<open>
  An output path in a directory that does not exist: the single clip is not copied.
  \<^verbatim>\<open>combine_videos_with_transitions\<close> does not create the directory of its output, as
  \<^verbatim>\<open>add_transition\<close> and the other functions of the module do.
\<close>

lemma missing_directory_is_fatal:
  "snd (combine_videos_with_transitions sample_encoder sample_files [''scene_0.mp4'']
          ''nodir/video.mp4'' ''fade'' 1)
     = (False, Some (''Failed to combine videos with transitions: ''
                       @ ''[Errno 2] No such file or directory: ''
                       @ [CHR 0x27] @ ''nodir/video.mp4'' @ [CHR 0x27]))"
  by code_simp

text \<open>\<^verbatim>\<open>add_transition\<close> with an output path that has no directory part fails in
  \<^verbatim>\<open>os.makedirs\<close>.\<close>

lemma transition_without_directory_part:
  "snd (add_transition sample_encoder sample_files ''scene_0.mp4'' ''scene_1.mp4''
          ''joined.mp4'' ''fade'' 1)
     = (False, Some (''Failed to add transition: [Errno 2] No such file or directory: ''
                       @ [CHR 0x27, CHR 0x27]))"
  by code_simp

text \<open>Three clips are joined pairwise; the temporary directory is removed at the end.\<close>

lemma sample_combination:
  "snd (combine_videos_with_transitions sample_encoder sample_files
          [''scene_0.mp4'', ''scene_1.mp4'', ''scene_0.mp4''] ''outputs/video.mp4'' ''fade'' 1)
     = (True, None)
   \<and> map (read_file (fst (combine_videos_with_transitions sample_encoder sample_files
             [''scene_0.mp4'', ''scene_1.mp4'', ''scene_0.mp4''] ''outputs/video.mp4'' ''fade'' 1)))
         [''outputs/video.mp4'', ''scene_0.mp4'',
          ''/tmp/transition_temp_video.mp4/temp_transition_1.mp4'']
     = [Some ''clip 0+clip 1+clip 0'', Some ''clip 0'', None]"
  by code_simp

section \<open>Claims\<close>

text \<open>
  C10. When the caller supplies no scene count, the derived count lies between 4 and 12:
  a parsed duration gives \<open>max 4 (min 12 (round (seconds / 20)))\<close>, otherwise non-empty
  lyrics give \<open>max 4 (min 12 (round (lines / 6)))\<close>, otherwise the default 5.
\<close>

theorem C10_scene_count_bounds:
  "4 \<le> determine_scene_count None duration lyrics_lines
   \<and> determine_scene_count None duration lyrics_lines \<le> 12
   \<and> determine_scene_count None (Duration minutes seconds) lyrics_lines
       = max 4 (min 12 (py_round (of_int (minutes * 60 + seconds) / 20)))
   \<and> determine_scene_count None NoDuration (l # ls)
       = max 4 (min 12 (py_round (of_nat (length (l # ls)) / 6)))
   \<and> determine_scene_count None BadDuration (l # ls)
       = max 4 (min 12 (py_round (of_nat (length (l # ls)) / 6)))
   \<and> determine_scene_count None NoDuration [] = 5
   \<and> determine_scene_count None BadDuration [] = 5"
  by (cases duration; cases lyrics_lines) (simp_all add: determine_scene_count_def)

text \<open>
  C1 (as stated: overall progress is non-decreasing and equals 100 exactly when the
  status is \<^verbatim>\<open>completed\<close>). A run with two scenes in which every step succeeds: the
  transition update (index 1 of 1) and the audio update (100 percent) both store 100
  while the status is still \<^verbatim>\<open>running\<close>.
\<close>

theorem C1_counterexample:
  "map (map_option (\<lambda>j. (overall_progress j, status j)))
     (snapshots ''job'' new_tracker (generate_from_url (sample_env []) ''url'' (Some 2) ''cinematic''))
   = [Some (0, ''running''), Some (5, ''running''), Some (5, ''running''), Some (10, ''running''),
      Some (10, ''running''), Some (15, ''running''), Some (15, ''running''), Some (20, ''running''),
      Some (50, ''running''), Some (125 / 2, ''running''), Some (75, ''running''),
      Some (100, ''running''), Some (100, ''running''), Some (100, ''completed'')]
   \<and> \<not> list_all (\<lambda>s. (map_option overall_progress s = Some 100) = (map_option status s = Some ''completed''))
         (snapshots ''job'' new_tracker (generate_from_url (sample_env []) ''url'' (Some 2) ''cinematic''))"
  by code_simp

text \<open>
  C1 (amended). For a job started by \<^verbatim>\<open>generate_from_url\<close> with a derived scene count or
  an explicit count of at least one, every tracker call leaves a snapshot, the overall
  progress of the snapshots is non-decreasing, and a snapshot with status
  \<^verbatim>\<open>completed\<close> has overall progress 100.
\<close>

theorem C1_progress_monotone:
  assumes "\<forall>n. scene_count = Some n \<longrightarrow> 1 \<le> n"
  shows "list_all (\<lambda>s. s \<noteq> None) (snapshots jid t (generate_from_url env url scene_count style))
    \<and> sorted (map (\<lambda>s. overall_progress (the s))
                (snapshots jid t (generate_from_url env url scene_count style)))
    \<and> list_all (\<lambda>s. status (the s) = ''completed'' \<longrightarrow> overall_progress (the s) = 100)
         (snapshots jid t (generate_from_url env url scene_count style))"
proof -
  let ?j0 = "initial_job jid 0 (''Music Video: '' @ url)"
  let ?tr = "?j0 # job_trace jid ?j0
               (UpdateStage ''download'' ''Downloading audio from URL'' # worker env scene_count style)"
  have s: "snapshots jid t (generate_from_url env url scene_count style) = map Some ?tr"
    unfolding generate_from_url_def by (rule snapshots_create)
  have m: "map (\<lambda>s. overall_progress (the s)) (map Some ?tr) = map overall_progress ?tr"
    by (simp add: comp_def)
  note ok = worker_trace_ok [OF assms, of jid "''Music Video: '' @ url" env style]
  have a: "list_all (\<lambda>s. s \<noteq> None) (map Some ?tr)"
    by (simp add: list_all_iff)
  have b: "sorted (map (\<lambda>s. overall_progress (the s)) (map Some ?tr))"
    unfolding m using ok by blast
  have c: "list_all (\<lambda>s. status (the s) = ''completed'' \<longrightarrow> overall_progress (the s) = 100)
             (map Some ?tr)"
    using ok by (simp add: list_all_iff)
  show ?thesis unfolding s using a b c by blast
qed

theorem C1_progress_monotone_witness:
  "sorted (map (\<lambda>s. overall_progress (the s))
      (snapshots ''job'' new_tracker (generate_from_url (sample_env [2]) ''url'' (Some 5) ''cinematic'')))
   \<and> length (snapshots ''job'' new_tracker
               (generate_from_url (sample_env [2]) ''url'' (Some 5) ''cinematic'')) = 16"
proof -
  have h: "\<forall>n. Some (5::int) = Some n \<longrightarrow> 1 \<le> n" by simp
  have l: "length (snapshots ''job'' new_tracker
                     (generate_from_url (sample_env [2]) ''url'' (Some 5) ''cinematic'')) = 16"
    by code_simp
  from C1_progress_monotone [OF h, of "''job''" new_tracker "sample_env [2]" "''url''" "''cinematic''"] l
  show ?thesis by blast
qed

text \<open>
  C3 (as stated: during \<^verbatim>\<open>scene_generation\<close> the overall progress is
  \<open>15 + (50 - 15) \<cdot> done / total\<close>). With two scenes, the update for the first scene
  stores 35; the stated formula gives 32.5.
\<close>

theorem C3_counterexample:
  "map_option overall_progress
     (get_progress
        (update_scene_progress
           (update_stage (create_job new_tracker ''job'' 2 ''title'') ''job''
              ''scene_generation'' ''Generating scene images'')
           ''job'' 0 ''1'') ''job'') = Some 35
   \<and> (35 :: rat) \<noteq> 15 + (50 - 15) * (1 / 2)"
  by (simp add: get_progress_def get_job_def update_scene_progress_def update_stage_def create_job_def
      new_tracker_def mutate_job_def save_progress_def update_stage_job_def update_scene_progress_job_def
      stage_weights_def initial_job_def)

text \<open>
  C3 (amended). Entering a stage stores a fixed value: \<^verbatim>\<open>download\<close> 5, \<^verbatim>\<open>lyrics\<close> 10,
  \<^verbatim>\<open>scene_planning\<close> 15, \<^verbatim>\<open>scene_generation\<close> 20, \<^verbatim>\<open>video_creation\<close> 50. A scene update
  during \<^verbatim>\<open>scene_generation\<close> stores \<open>min 100 (20 + 30 \<cdot> (index + 1) / max 1 total)\<close>, which
  lies between 20 and 50 when \<open>0 \<le> index + 1 \<le> total\<close>; during \<^verbatim>\<open>video_creation\<close> it
  stores \<open>min 100 (50 + 25 \<cdot> (index + 1) / max 1 total)\<close>; a transition update stores
  \<open>min 100 (75 + 15 \<cdot> (index + 1) / max 1 n)\<close> and an audio update
  \<open>min 100 (90 + 10 \<cdot> percent / 100)\<close>.
\<close>

theorem C3_stage_bands:
  assumes "progress_data t jid = Some j"
  shows "map_option overall_progress (get_progress (update_stage t jid ''download'' d) jid) = Some 5
   \<and> map_option overall_progress (get_progress (update_stage t jid ''lyrics'' d) jid) = Some 10
   \<and> map_option overall_progress (get_progress (update_stage t jid ''scene_planning'' d) jid) = Some 15
   \<and> map_option overall_progress (get_progress (update_stage t jid ''scene_generation'' d) jid) = Some 20
   \<and> map_option overall_progress (get_progress (update_stage t jid ''video_creation'' d) jid) = Some 50
   \<and> (stage_name j = ''scene_generation'' \<longrightarrow>
        map_option overall_progress (get_progress (update_scene_progress t jid i sid) jid)
          = Some (min 100 (20 + (50 - 20) * (of_int (i + 1) / of_int (max 1 (total_scenes j))))))
   \<and> (stage_name j = ''scene_generation'' \<and> 0 \<le> i + 1 \<and> i + 1 \<le> total_scenes j \<longrightarrow>
        (\<exists>v. map_option overall_progress (get_progress (update_scene_progress t jid i sid) jid) = Some v
             \<and> 20 \<le> v \<and> v \<le> 50))
   \<and> (stage_name j = ''video_creation'' \<longrightarrow>
        map_option overall_progress (get_progress (update_scene_progress t jid i sid) jid)
          = Some (min 100 (50 + (75 - 50) * (of_int (i + 1) / of_int (max 1 (total_scenes j))))))
   \<and> map_option overall_progress (get_progress (update_transition_progress t jid i n) jid)
          = Some (min 100 (75 + (90 - 75) * (of_int (i + 1) / of_int (max 1 n))))
   \<and> map_option overall_progress (get_progress (update_audio_progress t jid p) jid)
          = Some (min 100 (90 + (100 - 90) * p / 100))"
proof -
  note gp = get_progress_mutate_job [OF assms]
  have stage: "\<And>name. map_option overall_progress (get_progress (update_stage t jid name d) jid)
      = Some (case map_of stage_weights name of Some w \<Rightarrow> w | None \<Rightarrow> overall_progress j)"
    by (simp add: update_stage_def gp update_stage_job_def Let_def split: option.splits)
  have sg: "stage_name j = ''scene_generation'' \<Longrightarrow>
        map_option overall_progress (get_progress (update_scene_progress t jid i sid) jid)
          = Some (min 100 (20 + (50 - 20) * (of_int (i + 1) / of_int (max 1 (total_scenes j)))))"
    unfolding update_scene_progress_def gp update_scene_progress_job_def Let_def
    by (simp add: percent_cancel del: of_int_add)
  have vc: "stage_name j = ''video_creation'' \<Longrightarrow>
        map_option overall_progress (get_progress (update_scene_progress t jid i sid) jid)
          = Some (min 100 (50 + (75 - 50) * (of_int (i + 1) / of_int (max 1 (total_scenes j)))))"
    unfolding update_scene_progress_def gp update_scene_progress_job_def Let_def
    by (simp add: percent_cancel del: of_int_add)
  have tr: "map_option overall_progress (get_progress (update_transition_progress t jid i n) jid)
          = Some (min 100 (75 + (90 - 75) * (of_int (i + 1) / of_int (max 1 n))))"
    unfolding update_transition_progress_def gp update_transition_progress_job_def Let_def
    by (simp add: percent_cancel del: of_int_add)
  have au: "map_option overall_progress (get_progress (update_audio_progress t jid p) jid)
          = Some (min 100 (90 + (100 - 90) * p / 100))"
    unfolding update_audio_progress_def gp update_audio_progress_job_def by simp
  have band: "stage_name j = ''scene_generation'' \<Longrightarrow> 0 \<le> i + 1 \<Longrightarrow> i + 1 \<le> total_scenes j \<Longrightarrow>
        (\<exists>v. map_option overall_progress (get_progress (update_scene_progress t jid i sid) jid) = Some v
             \<and> 20 \<le> v \<and> v \<le> 50)"
  proof -
    assume a: "stage_name j = ''scene_generation''" "0 \<le> i + 1" "i + 1 \<le> total_scenes j"
    note fb = scene_fraction_bounds [OF a(2,3)]
    have "(0::rat) \<le> (50 - 20) * (of_int (i + 1) / of_int (max 1 (total_scenes j)))"
      using fb(1) by (intro mult_nonneg_nonneg) simp_all
    moreover have "((50::rat) - 20) * (of_int (i + 1) / of_int (max 1 (total_scenes j))) \<le> (50 - 20) * 1"
      using fb(2) by (intro mult_left_mono) simp_all
    ultimately show ?thesis unfolding sg [OF a(1)] by simp
  qed
  show ?thesis
    using stage [of "''download''"] stage [of "''lyrics''"] stage [of "''scene_planning''"]
      stage [of "''scene_generation''"] stage [of "''video_creation''"] sg vc tr au band
    by (simp add: stage_weights_def)
qed

theorem C3_stage_bands_witness:
  "map_option overall_progress
      (get_progress (update_stage (create_job new_tracker ''job'' 4 ''title'') ''job'' ''lyrics'' ''Extracting lyrics from audio'') ''job'') = Some 10
   \<and> map_option overall_progress
      (get_progress (update_transition_progress (create_job new_tracker ''job'' 4 ''title'') ''job'' 1 4) ''job'') = Some (165 / 2)"
proof -
  have h: "progress_data (create_job new_tracker ''job'' 4 ''title'') ''job'' = Some (initial_job ''job'' 4 ''title'')"
    by (simp add: create_job_def save_progress_def new_tracker_def)
  from C3_stage_bands [OF h, of "''Extracting lyrics from audio''" 1 "''2''" 4 0]
  show ?thesis by simp
qed

text \<open>
  C2. After a successful download and with an explicit scene count of at least one, the
  batch step returns one result per requested scene, each flagged by the outcome of its
  render (a failed scene does not abort the batch). With fewer than two successful
  scenes the worker fails the job: the last snapshot is in stage \<^verbatim>\<open>scene_generation\<close> with
  status \<^verbatim>\<open>failed\<close> and no snapshot is in stage \<^verbatim>\<open>video_creation\<close>. With two or more it
  enters \<^verbatim>\<open>video_creation\<close> and renders the prepared successful scenes, which are
  exactly the successful scenes when their image files exist.
\<close>

theorem C2_minimum_two_scenes:
  assumes "env_download env = (fp, err, md)" and "\<not> truthy err" and "1 \<le> n"
  shows "\<exists>descs rs.
      plan_scene_descriptions (env_lyrics_lines env) n style (md_duration md \<noteq> NoDuration) = Inr descs
    \<and> batch_generate_scenes (env_generate_scene env) descs = Inr rs
    \<and> length rs = nat n
    \<and> map sr_success rs = map (\<lambda>(i, scene). \<not> isl (env_generate_scene env i scene)) (enumerate 0 descs)
    \<and> (length (filter sr_success rs) < 2 \<longrightarrow>
         generate_from_url env url (Some n) style
           = [CreateJob 0 (''Music Video: '' @ url),
              UpdateStage ''download'' ''Downloading audio from URL'',
              UpdateStage ''download'' ''Downloading audio from URL'',
              UpdateStage ''lyrics'' ''Extracting lyrics from audio'',
              SetTotalScenes n,
              UpdateStage ''scene_planning'' ''Creating scene descriptions from lyrics'',
              SetSceneDescriptions descs,
              UpdateStage ''scene_generation'' ''Generating scene images'',
              FailJob (''Not enough scenes were successfully generated (only ''
                         @ str_int (int (length (filter sr_success rs))) @ '')'')]
         \<and> map_option (\<lambda>j. (stage_name j, status j))
              (last (snapshots jid t (generate_from_url env url (Some n) style)))
             = Some (''scene_generation'', ''failed'')
         \<and> list_all (\<lambda>s. map_option stage_name s \<noteq> Some ''video_creation'')
              (snapshots jid t (generate_from_url env url (Some n) style)))
    \<and> (2 \<le> length (filter sr_success rs) \<longrightarrow>
         generate_from_url env url (Some n) style
           = [CreateJob 0 (''Music Video: '' @ url),
              UpdateStage ''download'' ''Downloading audio from URL'',
              UpdateStage ''download'' ''Downloading audio from URL'',
              UpdateStage ''lyrics'' ''Extracting lyrics from audio'',
              SetTotalScenes n,
              UpdateStage ''scene_planning'' ''Creating scene descriptions from lyrics'',
              SetSceneDescriptions descs,
              UpdateStage ''scene_generation'' ''Generating scene images'',
              UpdateStage ''video_creation'' ''Creating video from scenes and audio'']
             @ render_video env
                 (adjust_durations (md_duration md)
                    (List.map_filter (prepare_scene env) (filter sr_success rs)))
         \<and> map_option (\<lambda>j. (stage_name j, status j))
              (snapshots jid t (generate_from_url env url (Some n) style) ! 8)
             = Some (''video_creation'', ''running'')
         \<and> (list_all (\<lambda>r. case sr_image_path r of None \<Rightarrow> False
                               | Some p \<Rightarrow> p \<noteq> [] \<and> env_path_exists env p)
               (filter sr_success rs) \<longrightarrow>
              map ps_id (adjust_durations (md_duration md)
                           (List.map_filter (prepare_scene env) (filter sr_success rs)))
                = map sr_scene_id (filter sr_success rs)))"
proof -
  obtain descs where plan:
    "plan_scene_descriptions (env_lyrics_lines env) n style (md_duration md \<noteq> NoDuration) = Inr descs"
    using plan_total [OF assms(3)] by blast
  have ld: "length descs = nat n" using plan_length [OF plan] assms(3) by simp
  then have ne: "descs \<noteq> []" using assms(3) by auto
  define rs where "rs = map (\<lambda>(i, scene). scene_result_of scene (env_generate_scene env i scene))
                          (enumerate 0 descs)"
  have batch: "batch_generate_scenes (env_generate_scene env) descs = Inr rs"
    unfolding rs_def by (rule batch_total [OF ne])
  have lr: "length rs = nat n" using ld by (simp add: rs_def)
  have flags: "map sr_success rs
                 = map (\<lambda>(i, scene). \<not> isl (env_generate_scene env i scene)) (enumerate 0 descs)"
    by (simp add: rs_def sr_success_scene_result_of split_def)
  note ev = op_job_simps update_stage_job_def stage_weights_def fail_job_job_def initial_job_def
  have few: "generate_from_url env url (Some n) style
           = [CreateJob 0 (''Music Video: '' @ url),
              UpdateStage ''download'' ''Downloading audio from URL'',
              UpdateStage ''download'' ''Downloading audio from URL'',
              UpdateStage ''lyrics'' ''Extracting lyrics from audio'',
              SetTotalScenes n,
              UpdateStage ''scene_planning'' ''Creating scene descriptions from lyrics'',
              SetSceneDescriptions descs,
              UpdateStage ''scene_generation'' ''Generating scene images'',
              FailJob (''Not enough scenes were successfully generated (only ''
                         @ str_int (int (length (filter sr_success rs))) @ '')'')]"
    if "length (filter sr_success rs) < 2"
    using that assms(1,2) plan batch
    by (simp add: generate_from_url_def worker_def determine_scene_count_def Let_def
          after_scene_generation_def)
  have many: "generate_from_url env url (Some n) style
           = [CreateJob 0 (''Music Video: '' @ url),
              UpdateStage ''download'' ''Downloading audio from URL'',
              UpdateStage ''download'' ''Downloading audio from URL'',
              UpdateStage ''lyrics'' ''Extracting lyrics from audio'',
              SetTotalScenes n,
              UpdateStage ''scene_planning'' ''Creating scene descriptions from lyrics'',
              SetSceneDescriptions descs,
              UpdateStage ''scene_generation'' ''Generating scene images'',
              UpdateStage ''video_creation'' ''Creating video from scenes and audio'']
             @ render_video env
                 (adjust_durations (md_duration md)
                    (List.map_filter (prepare_scene env) (filter sr_success rs)))"
    if "2 \<le> length (filter sr_success rs)"
    using that assms(1,2) plan batch
    by (simp add: generate_from_url_def worker_def determine_scene_count_def Let_def
          after_scene_generation_def)
  have few_snap: "map_option (\<lambda>j. (stage_name j, status j))
              (last (snapshots jid t (generate_from_url env url (Some n) style)))
             = Some (''scene_generation'', ''failed'')
         \<and> list_all (\<lambda>s. map_option stage_name s \<noteq> Some ''video_creation'')
              (snapshots jid t (generate_from_url env url (Some n) style))"
    if "length (filter sr_success rs) < 2"
    by (simp add: few [OF that] snapshots_create ev)
  have many_snap: "map_option (\<lambda>j. (stage_name j, status j))
              (snapshots jid t (generate_from_url env url (Some n) style) ! 8)
             = Some (''video_creation'', ''running'')"
    if "2 \<le> length (filter sr_success rs)"
    by (simp add: many [OF that] snapshots_create ev)
  have exact: "map ps_id (adjust_durations (md_duration md)
                           (List.map_filter (prepare_scene env) (filter sr_success rs)))
                = map sr_scene_id (filter sr_success rs)"
    if "list_all (\<lambda>r. case sr_image_path r of None \<Rightarrow> False
                               | Some p \<Rightarrow> p \<noteq> [] \<and> env_path_exists env p)
               (filter sr_success rs)"
    using prepare_all_present [OF that] by (simp add: map_ps_id_adjust_durations)
  show ?thesis
    using plan batch lr flags few few_snap many many_snap exact by blast
qed

theorem C2_minimum_two_scenes_witness:
  "(\<exists>descs rs. batch_generate_scenes (env_generate_scene (sample_env [2])) descs = Inr rs
       \<and> length rs = 5
       \<and> map sr_success rs
           = map (\<lambda>(i, scene). \<not> isl (env_generate_scene (sample_env [2]) i scene)) (enumerate 0 descs))
   \<and> drop 8 (generate_from_url (sample_env [2]) ''url'' (Some 5) ''cinematic'')
       = [UpdateStage ''video_creation'' ''Creating video from scenes and audio'',
          UpdateSceneProgress 0 ''1'', UpdateSceneProgress 1 ''2'',
          UpdateSceneProgress 2 ''4'', UpdateSceneProgress 3 ''5'',
          UpdateTransitionProgress 3 3, UpdateAudioProgress 100, CompleteJob ''video.mp4'']
   \<and> drop 8 (generate_from_url (sample_env [0, 1, 2, 4]) ''url'' (Some 5) ''cinematic'')
       = [FailJob ''Not enough scenes were successfully generated (only 1)'']"
proof -
  have d: "env_download (sample_env [2])
             = (Some ''song.mp3'', None, \<lparr>md_duration = NoDuration, md_title = None\<rparr>)"
    by (simp add: sample_env_def)
  have e: "\<not> truthy None" by (simp add: truthy_def)
  have n: "(1::int) \<le> 5" by simp
  have a: "\<exists>descs rs. batch_generate_scenes (env_generate_scene (sample_env [2])) descs = Inr rs
       \<and> length rs = 5
       \<and> map sr_success rs
           = map (\<lambda>(i, scene). \<not> isl (env_generate_scene (sample_env [2]) i scene)) (enumerate 0 descs)"
    using C2_minimum_two_scenes [OF d e n, of "''cinematic''" "''url''" "''job''" new_tracker]
    by auto
  have b: "drop 8 (generate_from_url (sample_env [2]) ''url'' (Some 5) ''cinematic'')
       = [UpdateStage ''video_creation'' ''Creating video from scenes and audio'',
          UpdateSceneProgress 0 ''1'', UpdateSceneProgress 1 ''2'',
          UpdateSceneProgress 2 ''4'', UpdateSceneProgress 3 ''5'',
          UpdateTransitionProgress 3 3, UpdateAudioProgress 100, CompleteJob ''video.mp4'']"
    by code_simp
  have c: "drop 8 (generate_from_url (sample_env [0, 1, 2, 4]) ''url'' (Some 5) ''cinematic'')
       = [FailJob ''Not enough scenes were successfully generated (only 1)'']"
    by code_simp
  show ?thesis using a b c by blast
qed

text \<open>
  C4 (as stated: the composition of a single clip succeeds for every clip). For an
  existing clip and an output path that names the clip's own file, \<^verbatim>\<open>shutil.copy\<close>
  refuses the copy and the composition fails; it also fails for a clip that does not
  exist. In both cases the files are left as they were.
\<close>

theorem C4_counterexample:
  "read_file sample_files ''scene_0.mp4'' = Some ''clip 0''
   \<and> combine_videos_with_transitions sample_encoder sample_files [''scene_0.mp4'']
       ''./scene_0.mp4'' ''fade'' 1
     = (sample_files, False,
        Some (''Failed to combine videos with transitions: ''
                @ [CHR 0x27] @ ''scene_0.mp4'' @ [CHR 0x27] @ '' and ''
                @ [CHR 0x27] @ ''./scene_0.mp4'' @ [CHR 0x27] @ '' are the same file''))
   \<and> combine_videos_with_transitions sample_encoder sample_files [''scene_9.mp4'']
       ''outputs/video.mp4'' ''fade'' 1
     = (sample_files, False,
        Some (''Failed to combine videos with transitions: ''
                @ ''[Errno 2] No such file or directory: ''
                @ [CHR 0x27] @ ''scene_9.mp4'' @ [CHR 0x27]))"
proof -
  have a: "read_file sample_files ''scene_0.mp4'' = Some ''clip 0''" by code_simp
  have b: "shutil_copy sample_files ''scene_0.mp4'' ''./scene_0.mp4''
             = (sample_files,
                Some ([CHR 0x27] @ ''scene_0.mp4'' @ [CHR 0x27] @ '' and ''
                        @ [CHR 0x27] @ ''./scene_0.mp4'' @ [CHR 0x27] @ '' are the same file''))"
  proof -
    have "copy_target sample_files ''scene_0.mp4'' ''./scene_0.mp4'' = ''./scene_0.mp4''"
      by code_simp
    moreover have "samefile sample_files ''scene_0.mp4'' ''./scene_0.mp4''" by code_simp
    moreover have "py_repr ''scene_0.mp4'' = [CHR 0x27] @ ''scene_0.mp4'' @ [CHR 0x27]"
      by code_simp
    moreover have "py_repr ''./scene_0.mp4'' = [CHR 0x27] @ ''./scene_0.mp4'' @ [CHR 0x27]"
      by code_simp
    ultimately show ?thesis by (simp add: shutil_copy_def Let_def)
  qed
  have c: "shutil_copy sample_files ''scene_9.mp4'' ''outputs/video.mp4''
             = (sample_files,
                Some (''[Errno 2] No such file or directory: ''
                        @ [CHR 0x27] @ ''scene_9.mp4'' @ [CHR 0x27]))"
  proof -
    have "copy_target sample_files ''scene_9.mp4'' ''outputs/video.mp4'' = ''outputs/video.mp4''"
      by code_simp
    moreover have "\<not> samefile sample_files ''scene_9.mp4'' ''outputs/video.mp4''" by code_simp
    moreover have "open_read sample_files ''scene_9.mp4'' = Inl ENOENT" by code_simp
    moreover have "str_os_error ENOENT ''scene_9.mp4''
                     = ''[Errno 2] No such file or directory: ''
                        @ [CHR 0x27] @ ''scene_9.mp4'' @ [CHR 0x27]"
      by code_simp
    ultimately show ?thesis by (simp add: shutil_copy_def Let_def)
  qed
  show ?thesis using a b c by (simp add: combine_videos_with_transitions_def)
qed

text \<open>
  C4 (amended). An empty clip list gives the error \<^verbatim>\<open>No videos provided\<close> and leaves the
  files as they are. For a single clip the result does not depend on the encoder or on
  the transition settings: no transition is applied, the clip is copied to the output
  path (to the file of the clip's name in it when the output path is a directory). When
  every directory on the way to the copy exists and the operating system raises no
  fault, the composition succeeds exactly if the clip is a regular file and the copy is
  neither the clip's own file nor a directory; the copy then holds the clip's contents
  and the clip is unchanged. In the other case the composition fails with a message
  that starts \<^verbatim>\<open>Failed to combine videos with transitions:\<close> and the files are as they
  were.
\<close>

theorem C4_single_and_empty:
  "combine_videos_with_transitions enc fs [] output_path transition_type transition_duration
     = (fs, False, Some ''No videos provided'')
   \<and> combine_videos_with_transitions enc fs [video] output_path transition_type transition_duration
     = combine_videos_with_transitions enc2 fs [video] output_path transition_type2
         transition_duration2
   \<and> (place_exists fs (copy_target fs video output_path)
        \<and> no_fault fs video (copy_target fs video output_path) \<longrightarrow>
      (if isfile fs video \<and> \<not> samefile fs video (copy_target fs video output_path)
            \<and> \<not> isdir fs (copy_target fs video output_path)
       then snd (combine_videos_with_transitions enc fs [video] output_path transition_type
                   transition_duration) = (True, None)
            \<and> (\<exists>content. read_file fs video = Some content
                  \<and> read_file (fst (combine_videos_with_transitions enc fs [video] output_path
                                       transition_type transition_duration))
                        (copy_target fs video output_path) = Some content
                  \<and> read_file (fst (combine_videos_with_transitions enc fs [video] output_path
                                       transition_type transition_duration))
                        video = Some content)
       else fst (combine_videos_with_transitions enc fs [video] output_path transition_type
                   transition_duration) = fs
            \<and> (\<exists>msg. snd (combine_videos_with_transitions enc fs [video] output_path
                               transition_type transition_duration)
                  = (False, Some (''Failed to combine videos with transitions: '' @ msg)))))"
proof -
  let ?r = "combine_videos_with_transitions enc fs [video] output_path transition_type
              transition_duration"
  let ?target = "copy_target fs video output_path"
  have e: "combine_videos_with_transitions enc fs [] output_path transition_type transition_duration
             = (fs, False, Some ''No videos provided'')"
    by (simp add: combine_videos_with_transitions_def)
  have i: "?r = combine_videos_with_transitions enc2 fs [video] output_path transition_type2
                  transition_duration2"
    by (simp add: combine_videos_with_transitions_def)
  have s: "snd ?r = (True, None)
            \<and> (\<exists>content. read_file fs video = Some content
                  \<and> read_file (fst ?r) ?target = Some content
                  \<and> read_file (fst ?r) video = Some content)"
    if pl: "place_exists fs ?target" and nf: "no_fault fs video ?target"
      and c: "isfile fs video \<and> \<not> samefile fs video ?target \<and> \<not> isdir fs ?target"
  proof -
    obtain i where st: "os_stat fs video = Inr (RegularFile i)"
      using c by (auto simp add: isfile_stat)
    obtain fs1 where "shutil_copy fs video output_path = (fs1, None)"
      and "read_file fs1 ?target = Some (fs_contents fs i)"
      and "read_file fs1 video = Some (fs_contents fs i)"
      using shutil_copy_succeeds [OF st pl nf] c by blast
    moreover have "read_file fs video = Some (fs_contents fs i)"
      using st by (simp add: read_file_def)
    ultimately show ?thesis by (simp add: combine_videos_with_transitions_def)
  qed
  have f: "fst ?r = fs
            \<and> (\<exists>msg. snd ?r = (False, Some (''Failed to combine videos with transitions: '' @ msg)))"
    if pl: "place_exists fs ?target" and nf: "no_fault fs video ?target"
      and c: "\<not> (isfile fs video \<and> \<not> samefile fs video ?target \<and> \<not> isdir fs ?target)"
  proof -
    obtain msg where "shutil_copy fs video output_path = (fs, Some msg)"
      using shutil_copy_fails [OF pl nf c] by blast
    then show ?thesis by (simp add: combine_videos_with_transitions_def)
  qed
  show ?thesis using e i s f by presburger
qed

theorem C4_single_and_empty_witness:
  "snd (combine_videos_with_transitions sample_encoder sample_files [''scene_0.mp4'']
          ''outputs/video.mp4'' ''fade'' 1) = (True, None)
   \<and> read_file (fst (combine_videos_with_transitions sample_encoder sample_files
                       [''scene_0.mp4''] ''outputs/video.mp4'' ''fade'' 1))
        ''outputs/video.mp4'' = Some ''clip 0''
   \<and> read_file (fst (combine_videos_with_transitions sample_encoder sample_files
                       [''scene_0.mp4''] ''outputs/video.mp4'' ''fade'' 1))
        ''scene_0.mp4'' = Some ''clip 0''
   \<and> snd (combine_videos_with_transitions sample_encoder sample_files [''scene_0.mp4'']
            ''outputs'' ''wipe'' 2) = (True, None)
   \<and> read_file (fst (combine_videos_with_transitions sample_encoder sample_files
                       [''scene_0.mp4''] ''outputs'' ''wipe'' 2))
        ''outputs/scene_0.mp4'' = Some ''clip 0''"
proof -
  have t: "copy_target sample_files ''scene_0.mp4'' ''outputs/video.mp4'' = ''outputs/video.mp4''"
    by code_simp
  have pl: "place_exists sample_files ''outputs/video.mp4''" by code_simp
  have nf: "no_fault sample_files ''scene_0.mp4'' ''outputs/video.mp4''" by code_simp
  have c: "isfile sample_files ''scene_0.mp4''
           \<and> \<not> samefile sample_files ''scene_0.mp4'' ''outputs/video.mp4''
           \<and> \<not> isdir sample_files ''outputs/video.mp4''"
    by code_simp
  have rd: "read_file sample_files ''scene_0.mp4'' = Some ''clip 0''" by code_simp
  have first: "snd (combine_videos_with_transitions sample_encoder sample_files [''scene_0.mp4'']
          ''outputs/video.mp4'' ''fade'' 1) = (True, None)
   \<and> read_file (fst (combine_videos_with_transitions sample_encoder sample_files
                       [''scene_0.mp4''] ''outputs/video.mp4'' ''fade'' 1))
        ''outputs/video.mp4'' = Some ''clip 0''
   \<and> read_file (fst (combine_videos_with_transitions sample_encoder sample_files
                       [''scene_0.mp4''] ''outputs/video.mp4'' ''fade'' 1))
        ''scene_0.mp4'' = Some ''clip 0''"
    using C4_single_and_empty [of sample_encoder sample_files "''outputs/video.mp4''" "''fade''" 1
        "''scene_0.mp4''" sample_encoder "''fade''" 1] pl nf c rd
    unfolding t by auto
  have t2: "copy_target sample_files ''scene_0.mp4'' ''outputs'' = ''outputs/scene_0.mp4''"
    by code_simp
  have pl2: "place_exists sample_files ''outputs/scene_0.mp4''" by code_simp
  have nf2: "no_fault sample_files ''scene_0.mp4'' ''outputs/scene_0.mp4''" by code_simp
  have c2: "isfile sample_files ''scene_0.mp4''
           \<and> \<not> samefile sample_files ''scene_0.mp4'' ''outputs/scene_0.mp4''
           \<and> \<not> isdir sample_files ''outputs/scene_0.mp4''"
    by code_simp
  have second: "snd (combine_videos_with_transitions sample_encoder sample_files [''scene_0.mp4'']
            ''outputs'' ''wipe'' 2) = (True, None)
   \<and> read_file (fst (combine_videos_with_transitions sample_encoder sample_files
                       [''scene_0.mp4''] ''outputs'' ''wipe'' 2))
        ''outputs/scene_0.mp4'' = Some ''clip 0''"
    using C4_single_and_empty [of sample_encoder sample_files "''outputs''" "''wipe''" 2
        "''scene_0.mp4''" sample_encoder "''wipe''" 2] pl2 nf2 c2 rd
    unfolding t2 by auto
  show ?thesis using first second by blast
qed




text \<open>
  C6. With a timeout of zero the loop is never entered, whatever the backend answers
  (so also for a prompt that stays queued): the result is the timeout error, and no
  request, no sleep and no image download takes place. The caller's next step returns
  the error of a failed wait without downloading.
\<close>

theorem C6_timeout_zero:
  "wait_for_prompt be prompt_id 0 check_interval now
     = Some (Failed ''Timeout waiting for prompt to complete'',
             [LogError (''Timeout waiting for prompt '' @ prompt_id)])
   \<and> fetch_after_wait be (Failed ''Timeout waiting for prompt to complete'') output_dir
     = (Inl ''Timeout waiting for prompt to complete'',
        [LogError ''Error processing prompt: Timeout waiting for prompt to complete''])"
  by (simp add: wait_for_prompt_def wait_loop.simps fetch_after_wait_def)

text \<open>
  C7 (as stated: one extended wait, then a silent-failure error). On a backend where the
  prompt stays ambiguous, with a timeout of four seconds and an interval of one second,
  the client makes two extended waits, logs the silent-failure warning twice and returns
  the timeout error.
\<close>

theorem C7_counterexample:
  "wait_for_prompt ambiguous_backend ''p1'' 4 1 0
     = Some (Failed ''Timeout waiting for prompt to complete'',
             [GetStatus, GetHistory, Sleep 2, GetHistory,
              LogWarning ''Prompt p1 not found in execution or history, it may have failed silently'',
              Sleep 1,
              GetStatus, GetHistory, Sleep 2, GetHistory,
              LogWarning ''Prompt p1 not found in execution or history, it may have failed silently'',
              Sleep 1,
              LogError ''Timeout waiting for prompt p1''])"
  by code_simp

text \<open>
  C7 (amended). While the prompt is ambiguous (status without error that names it
  neither as executing nor as pending, history without it), every pass of the loop makes
  one extended wait of twice the interval, asks the history again, logs the warning that
  the prompt may have failed silently, sleeps for the interval and polls again. If the
  prompt stays ambiguous, the client returns the timeout error after
  \<open>\<lceil>timeout / (3 \<cdot> (latency + interval))\<rceil>\<close> such passes.
\<close>

theorem C7_ambiguous_keeps_polling:
  assumes "\<forall>t. \<exists>st. be_status be t = Response 200 (Some st) \<and> sd_error st = None
             \<and> sd_executing st \<noteq> Some prompt_id \<and> sd_pending st \<noteq> Some prompt_id"
    and "\<forall>t. be_history be t = None"
    and "0 \<le> be_latency be" and "0 < check_interval"
  shows "poll_pass be prompt_id check_interval now
           = Again (now + 3 * (be_latency be + check_interval))
               [GetStatus, GetHistory, Sleep (check_interval * 2), GetHistory,
                LogWarning (silent_failure_warning prompt_id), Sleep check_interval]
    \<and> wait_for_prompt be prompt_id timeout check_interval now
         = Some (Failed ''Timeout waiting for prompt to complete'',
                 concat (replicate (nat \<lceil>timeout / (3 * (be_latency be + check_interval))\<rceil>)
                     [GetStatus, GetHistory, Sleep (check_interval * 2), GetHistory,
                      LogWarning (silent_failure_warning prompt_id), Sleep check_interval])
                 @ [LogError (''Timeout waiting for prompt '' @ prompt_id)])"
proof -
  have z: "0 \<le> nat \<lceil>timeout / (3 * (be_latency be + check_interval))\<rceil>" by simp
  from ambiguous_loop [OF assms z, of now "[]"] ambiguous_pass [OF assms(1,2,4)]
  show ?thesis by (simp add: wait_for_prompt_def)
qed

theorem C7_ambiguous_keeps_polling_witness:
  "wait_for_prompt ambiguous_backend ''p1'' 7 2 0
     = Some (Failed ''Timeout waiting for prompt to complete'',
             [GetStatus, GetHistory, Sleep 4, GetHistory,
              LogWarning ''Prompt p1 not found in execution or history, it may have failed silently'',
              Sleep 2,
              GetStatus, GetHistory, Sleep 4, GetHistory,
              LogWarning ''Prompt p1 not found in execution or history, it may have failed silently'',
              Sleep 2,
              LogError ''Timeout waiting for prompt p1''])"
proof -
  have h1: "\<forall>t. \<exists>st. be_status ambiguous_backend t = Response 200 (Some st) \<and> sd_error st = None
             \<and> sd_executing st \<noteq> Some ''p1'' \<and> sd_pending st \<noteq> Some ''p1''"
    by (simp add: ambiguous_backend_def)
  have h2: "\<forall>t. be_history ambiguous_backend t = None" by (simp add: ambiguous_backend_def)
  have h3: "0 \<le> be_latency ambiguous_backend" by (simp add: ambiguous_backend_def)
  have h4: "(0::rat) < 2" by simp
  have c: "\<lceil>(7::rat) / 6\<rceil> = 2" by (rule ceiling_unique) simp_all
  have n: "nat \<lceil>(7::rat) / (3 * (be_latency ambiguous_backend + 2))\<rceil> = Suc (Suc 0)"
    by (simp add: ambiguous_backend_def c)
  from C7_ambiguous_keeps_polling [OF h1 h2 h3 h4, of 0 7]
  show ?thesis unfolding n by (simp add: silent_failure_warning_def)
qed

text \<open>
  C9. For every store, workflow and list of updates (matching or not, well-formed keys
  or not), every node that existed before the call is unchanged after it, and the links
  and other entries of the result are those of the input. When the workflow's node
  addresses are valid, the input workflow reads the same before and after, the nodes of
  the result are fresh objects, and without updates the result reads like the input (it
  is a copy).
\<close>

theorem C9_input_unchanged:
  "take (length h) (fst (update_workflow h w updates)) = h
   \<and> sw_links (snd (update_workflow h w updates)) = sw_links w
   \<and> sw_rest (snd (update_workflow h w updates)) = sw_rest w
   \<and> (list_all (\<lambda>a. a < length h) (nodes_of w) \<longrightarrow>
        read_workflow (fst (update_workflow h w updates)) w = read_workflow h w
        \<and> list_all (\<lambda>a. length h \<le> a \<and> a < length (fst (update_workflow h w updates)))
             (nodes_of (snd (update_workflow h w updates)))
        \<and> read_workflow (fst (update_workflow h w [])) (snd (update_workflow h w []))
             = read_workflow h w)"
proof -
  obtain h1 refs1 where
    dc: "deepcopy_workflow h w = (h1, w\<lparr>sw_nodes := map_option (\<lambda>_. refs1) (sw_nodes w)\<rparr>)"
    and ext: "\<exists>cs. h1 = h @ cs"
    and fresh: "list_all (\<lambda>a. length h \<le> a) (nodes_of (w\<lparr>sw_nodes := map_option (\<lambda>_. refs1) (sw_nodes w)\<rparr>))"
    and copies: "list_all (\<lambda>a. a < length h) (nodes_of w) \<Longrightarrow>
           list_all (\<lambda>a. a < length h1) (nodes_of (w\<lparr>sw_nodes := map_option (\<lambda>_. refs1) (sw_nodes w)\<rparr>))
           \<and> map (\<lambda>a. h1 ! a) (nodes_of (w\<lparr>sw_nodes := map_option (\<lambda>_. refs1) (sw_nodes w)\<rparr>))
               = map (\<lambda>a. h ! a) (nodes_of w)"
    using update_workflow_shape [of h w] by blast
  let ?w1 = "w\<lparr>sw_nodes := map_option (\<lambda>_. refs1) (sw_nodes w)\<rparr>"
  let ?h2 = "fold (apply_update (nodes_of ?w1)) updates h1"
  have uw: "update_workflow h w updates = (?h2, ?w1)" by (simp add: update_workflow_def dc)
  have uw0: "update_workflow h w [] = (h1, ?w1)" by (simp add: update_workflow_def dc)
  note fr = fold_apply_update_frame [OF fresh, of updates h1]
  obtain cs where cs: "h1 = h @ cs" using ext by blast
  have frame: "take (length h) ?h2 = h" using fr cs by simp
  have len: "length ?h2 = length h1" using fr by simp
  have part2: "read_workflow ?h2 w = read_workflow h w
        \<and> list_all (\<lambda>a. length h \<le> a \<and> a < length ?h2) (nodes_of ?w1)
        \<and> read_workflow h1 ?w1 = read_workflow h w"
    if v: "list_all (\<lambda>a. a < length h) (nodes_of w)"
  proof -
    have nth_same: "?h2 ! a = h ! a" if "a < length h" for a
    proof -
      have "take (length h) ?h2 ! a = ?h2 ! a" using that by simp
      then show ?thesis using frame by simp
    qed
    have r1: "read_workflow ?h2 w = read_workflow h w"
      using v nth_same
      by (cases "sw_nodes w") (auto simp add: read_workflow_def nodes_of_def list_all_iff)
    have r2: "list_all (\<lambda>a. length h \<le> a \<and> a < length ?h2) (nodes_of ?w1)"
      using fresh copies [OF v] len by (auto simp add: list_all_iff)
    have r3: "read_workflow h1 ?w1 = read_workflow h w"
      using copies [OF v]
      by (cases "sw_nodes w") (simp_all add: read_workflow_def nodes_of_def)
    show ?thesis using r1 r2 r3 by blast
  qed
  show ?thesis unfolding uw uw0 using frame part2 by simp
qed

theorem C9_input_unchanged_witness:
  "read_workflow (fst (update_workflow sample_store sample_stored_workflow sample_updates))
       sample_stored_workflow
     = read_workflow sample_store sample_stored_workflow
   \<and> nodes_of (snd (update_workflow sample_store sample_stored_workflow sample_updates)) = [4, 5, 6, 7]
   \<and> map node_widgets
        (the (wf_nodes (read_workflow
           (fst (update_workflow sample_store sample_stored_workflow sample_updates))
           (snd (update_workflow sample_store sample_stored_workflow sample_updates)))))
       = [Some [JInt 7, JStr ''fixed'', JInt 20], Some [JStr ''a dog''],
          Some [JStr ''output'', JStr ''scene_1''], None]"
proof -
  have v: "list_all (\<lambda>a. a < length sample_store) (nodes_of sample_stored_workflow)"
    by (simp add: sample_store_def sample_stored_workflow_def nodes_of_def)
  have a: "read_workflow (fst (update_workflow sample_store sample_stored_workflow sample_updates))
       sample_stored_workflow
     = read_workflow sample_store sample_stored_workflow"
    using C9_input_unchanged [of sample_store sample_stored_workflow sample_updates] v by blast
  have l: "length sample_store = 4" by (simp add: sample_store_def)
  have b: "nodes_of (snd (update_workflow sample_store sample_stored_workflow sample_updates)) = [4, 5, 6, 7]"
    by (simp add: sample_update_result nodes_of_def)
  have c: "map node_widgets
        (the (wf_nodes (read_workflow
           (fst (update_workflow sample_store sample_stored_workflow sample_updates))
           (snd (update_workflow sample_store sample_stored_workflow sample_updates)))))
       = [Some [JInt 7, JStr ''fixed'', JInt 20], Some [JStr ''a dog''],
          Some [JStr ''output'', JStr ''scene_1''], None]"
    by (simp add: sample_update_result read_workflow_def nth_append l sample_patched_nodes_def)
  show ?thesis using a b c by blast
qed

text \<open>
  C8 (as stated: every patch sets the seed to a fresh random value, so two patches of
  one template with the same updates differ). \<^verbatim>\<open>update_workflow\<close> leaves the sampler's
  seed 7 in place; a second call on the same template with the same updates gives an
  equal template; and when the caller's seeding step draws the same number twice, the
  seeded templates are equal as well.
\<close>

theorem C8_counterexample:
  "map node_widgets
     (the (wf_nodes (updated_template sample_store sample_stored_workflow sample_updates)))
     = [Some [JInt 7, JStr ''fixed'', JInt 20], Some [JStr ''a dog''],
        Some [JStr ''output'', JStr ''scene_1''], None]
   \<and> updated_template
        (fst (update_workflow sample_store sample_stored_workflow sample_updates))
        sample_stored_workflow sample_updates
     = updated_template sample_store sample_stored_workflow sample_updates
   \<and> patched_template
        (fst (update_workflow sample_store sample_stored_workflow sample_updates))
        sample_stored_workflow sample_updates (\<lambda>i. 42)
     = patched_template sample_store sample_stored_workflow sample_updates (\<lambda>i. 42)"
proof -
  have l: "length sample_store = 4" "length sample_patched_nodes = 4"
    by (simp_all add: sample_store_def sample_patched_nodes_def)
  have t: "list_all (\<lambda>n. node_type n \<noteq> None) sample_patched_nodes"
    by (simp add: sample_patched_nodes_def)
  show ?thesis
    using t
    by (simp add: updated_template_def patched_template_def patch_and_seed_def
          sample_update_result sample_update_again read_workflow_def nth_append l)
       (simp add: sample_patched_nodes_def)
qed

text \<open>
  C8 (amended). The seed is set by the caller after patching, not by the patch. For a
  template whose nodes are distinct objects with a type, the template that is queued is
  the patched template in which the first widget of every \<^verbatim>\<open>KSampler\<close> node with a
  non-empty widget list is replaced by the number drawn for it; two runs on the same
  template with the same updates give equal templates exactly when the numbers drawn for
  these nodes agree.
\<close>

theorem C8_seed_set_after_patch:
  assumes "sw_nodes w = Some refs" and "distinct refs"
    and "list_all (\<lambda>a. a < length h \<and> node_type (h ! a) \<noteq> None) refs"
  shows "\<exists>ns. wf_nodes (updated_template h w updates) = Some ns \<and> length ns = length refs
      \<and> patched_template h w updates draws
            = Inr ((updated_template h w updates)
                     \<lparr>wf_nodes := Some (map (\<lambda>(i, n). set_seed (draws i) n) (enumerate 0 ns))\<rparr>)
      \<and> ((patched_template h w updates draws = patched_template h w updates draws')
           = (\<forall>i<length ns. is_seed_node (ns ! i) \<longrightarrow> draws i = draws' i))"
proof -
  obtain ns where a: "wf_nodes (updated_template h w updates) = Some ns" "length ns = length refs"
    and s: "\<And>d. patched_template h w updates d
            = Inr ((updated_template h w updates)
                     \<lparr>wf_nodes := Some (map (\<lambda>(i, n). set_seed (d i) n) (enumerate 0 ns))\<rparr>)"
    using patched_template_shape [OF assms, of updates] by blast
  have "(patched_template h w updates draws = patched_template h w updates draws')
           = (\<forall>i<length ns. is_seed_node (ns ! i) \<longrightarrow> draws i = draws' i)"
    by (simp only: s sum.inject workflow_nodes_update_eq option.inject seeded_nodes_eq_iff)
  then show ?thesis using a s by blast
qed

theorem C8_seed_set_after_patch_witness:
  "patched_template sample_store sample_stored_workflow sample_updates (\<lambda>i. 42)
     \<noteq> patched_template sample_store sample_stored_workflow sample_updates (\<lambda>i. 43)
   \<and> map_option (map node_widgets)
        (case patched_template sample_store sample_stored_workflow sample_updates (\<lambda>i. 42) of
           Inl e \<Rightarrow> None | Inr t \<Rightarrow> wf_nodes t)
     = Some [Some [JInt 42, JStr ''fixed'', JInt 20], Some [JStr ''a dog''],
             Some [JStr ''output'', JStr ''scene_1''], None]"
proof -
  have h1: "sw_nodes sample_stored_workflow = Some [0, 1, 2, 3]"
    by (simp add: sample_stored_workflow_def)
  have h2: "distinct [0::nat, 1, 2, 3]" by simp
  have h3: "list_all (\<lambda>a. a < length sample_store \<and> node_type (sample_store ! a) \<noteq> None) [0, 1, 2, 3]"
    by (simp add: sample_store_def)
  have l: "length sample_store = 4" "length sample_patched_nodes = 4"
    by (simp_all add: sample_store_def sample_patched_nodes_def)
  have ut: "wf_nodes (updated_template sample_store sample_stored_workflow sample_updates)
              = Some sample_patched_nodes"
    by (simp add: updated_template_def sample_update_result read_workflow_def nth_append l)
       (simp add: sample_patched_nodes_def)
  obtain ns where ns: "wf_nodes (updated_template sample_store sample_stored_workflow sample_updates) = Some ns"
    and iff: "(patched_template sample_store sample_stored_workflow sample_updates (\<lambda>i. 42)
                = patched_template sample_store sample_stored_workflow sample_updates (\<lambda>i. 43))
              = (\<forall>i<length ns. is_seed_node (ns ! i) \<longrightarrow> (42::int) = 43)"
    and pt: "patched_template sample_store sample_stored_workflow sample_updates (\<lambda>i. 42)
            = Inr ((updated_template sample_store sample_stored_workflow sample_updates)
                     \<lparr>wf_nodes := Some (map (\<lambda>(i, n). set_seed ((\<lambda>i. 42) i) n) (enumerate 0 ns))\<rparr>)"
    using C8_seed_set_after_patch [OF h1 h2 h3, of sample_updates "\<lambda>i. 42" "\<lambda>i. 43"] by blast
  have nse: "ns = sample_patched_nodes" using ns ut by simp
  have "is_seed_node (ns ! 0)" "0 < length ns"
    by (simp_all add: nse sample_patched_nodes_def is_seed_node_def)
  then have "\<not> (\<forall>i<length ns. is_seed_node (ns ! i) \<longrightarrow> (42::int) = 43)" by auto
  then have a: "patched_template sample_store sample_stored_workflow sample_updates (\<lambda>i. 42)
     \<noteq> patched_template sample_store sample_stored_workflow sample_updates (\<lambda>i. 43)"
    using iff by simp
  have b: "map_option (map node_widgets)
        (case patched_template sample_store sample_stored_workflow sample_updates (\<lambda>i. 42) of
           Inl e \<Rightarrow> None | Inr t \<Rightarrow> wf_nodes t)
     = Some [Some [JInt 42, JStr ''fixed'', JInt 20], Some [JStr ''a dog''],
             Some [JStr ''output'', JStr ''scene_1''], None]"
    by (simp add: pt nse sample_patched_nodes_def set_seed_def is_seed_node_def)
  show ?thesis using a b by blast
qed

end
